(* ===== verification/Backoff.thy ===== *)
theory Backoff
  imports TermHub_Prelude
begin

text \<open>
  The reconnect back-off of \<open>crates/termhub-core/src/backoff.rs\<close>: the counter at its 32-bit
  width, the delay with its shift and caps, and what sequence of delays a run of failures
  sees.
\<close>

record Backoff =
  attempts :: u32

definition backoff_default :: Backoff where
  "backoff_default = \<lparr>attempts = 0\<rparr>"

definition next_delay :: "Backoff \<Rightarrow> u64 \<times> Backoff" where
  "next_delay b =
     (let n = attempts b;
          secs = (if n = 0 \<or> n = 1 then 1
                  else let ex = min (n - 1) 5;
                           v = push_bit (unat ex) (1 :: u64)
                       in min v 30)
      in (secs, b\<lparr>attempts := saturating_add n 1\<rparr>))"

definition reset :: "Backoff \<Rightarrow> Backoff" where
  "reset b = b\<lparr>attempts := 0\<rparr>"

definition attempt :: "Backoff \<Rightarrow> u32" where
  "attempt b = attempts b"

text \<open>The delays of \<open>k\<close> failures in a row.\<close>

fun delays :: "nat \<Rightarrow> Backoff \<Rightarrow> u64 list" where
  "delays 0 b = []"
| "delays (Suc k) b = (let (d, b') = next_delay b in d # delays k b')"

lemma delay_cases:
  "fst (next_delay b) =
     (if unat (attempts b) \<le> 1 then 1 else if unat (attempts b) \<ge> 6 then 30
      else 2 ^ (unat (attempts b) - 1))"
proof -
  define n where "n = unat (attempts b)"
  have w: "attempts b = of_nat n" and nb: "n < 2 ^ 32"
    using unsigned_less [of "attempts b"] by (simp_all add: n_def)
  consider "n \<le> 1" | "n = 2" | "n = 3" | "n = 4" | "n = 5" | "n \<ge> 6" by linarith
  then show ?thesis
  proof cases
    case 1
    then have "attempts b = 0 \<or> attempts b = 1" using w by (auto simp: le_Suc_eq)
    with 1 show ?thesis by (auto simp: next_delay_def n_def)
  next
    case 6
    then have ne: "attempts b \<noteq> 0" "attempts b \<noteq> 1" by (auto simp: n_def)
    have "unat (attempts b - 1) = n - 1"
      using ne by (simp add: n_def unat_minus_one)
    then have "min (attempts b - 1) 5 = 5"
      using 6 by (intro min.absorb2) (simp add: word_le_nat_alt)
    with 6 ne show ?thesis by (simp add: next_delay_def n_def Let_def push_bit_eq_mult)
  qed (use w in \<open>simp_all add: next_delay_def n_def [symmetric] Let_def push_bit_eq_mult\<close>)
qed

lemma attempts_next_delay:
  "unat (attempts (snd (next_delay b))) = min (Suc (unat (attempts b))) (2 ^ 32 - 1)"
  by (simp add: next_delay_def unat_saturating_add Let_def)

text \<open>
  The specification the source's tests describe: the first two delays are a second, then the
  delay doubles up to sixteen and stays at thirty.
\<close>

definition delay_spec :: "nat \<Rightarrow> nat" where
  "delay_spec i = (if i \<le> 1 then 1 else min 30 (2 ^ (min (i - 1) 5)))"

lemma unat_fst_next_delay: "unat (fst (next_delay b)) = delay_spec (unat (attempts b))"
proof -
  consider "unat (attempts b) \<le> 1" | "unat (attempts b) = 2" | "unat (attempts b) = 3"
    | "unat (attempts b) = 4" | "unat (attempts b) = 5" | "unat (attempts b) \<ge> 6"
    by linarith
  then show ?thesis
  proof cases
    case 6
    then have "min (unat (attempts b) - 1) 5 = 5" by simp
    with 6 show ?thesis by (simp add: delay_cases delay_spec_def)
  qed (simp_all add: delay_cases delay_spec_def)
qed

lemma delay_spec_bounds: "1 \<le> delay_spec i \<and> delay_spec i \<le> 30"
  by (simp add: delay_spec_def)

lemma delay_spec_sat: "6 \<le> i \<Longrightarrow> 6 \<le> j \<Longrightarrow> delay_spec i = delay_spec j"
  by (simp add: delay_spec_def)

lemma delay_spec_step: "delay_spec (min (Suc i) (2 ^ 32 - 1)) = delay_spec (Suc i)"
  by (cases "Suc i \<le> 2 ^ 32 - 1") (auto intro: delay_spec_sat simp: min_def)

lemma delays_map:
  assumes "delay_spec (unat (attempts b)) = delay_spec i" "unat (attempts b) = min i (2 ^ 32 - 1)"
  shows "map unat (delays k b) = map delay_spec [i ..< i + k]"
  using assms
proof (induction k arbitrary: b i)
  case 0
  then show ?case by simp
next
  case (Suc k)
  obtain d b' where nd: "next_delay b = (d, b')" by force
  have d: "unat d = delay_spec i"
    using unat_fst_next_delay [of b] nd Suc.prems(1) by simp
  have b': "unat (attempts b') = min (Suc i) (2 ^ 32 - 1)"
    using attempts_next_delay [of b] nd Suc.prems(2) by (simp add: min_def)
  moreover have "delay_spec (unat (attempts b')) = delay_spec (Suc i)"
    unfolding b' by (rule delay_spec_step)
  ultimately have "map unat (delays k b') = map delay_spec [Suc i ..< Suc i + k]"
    using Suc.IH by blast
  moreover have "[i ..< i + Suc k] = i # [Suc i ..< Suc i + k]"
    by (simp add: upt_conv_Cons del: upt_Suc)
  ultimately show ?case
    by (simp add: nd d del: upt_Suc)
qed

lemma length_delays [simp]: "length (delays k b) = k"
  by (induction k arbitrary: b) (auto split: prod.splits)

text \<open>
  C34. From a reset, the delays of any number of consecutive failures are 1, 1, 2, 4, 8, 16
  and then 30 seconds for ever: the \<open>u32\<close> counter saturates, so the sequence never falls back.
\<close>

theorem backoff_delay_sequence:
  "map unat (delays k (reset b)) = map delay_spec [0 ..< k]"
  using delays_map [of "reset b" 0 k] by (simp add: reset_def)

end
