(* ===== verification/Eol.thy ===== *)
theory Eol
  imports TermHub_Prelude
begin

text \<open>
  Line-end rewriting for serial links, \<open>crates/termhub-drivers/src/eol.rs\<close>: the index loop of
  \<open>transform\<close>, a structural reference for it, and what each mode leaves in its output.
\<close>

definition CR :: byte where "CR = 13"
definition LF :: byte where "LF = 10"

lemma CR_LF [simp]: "CR \<noteq> LF" "LF \<noteq> CR"
  by (simp_all add: CR_def LF_def)

datatype EolMode = AsIs | Lf | Crlf | Cr

definition eol_parse :: "string \<Rightarrow> EolMode" where
  "eol_parse s =
     (if s = ''lf'' \<or> s = [CHR 10] then Lf
      else if s = ''crlf'' \<or> s = [CHR 13, CHR 10] then Crlf
      else if s = ''cr'' \<or> s = [CHR 13] then Cr
      else AsIs)"

text \<open>The loop of \<open>transform\<close>, from index \<open>i\<close> with the output so far.\<close>

function transform_loop :: "EolMode \<Rightarrow> bytes \<Rightarrow> nat \<Rightarrow> bytes \<Rightarrow> bytes" where
  "transform_loop mode bs i out =
     (if i < length bs then
        let b = bs ! i;
            pair = (i + 1 < length bs \<and> bs ! (i + 1) = LF)
        in if mode = Lf \<and> b = CR then
             (if pair then transform_loop mode bs (i + 2) (out @ [CR, LF])
              else transform_loop mode bs (i + 1) (out @ [LF]))
           else if mode = Crlf \<and> b = CR then
             (if pair then transform_loop mode bs (i + 2) (out @ [CR, LF])
              else transform_loop mode bs (i + 1) (out @ [CR, LF]))
           else if mode = Crlf \<and> b = LF then transform_loop mode bs (i + 1) (out @ [CR, LF])
           else if mode = Cr \<and> b = LF then transform_loop mode bs (i + 1) (out @ [CR])
           else transform_loop mode bs (i + 1) (out @ [b])
      else out)"
  by pat_completeness auto
termination
  by (relation "measure (\<lambda>(mode, bs, i, out). length bs - i)") auto

declare transform_loop.simps [simp del]

definition transform :: "EolMode \<Rightarrow> bytes \<Rightarrow> bytes" where
  "transform mode inp =
     (if mode = AsIs \<or> inp = [] then inp else transform_loop mode inp 0 [])"

text \<open>The reference: one pass over the bytes, looking one byte ahead.\<close>

fun eol_ref :: "EolMode \<Rightarrow> bytes \<Rightarrow> bytes" where
  "eol_ref mode [] = []"
| "eol_ref mode [b] =
     (if b = CR \<and> mode = Lf then [LF]
      else if (b = CR \<or> b = LF) \<and> mode = Crlf then [CR, LF]
      else if b = LF \<and> mode = Cr then [CR] else [b])"
| "eol_ref mode (b # c # r) =
     (if b = CR \<and> c = LF \<and> (mode = Lf \<or> mode = Crlf) then CR # LF # eol_ref mode r
      else if b = CR \<and> mode = Lf then LF # eol_ref mode (c # r)
      else if (b = CR \<or> b = LF) \<and> mode = Crlf then CR # LF # eol_ref mode (c # r)
      else if b = LF \<and> mode = Cr then CR # eol_ref mode (c # r)
      else b # eol_ref mode (c # r))"

lemma transform_loop_ref:
  "transform_loop mode bs i out = out @ eol_ref mode (drop i bs)"
proof (induction "length bs - i" arbitrary: mode i out rule: less_induct)
  case less
  show ?case
  proof (cases "i < length bs")
    case False
    then show ?thesis by (simp add: transform_loop.simps [of mode bs i out])
  next
    case lt: True
    have r: "transform_loop m bs (i + k) out' = out' @ eol_ref m (drop (i + k) bs)"
      if "0 < k" for k out' m
      using lt that by (intro less) simp
    have r1: "transform_loop m bs (Suc i) out' = out' @ eol_ref m (drop (Suc i) bs)"
      and r2: "transform_loop m bs (Suc (Suc i)) out' = out' @ eol_ref m (drop (Suc (Suc i)) bs)"
      for m out' using r [of 1] r [of 2] by simp_all
    show ?thesis
    proof (cases "i + 1 < length bs")
      case True
      have d: "drop i bs = bs ! i # bs ! Suc i # drop (Suc (Suc i)) bs"
        "drop (Suc i) bs = bs ! Suc i # drop (Suc (Suc i)) bs"
        using True by (simp_all add: Cons_nth_drop_Suc)
      show ?thesis
        unfolding transform_loop.simps [of mode bs i out]
        using lt True by (auto simp: r1 r2 d Let_def)
    next
      case False
      have d: "drop i bs = [bs ! i]" "drop (Suc i) bs = []"
        using lt False by (simp_all add: Cons_nth_drop_Suc [symmetric])
      show ?thesis
        unfolding transform_loop.simps [of mode bs i out]
        using lt False by (auto simp: r1 r2 d Let_def)
    qed
  qed
qed

lemma eol_ref_AsIs: "eol_ref AsIs bs = bs"
  by (induction AsIs bs rule: eol_ref.induct) auto

lemma transform_ref: "transform mode bs = eol_ref mode bs"
  by (simp add: transform_def transform_loop_ref eol_ref_AsIs)

text \<open>
  What the output of a mode looks like: every carriage return is followed by a line feed
  (\<open>Lf\<close>); in addition every line feed follows a carriage return (\<open>Crlf\<close>); no line feed is
  left (\<open>Cr\<close>).
\<close>

fun cr_has_lf :: "bytes \<Rightarrow> bool" where
  "cr_has_lf [] = True"
| "cr_has_lf [b] = (b \<noteq> CR)"
| "cr_has_lf (b # c # r) = ((b = CR \<longrightarrow> c = LF) \<and> cr_has_lf (c # r))"

fun crlf_only :: "bytes \<Rightarrow> bool" where
  "crlf_only [] = True"
| "crlf_only [b] = (b \<noteq> CR \<and> b \<noteq> LF)"
| "crlf_only (b # c # r) =
     (if b = CR then c = LF \<and> crlf_only r else b \<noteq> LF \<and> crlf_only (c # r))"

fun eol_normal :: "EolMode \<Rightarrow> bytes \<Rightarrow> bool" where
  "eol_normal AsIs bs = True"
| "eol_normal Lf bs = cr_has_lf bs"
| "eol_normal Crlf bs = crlf_only bs"
| "eol_normal Cr bs = (LF \<notin> set bs)"

lemma cr_has_lf_Cons: "b \<noteq> CR \<Longrightarrow> cr_has_lf (b # r) = cr_has_lf r"
  by (cases r) auto

lemma crlf_only_Cons: "b \<noteq> CR \<Longrightarrow> b \<noteq> LF \<Longrightarrow> crlf_only (b # r) = crlf_only r"
  by (cases r) auto

lemma eol_ref_normal: "eol_normal mode (eol_ref mode bs)"
proof (induction mode bs rule: eol_ref.induct)
  case (3 mode b c r)
  then show ?case
    by (cases mode) (auto simp: cr_has_lf_Cons crlf_only_Cons)
next
  case (1 mode)
  then show ?case by (cases mode) auto
next
  case (2 mode b)
  then show ?case by (cases mode) auto
qed

lemma eol_ref_fixed: "eol_normal mode bs \<Longrightarrow> eol_ref mode bs = bs"
proof (induction mode bs rule: eol_ref.induct)
  case (3 mode b c r)
  then show ?case
    by (cases mode) (auto simp: cr_has_lf_Cons crlf_only_Cons split: if_splits)
next
  case (2 mode b)
  then show ?case by (cases mode) auto
qed simp

lemma length_eol_ref: "length bs \<le> length (eol_ref mode bs) \<and> length (eol_ref mode bs) \<le> 2 * length bs"
  by (induction mode bs rule: eol_ref.induct) auto

text \<open>
  The modes as the comments on \<open>EolMode\<close> describe them: the bytes are pairs CR LF, lone carriage
  returns, lone line feeds and others, and every mode keeps the pairs.
\<close>

datatype line_token = Pair | LoneCR | LoneLF | Other byte

definition single_token :: "byte \<Rightarrow> line_token" where
  "single_token b = (if b = CR then LoneCR else if b = LF then LoneLF else Other b)"

fun line_tokens :: "bytes \<Rightarrow> line_token list" where
  "line_tokens [] = []"
| "line_tokens [b] = [single_token b]"
| "line_tokens (b # c # r) =
     (if b = CR \<and> c = LF then Pair # line_tokens r else single_token b # line_tokens (c # r))"

fun documented :: "EolMode \<Rightarrow> line_token \<Rightarrow> bytes" where
  "documented mode Pair = [CR, LF]"
| "documented mode LoneCR = (case mode of Lf \<Rightarrow> [LF] | Crlf \<Rightarrow> [CR, LF] | _ \<Rightarrow> [CR])"
| "documented mode LoneLF = (case mode of Crlf \<Rightarrow> [CR, LF] | Cr \<Rightarrow> [CR] | _ \<Rightarrow> [LF])"
| "documented mode (Other b) = [b]"

definition eol_documented :: "EolMode \<Rightarrow> bytes \<Rightarrow> bytes" where
  "eol_documented mode bs = concat (map (documented mode) (line_tokens bs))"

lemma line_tokens_Cons: "b \<noteq> CR \<Longrightarrow> line_tokens (b # r) = single_token b # line_tokens r"
  by (cases r) auto

lemma eol_ref_documented: "mode \<noteq> Cr \<Longrightarrow> eol_ref mode bs = eol_documented mode bs"
  by (induction mode bs rule: eol_ref.induct)
    (auto simp: eol_documented_def single_token_def line_tokens_Cons split: EolMode.splits)

lemma eol_ref_documented_Cr: "Pair \<notin> set (line_tokens bs) \<Longrightarrow> eol_ref Cr bs = eol_documented Cr bs"
  by (induction Cr bs rule: eol_ref.induct)
    (auto simp: eol_documented_def single_token_def line_tokens_Cons split: if_splits)

lemma documented_pair: "Pair \<in> set (line_tokens bs) \<Longrightarrow> LF \<in> set (eol_documented mode bs)"
  by (auto simp: eol_documented_def intro: bexI [of _ Pair])

text \<open>
  C33. Each mode normalises: the index loop computes the one-pass reference, its output is in
  the mode's normal form, and rewriting it again changes nothing. It is what the comments on the modes
  say, except that the mode \<open>Cr\<close> does not keep a pair CR LF: the result differs from the documented one
  exactly when the mode is \<open>Cr\<close> and the bytes hold a pair.
\<close>

theorem eol_transform_normalises:
  "transform mode bs = eol_ref mode bs \<and> eol_normal mode (transform mode bs) \<and>
   transform mode (transform mode bs) = transform mode bs \<and>
   (transform mode bs = eol_documented mode bs) = (\<not> (mode = Cr \<and> Pair \<in> set (line_tokens bs)))"
proof -
  have "eol_ref Cr bs \<noteq> eol_documented Cr bs" if "Pair \<in> set (line_tokens bs)"
    using documented_pair [OF that, of Cr] eol_ref_normal [of Cr bs] by auto
  then have "(eol_ref mode bs = eol_documented mode bs) = (\<not> (mode = Cr \<and> Pair \<in> set (line_tokens bs)))"
    using eol_ref_documented [of mode bs] eol_ref_documented_Cr [of bs] by blast
  then show ?thesis by (simp add: transform_ref eol_ref_normal eol_ref_fixed)
qed

text \<open>
  The comment on \<open>EolMode::Cr\<close> says that a CR LF pair is kept. It is not: the loop has no
  case for a carriage return in that mode, so the pair becomes two carriage returns.
\<close>

theorem eol_cr_mode_breaks_pairs:
  "transform Cr (pre @ [CR, LF] @ suf) = transform Cr pre @ [CR, CR] @ transform Cr suf"
proof -
  have cr: "eol_ref Cr bs = map (\<lambda>b. if b = LF then CR else b) bs" for bs
    by (induction Cr bs rule: eol_ref.induct) auto
  show ?thesis by (simp add: transform_ref cr)
qed

text \<open>
  The rewriting is applied to each read separately, and a pair that two reads split is
  not recognised: in \<open>Crlf\<close> mode the reader sees two line ends where the device sent one.
\<close>

theorem eol_split_pair_doubles:
  "transform Crlf [CR] @ transform Crlf [LF] = [CR, LF, CR, LF]
   \<and> transform Crlf [CR, LF] = [CR, LF]"
  by (simp add: transform_ref)

end
