(* ===== verification/Driver.thy ===== *)
theory Driver
  imports TermHub_Prelude
begin

text \<open>
  The driver trait of \<open>crates/termhub-core/src/driver.rs\<close>: its events and errors, the shape all
  six drivers share (set up, announce the connection, loop over what \<open>select!\<close> delivers until
  a branch returns), and the calling convention of the trait's comment as the locale
  \<open>upstream_driver\<close>. A driver is run against a script: the result of each call it makes to the
  outside (sockets, ports, channels), in the order the calls complete. Beside the script there is
  the view in time, \<open>live_run\<close>: where the driver is (setting up, at its \<open>select!\<close>, inside a branch
  that awaits a call), whether its token has been triggered, and calls that never return.
\<close>

named_theorems driver_simps \<open>unfolding of driver loops\<close>

datatype DriverEvent = Connected | Output bytes | Notice string

datatype DriverError = Fatal string | IoLost string

text \<open>
  What a driver does to the outside: an event on \<open>evt_tx\<close>, bytes written upstream, the child
  process killed.
\<close>

datatype effect = Emit DriverEvent | Write bytes | KillChild

type_synonym outcome = "DriverError + unit"

definition is_emit :: "effect \<Rightarrow> bool" where
  "is_emit e = (case e of Emit _ \<Rightarrow> True | _ \<Rightarrow> False)"

fun emitted :: "effect list \<Rightarrow> DriverEvent list" where
  "emitted [] = []"
| "emitted (Emit e # es) = e # emitted es"
| "emitted (_ # es) = emitted es"

fun written :: "effect list \<Rightarrow> bytes" where
  "written [] = []"
| "written (Write b # es) = b @ written es"
| "written (_ # es) = written es"

fun outputs :: "DriverEvent list \<Rightarrow> bytes" where
  "outputs [] = []"
| "outputs (Output b # es) = b @ outputs es"
| "outputs (_ # es) = outputs es"

lemma emitted_append [simp]: "emitted (a @ b) = emitted a @ emitted b"
  by (induction a rule: emitted.induct) auto

lemma written_append [simp]: "written (a @ b) = written a @ written b"
  by (induction a rule: written.induct) auto

lemma outputs_append [simp]: "outputs (a @ b) = outputs a @ outputs b"
  by (induction a rule: outputs.induct) auto

text \<open>
  Sending an event: the effect, then \<open>Fatal\<close> if the receiver is gone. \<open>se\<close> is the error the
  channel reports, \<open>None\<close> when the send succeeds.
\<close>

definition send_evt :: "string \<Rightarrow> DriverEvent \<Rightarrow> string option \<Rightarrow> effect list \<times> (outcome + unit)" where
  "send_evt msg ev se = (case se of
     None \<Rightarrow> ([Emit ev], Inr ())
   | Some e \<Rightarrow> ([], Inl (Inl (Fatal (msg @ e)))))"

text \<open>
  \<open>loop { tokio::select! { ... } }\<close>: each script entry is the branch that fires with the
  results of the calls it makes; \<open>body\<close> yields the effects and either the returned outcome or
  the next local state. A script that ends leaves the driver running (\<^const>\<open>None\<close>).
\<close>

fun drive :: "('st \<Rightarrow> 'step \<Rightarrow> effect list \<times> (outcome + 'st)) \<Rightarrow> 'st \<Rightarrow> 'step list
    \<Rightarrow> effect list \<times> outcome option" where
  "drive body st [] = ([], None)"
| "drive body st (x # xs) =
     (case body st x of
        (es, Inl r) \<Rightarrow> (es, Some r)
      | (es, Inr st') \<Rightarrow> (let (es', r) = drive body st' xs in (es @ es', r)))"

text \<open>The part every driver starts with: announce the connection, then loop.\<close>

definition announce :: "string \<Rightarrow> string option \<Rightarrow> effect list \<times> outcome option
    \<Rightarrow> effect list \<times> outcome option" where
  "announce msg se rest = (case send_evt msg Connected se of
     (es, Inl r) \<Rightarrow> (es, Some r)
   | (es, Inr _) \<Rightarrow> (es @ fst rest, snd rest))"

fun drive_state :: "('st \<Rightarrow> 'step \<Rightarrow> effect list \<times> (outcome + 'st)) \<Rightarrow> 'st \<Rightarrow> 'step list \<Rightarrow> 'st"
where
  "drive_state body st [] = st"
| "drive_state body st (x # xs) =
     (case snd (body st x) of Inl _ \<Rightarrow> st | Inr st' \<Rightarrow> drive_state body st' xs)"

lemma drive_append:
  assumes "snd (drive body st xs) = None"
  shows "drive body st (xs @ ys) =
     (fst (drive body st xs) @ fst (drive body (drive_state body st xs) ys),
      snd (drive body (drive_state body st xs) ys))"
  using assms
  by (induction xs arbitrary: st) (auto split: prod.splits sum.splits)

lemma drive_effects_invariant:
  assumes "\<And>st x es r. body st x = (es, r) \<Longrightarrow> P st \<Longrightarrow>
             list_all Q es \<and> (\<forall>st'. r = Inr st' \<longrightarrow> P st')"
    and "P st"
  shows "list_all Q (fst (drive body st xs))"
  using assms(2)
proof (induction xs arbitrary: st)
  case Nil
  then show ?case by simp
next
  case (Cons x xs)
  obtain es r where b: "body st x = (es, r)" by force
  with assms(1) [OF b Cons.prems] Cons.IH show ?case
    by (auto split: sum.splits prod.splits) (metis fst_conv)
qed

text \<open>
  The calling convention: at most one \<open>Connected\<close>, and it comes before any other event; once a
  run has connected and is waiting, a triggered cancellation makes it return \<open>Ok\<close>; a longer
  script only adds to what a shorter one did.
\<close>

definition only_output :: "effect \<Rightarrow> bool" where
  "only_output e = (case e of Emit (Output _) \<Rightarrow> True | Emit _ \<Rightarrow> False | _ \<Rightarrow> True)"

definition connected_first :: "effect list \<Rightarrow> bool" where
  "connected_first es = (es = [] \<or> (\<exists>rest. es = Emit Connected # rest \<and> list_all only_output rest))"

locale upstream_driver =
  fixes run :: "'setup \<Rightarrow> 'step list \<Rightarrow> effect list \<times> outcome option"
    and cancelled :: "'step"
  assumes connected_first: "connected_first (fst (run s xs))"
    and cancel_returns: "snd (run s xs) = None \<Longrightarrow> snd (run s (xs @ cancelled # ys)) = Some (Inr ())"
    and silent_waits: "fst (run s xs) = [] \<Longrightarrow> snd (run s xs) \<noteq> None"
    and returned_stays: "snd (run s xs) = Some r \<Longrightarrow> run s (xs @ ys) = run s xs"
begin

lemma connected_at_most_once:
  "length (filter (\<lambda>e. e = Emit Connected) (fst (run s xs))) \<le> 1"
proof -
  have n: "list_all only_output rest \<Longrightarrow> filter (\<lambda>e. e = Emit Connected) rest = []" for rest
    by (induction rest) (auto simp: only_output_def)
  from connected_first [of s xs] show ?thesis
    by (auto simp: connected_first_def n)
qed

lemma no_output_without_connected:
  assumes "Emit (Output b) \<in> set (fst (run s xs))"
  shows "hd (fst (run s xs)) = Emit Connected"
  using connected_first [of s xs] assms by (auto simp: connected_first_def)

lemma running_has_connected:
  assumes "snd (run s xs) = None"
  shows "\<exists>rest. fst (run s xs) = Emit Connected # rest"
  using connected_first [of s xs] silent_waits [of s xs] assms by (auto simp: connected_first_def)

end

text \<open>Drivers built from \<^const>\<open>announce\<close> and \<^const>\<open>drive\<close> meet the convention.\<close>

lemma drive_cancel:
  assumes "\<And>st. snd (body st c) = Inl (Inr ())" and "snd (drive body st xs) = None"
  shows "snd (drive body st (xs @ c # ys)) = Some (Inr ())"
  using assms(2)
proof (induction xs arbitrary: st)
  case Nil
  then show ?case using assms(1) [of st] by (cases "body st c") auto
next
  case (Cons x xs)
  then show ?case by (auto split: prod.splits sum.splits) (metis snd_conv)
qed

lemma drive_returned:
  assumes "snd (drive body st xs) = Some r"
  shows "drive body st (xs @ ys) = drive body st xs"
  using assms
proof (induction xs arbitrary: st)
  case Nil
  then show ?case by simp
next
  case (Cons x xs)
  obtain es t where b: "body st x = (es, t)" by force
  show ?case
  proof (cases t)
    case (Inr st')
    with Cons b have "snd (drive body st' xs) = Some r" by (auto split: prod.splits)
    then have "drive body st' (xs @ ys) = drive body st' xs" by (rule Cons.IH)
    with b Inr show ?thesis by simp
  qed (simp add: b)
qed

lemma drive_only_output:
  assumes "\<And>st x. list_all only_output (fst (body st x))"
  shows "list_all only_output (fst (drive body st xs))"
  by (rule drive_effects_invariant [where P = "\<lambda>_. True"]) (use assms in \<open>auto, metis fst_conv\<close>)

definition start_driver :: "DriverError option \<Rightarrow> string \<Rightarrow> string option
    \<Rightarrow> ('st \<Rightarrow> 'step \<Rightarrow> effect list \<times> (outcome + 'st)) \<Rightarrow> 'st \<Rightarrow> 'step list
    \<Rightarrow> effect list \<times> outcome option" where
  "start_driver setup_err msg se body st xs = (case setup_err of
     Some e \<Rightarrow> ([], Some (Inl e))
   | None \<Rightarrow> announce msg se (drive body st xs))"

lemma start_driver_ok [driver_simps]:
  "start_driver None msg None body st xs =
     (Emit Connected # fst (drive body st xs), snd (drive body st xs))"
  by (simp add: start_driver_def announce_def send_evt_def)

lemma start_driver_closed [driver_simps]:
  "start_driver None msg (Some e) body st xs = ([], Some (Inl (Fatal (msg @ e))))"
  by (simp add: start_driver_def announce_def send_evt_def)

lemma start_driver_failed [driver_simps]:
  "start_driver (Some e) msg se body st xs = ([], Some (Inl e))"
  by (simp add: start_driver_def)

lemma upstream_driver_start:
  assumes out: "\<And>s st x. list_all only_output (fst (body s st x))"
    and cancel: "\<And>s st. snd (body s st c) = Inl (Inr ())"
  shows "upstream_driver (\<lambda>s xs. start_driver (err s) msg (se s) (body s) (st0 s) xs) c"
proof
  fix s xs ys r
  have cases: "(\<exists>r. start_driver (err s) msg (se s) (body s) (st0 s) = (\<lambda>zs. ([], Some r))) \<or>
    start_driver (err s) msg (se s) (body s) (st0 s) =
      (\<lambda>zs. (Emit Connected # fst (drive (body s) (st0 s) zs), snd (drive (body s) (st0 s) zs)))"
    by (cases "err s"; cases "se s") (auto simp: fun_eq_iff driver_simps)
  show "connected_first (fst (start_driver (err s) msg (se s) (body s) (st0 s) xs))"
    using cases drive_only_output [where body = "body s" and st = "st0 s" and xs = xs, OF out] by (auto simp: connected_first_def)
  show "snd (start_driver (err s) msg (se s) (body s) (st0 s) xs) = None \<Longrightarrow>
    snd (start_driver (err s) msg (se s) (body s) (st0 s) (xs @ c # ys)) = Some (Inr ())"
    using cases drive_cancel [where body = "body s" and st = "st0 s" and c = c and xs = xs and ys = ys, OF cancel] by auto
  show "fst (start_driver (err s) msg (se s) (body s) (st0 s) xs) = [] \<Longrightarrow>
    snd (start_driver (err s) msg (se s) (body s) (st0 s) xs) \<noteq> None"
    using cases by auto
  show "snd (start_driver (err s) msg (se s) (body s) (st0 s) xs) = Some r \<Longrightarrow>
    start_driver (err s) msg (se s) (body s) (st0 s) (xs @ ys) =
    start_driver (err s) msg (se s) (body s) (st0 s) xs"
    using cases drive_returned [of "body s" "st0 s" xs r ys] by auto
qed

text \<open>Where a \<open>Fatal\<close> outcome comes from.\<close>

lemma drive_fatal:
  assumes "snd (drive body st xs) = Some (Inl (Fatal m))"
  obtains st' x where "snd (body st' x) = Inl (Inl (Fatal m))"
  using assms
proof (induction xs arbitrary: st)
  case (Cons x xs)
  obtain es r where b: "body st x = (es, r)" by force
  show ?case
  proof (cases r)
    case (Inl q)
    then show ?thesis using Cons.prems b by (intro Cons.prems(1) [of st x]) simp
  next
    case (Inr st')
    with Cons.prems b have "snd (drive body st' xs) = Some (Inl (Fatal m))"
      by (auto split: prod.splits)
    with Cons show ?thesis by blast
  qed
qed simp

lemma start_driver_fatal:
  assumes "snd (start_driver err msg se body st xs) = Some (Inl (Fatal m))"
    and "\<And>st' x. snd (body st' x) = Inl (Inl (Fatal m)) \<Longrightarrow> P"
    and "err = Some (Fatal m) \<Longrightarrow> P"
    and "\<And>e. m = msg @ e \<Longrightarrow> P"
  shows P
  using assms
  by (cases err; cases se) (auto simp: driver_simps elim: drive_fatal)

lemma send_evt_fatal: "snd (send_evt msg ev se) = Inl (Inl (Fatal m)) \<longleftrightarrow> (\<exists>e. se = Some e \<and> m = msg @ e)"
  by (auto simp: send_evt_def split: option.splits)

subsection \<open>A run in time\<close>

text \<open>
  What a driver is made of: the error its setup ends with, the announcement of the connection, the
  body of its loop with the first local state, which branches await a call once they have fired,
  and which one is \<open>cancel.cancelled()\<close>.
\<close>

record ('st, 'step) loop_parts =
  lp_setup_err :: "DriverError option"
  lp_msg :: string
  lp_announce :: "string option"
  lp_body :: "'st \<Rightarrow> 'step \<Rightarrow> effect list \<times> (outcome + 'st)"
  lp_init :: 'st
  lp_awaits :: "'st \<Rightarrow> 'step \<Rightarrow> bool"
  lp_cancelled :: "'step \<Rightarrow> bool"

definition run_parts :: "('st, 'step) loop_parts \<Rightarrow> 'step list \<Rightarrow> effect list \<times> outcome option" where
  "run_parts p xs = start_driver (lp_setup_err p) (lp_msg p) (lp_announce p) (lp_body p) (lp_init p) xs"

text \<open>
  Where a driver is. \<open>SettingUp\<close>: it awaits a call before its loop (a connect, a handshake, the
  announcement). \<open>AtSelect\<close>: it waits at \<open>select!\<close>. \<open>InBranch\<close>: a branch has fired and awaits a
  call (\<open>write_all\<close>, a send on \<open>evt_tx\<close>), so nobody looks at the token. The events of a run: the
  token is triggered, the setup returns, a branch fires, the calls of the branch have returned.
  Calls that never return are runs without that last event. A branch's effects count when its
  calls have returned.
\<close>

datatype ('st, 'step) place = SettingUp | AtSelect 'st | InBranch 'st 'step | Ended outcome

datatype 'step drv_event = Triggered | SetupReturns | Fires 'step | CallsReturn

record ('st, 'step) live =
  lv_place :: "('st, 'step) place"
  lv_cancelled :: bool
  lv_did :: "effect list"

definition live_init :: "('st, 'step) live" where
  "live_init = \<lparr>lv_place = SettingUp, lv_cancelled = False, lv_did = []\<rparr>"

definition settle :: "effect list \<times> (outcome + 'st) \<Rightarrow> ('st, 'step) live \<Rightarrow> ('st, 'step) live" where
  "settle r lv = lv\<lparr>lv_did := lv_did lv @ fst r,
     lv_place := (case snd r of Inl outcome \<Rightarrow> Ended outcome | Inr st \<Rightarrow> AtSelect st)\<rparr>"

definition setup_result :: "('st, 'step) loop_parts \<Rightarrow> effect list \<times> (outcome + 'st)" where
  "setup_result p = (case lp_setup_err p of
     Some e \<Rightarrow> ([], Inl (Inl e))
   | None \<Rightarrow> (case send_evt (lp_msg p) Connected (lp_announce p) of
       (es, Inl r) \<Rightarrow> (es, Inl r)
     | (es, Inr _) \<Rightarrow> (es, Inr (lp_init p))))"

text \<open>The \<open>cancelled()\<close> branch fires only once the token has been triggered.\<close>

fun live_step :: "('st, 'step) loop_parts \<Rightarrow> 'step drv_event \<Rightarrow> ('st, 'step) live \<Rightarrow> ('st, 'step) live"
where
  "live_step p Triggered lv = lv\<lparr>lv_cancelled := True\<rparr>"
| "live_step p SetupReturns lv =
     (case lv_place lv of SettingUp \<Rightarrow> settle (setup_result p) lv | _ \<Rightarrow> lv)"
| "live_step p (Fires x) lv =
     (case lv_place lv of
        AtSelect st \<Rightarrow>
          if lp_cancelled p x \<and> \<not> lv_cancelled lv then lv
          else if lp_awaits p st x then lv\<lparr>lv_place := InBranch st x\<rparr>
          else settle (lp_body p st x) lv
      | _ \<Rightarrow> lv)"
| "live_step p CallsReturn lv =
     (case lv_place lv of InBranch st x \<Rightarrow> settle (lp_body p st x) lv | _ \<Rightarrow> lv)"

definition live_run :: "('st, 'step) loop_parts \<Rightarrow> 'step drv_event list \<Rightarrow> ('st, 'step) live" where
  "live_run p evs = fold (live_step p) evs live_init"

lemma live_run_append: "live_run p (xs @ ys) = fold (live_step p) ys (live_run p xs)"
  by (simp add: live_run_def)

text \<open>
  The view in time agrees with the scripts: what has been done so far, and the outcome, are those
  of the script of the branches that have completed.
\<close>

fun place_state :: "('st, 'step) place \<Rightarrow> 'st option" where
  "place_state (AtSelect st) = Some st"
| "place_state (InBranch st x) = Some st"
| "place_state _ = None"

fun place_outcome :: "('st, 'step) place \<Rightarrow> outcome option" where
  "place_outcome (Ended r) = Some r"
| "place_outcome _ = None"

definition as_script :: "('st, 'step) loop_parts \<Rightarrow> ('st, 'step) live \<Rightarrow> bool" where
  "as_script p lv \<longleftrightarrow>
     (if lv_place lv = SettingUp then lv_did lv = []
      else \<exists>xs. run_parts p xs = (lv_did lv, place_outcome (lv_place lv)) \<and>
        (\<forall>st. place_state (lv_place lv) = Some st \<longrightarrow>
           setup_result p = (fst (setup_result p), Inr (lp_init p)) \<and>
           st = drive_state (lp_body p) (lp_init p) xs))"

lemma run_parts_setup:
  "setup_result p = (es, Inl r) \<Longrightarrow> run_parts p xs = (es, Some r)"
  "setup_result p = (es, Inr st) \<Longrightarrow>
     st = lp_init p \<and> run_parts p xs = (es @ fst (drive (lp_body p) st xs), snd (drive (lp_body p) st xs))"
  by (auto simp: setup_result_def run_parts_def start_driver_def announce_def
      split: option.splits prod.splits sum.splits)

lemma as_script_setup:
  assumes "as_script p lv" and "lv_place lv = SettingUp"
  shows "as_script p (settle (setup_result p) lv)"
proof -
  obtain es r where s: "setup_result p = (es, r)" by force
  have d: "lv_did lv = []" using assms by (simp add: as_script_def)
  show ?thesis
  proof (cases r)
    case (Inl o')
    then show ?thesis using run_parts_setup(1) [of p es o'] s d by (simp add: as_script_def settle_def)
  next
    case (Inr st)
    with run_parts_setup(2) [of p es st "[]"] s d show ?thesis
      by (auto simp: as_script_def settle_def intro!: exI [of _ "[]"])
  qed
qed

lemma drive_state_append:
  "snd (drive body st xs) = None \<Longrightarrow>
   drive_state body st (xs @ ys) = drive_state body (drive_state body st xs) ys"
  by (induction xs arbitrary: st) (auto split: prod.splits sum.splits)

lemma as_script_branch:
  assumes "as_script p lv" and "place_state (lv_place lv) = Some st"
    and "place_outcome (lv_place lv) = None" and "lv_place lv \<noteq> SettingUp"
  shows "as_script p (settle (lp_body p st x) lv)"
proof -
  obtain xs where xs: "run_parts p xs = (lv_did lv, None)"
    and s: "setup_result p = (fst (setup_result p), Inr (lp_init p))"
    and st: "st = drive_state (lp_body p) (lp_init p) xs"
    using assms by (auto simp: as_script_def)
  obtain es r where b: "lp_body p st x = (es, r)" by force
  note run = run_parts_setup(2) [OF s]
  from run [of xs] xs have n: "snd (drive (lp_body p) (lp_init p) xs) = None"
    and d: "lv_did lv = fst (setup_result p) @ fst (drive (lp_body p) (lp_init p) xs)" by auto
  have "run_parts p (xs @ [x]) = (lv_did lv @ es, case r of Inl o' \<Rightarrow> Some o' | Inr _ \<Rightarrow> None)"
    using run [of "xs @ [x]"] drive_append [OF n, of "[x]"] d b
    by (auto simp: st split: sum.splits)
  moreover have "r = Inr st' \<Longrightarrow> st' = drive_state (lp_body p) (lp_init p) (xs @ [x])" for st'
    using drive_state_append [OF n, of "[x]"] b by (simp add: st)
  ultimately show ?thesis
    using s b by (auto simp: as_script_def settle_def intro!: exI [of _ "xs @ [x]"] split: sum.splits)
qed

lemma as_script_place:
  "as_script p lv \<Longrightarrow> lv_place lv = AtSelect st \<Longrightarrow> as_script p (lv\<lparr>lv_place := InBranch st x\<rparr>)"
  by (simp add: as_script_def)

lemma as_script_step: "as_script p lv \<Longrightarrow> as_script p (live_step p ev lv)"
proof (cases ev)
  case (Fires x)
  assume a: "as_script p lv"
  show ?thesis
  proof (cases "lv_place lv")
    case (AtSelect st)
    have "as_script p (settle (lp_body p st x) lv)" by (rule as_script_branch [OF a]) (simp_all add: AtSelect)
    with as_script_place [OF a AtSelect] show ?thesis using a by (simp add: Fires AtSelect)
  qed (use a Fires in simp_all)
next
  case CallsReturn
  assume a: "as_script p lv"
  show ?thesis
  proof (cases "lv_place lv")
    case (InBranch st x)
    have "as_script p (settle (lp_body p st x) lv)" by (rule as_script_branch [OF a]) (simp_all add: InBranch)
    then show ?thesis by (simp add: CallsReturn InBranch)
  qed (use a CallsReturn in simp_all)
next
  case SetupReturns
  then show "as_script p lv \<Longrightarrow> ?thesis" using as_script_setup [of p lv]
    by (cases "lv_place lv") simp_all
qed (simp add: as_script_def)

lemma live_as_script: "as_script p (live_run p evs)"
proof -
  have "as_script p lv \<Longrightarrow> as_script p (fold (live_step p) evs lv)" for lv
    by (induction evs arbitrary: lv) (auto intro: as_script_step)
  then show ?thesis by (simp add: live_run_def as_script_def live_init_def)
qed

subsection \<open>The calling convention in time\<close>

fun at_select :: "('st, 'step) place \<Rightarrow> bool" where
  "at_select (AtSelect st) = True"
| "at_select _ = False"

fun in_call :: "('st, 'step) place \<Rightarrow> bool" where
  "in_call SettingUp = True"
| "in_call (InBranch st x) = True"
| "in_call _ = False"

text \<open>
  The convention of the trait: \<open>Connected\<close> first and once; wherever the driver waits at \<open>select!\<close>
  it has connected, and a triggered token makes it return \<open>Ok(())\<close>; \<open>Ok(())\<close> is never returned
  without a triggered token or an input that has closed; a returned driver does nothing more. And
  the limit of it: inside a call that does not return, nothing happens whatever else does, a
  triggered token included.
\<close>

definition keeps_convention :: "('step drv_event list \<Rightarrow> ('st, 'step) live) \<Rightarrow> 'step \<Rightarrow> ('step \<Rightarrow> bool) \<Rightarrow> bool"
where
  "keeps_convention live cancelled closed \<longleftrightarrow> (\<forall>evs evs'.
     let before = live evs; after = live (evs @ evs') in
     connected_first (lv_did before) \<and>
     (at_select (lv_place before) \<longrightarrow>
        Emit Connected \<in> set (lv_did before) \<and>
        lv_place (live (evs @ [Triggered, Fires cancelled])) = Ended (Inr ())) \<and>
     (lv_place before = Ended (Inr ()) \<longrightarrow>
        Triggered \<in> set evs \<or> (\<exists>x. Fires x \<in> set evs \<and> closed x)) \<and>
     (place_outcome (lv_place before) \<noteq> None \<longrightarrow>
        lv_place after = lv_place before \<and> lv_did after = lv_did before) \<and>
     (in_call (lv_place before) \<and> SetupReturns \<notin> set evs' \<and> CallsReturn \<notin> set evs' \<longrightarrow>
        lv_place after = lv_place before \<and> lv_did after = lv_did before))"

lemma run_parts_connected:
  assumes "\<And>st x. list_all only_output (fst (lp_body p st x))"
  shows "connected_first (fst (run_parts p xs))"
    and "snd (run_parts p xs) = None \<Longrightarrow> Emit Connected \<in> set (fst (run_parts p xs))"
  using drive_only_output [of "lp_body p", OF assms]
  by (cases "lp_setup_err p"; cases "lp_announce p";
      auto simp: run_parts_def driver_simps connected_first_def)+

lemma live_did_connected:
  assumes "\<And>st x. list_all only_output (fst (lp_body p st x))"
  shows "connected_first (lv_did (live_run p evs))"
    and "at_select (lv_place (live_run p evs)) \<Longrightarrow> Emit Connected \<in> set (lv_did (live_run p evs))"
proof -
  note script = live_as_script [of p evs, unfolded as_script_def]
  show "connected_first (lv_did (live_run p evs))"
  proof (cases "lv_place (live_run p evs) = SettingUp")
    case True
    with script show ?thesis by (simp add: connected_first_def)
  next
    case False
    with script obtain xs where "run_parts p xs = (lv_did (live_run p evs), place_outcome (lv_place (live_run p evs)))"
      by auto
    with run_parts_connected(1) [of p xs, OF assms] show ?thesis by simp
  qed
  show "Emit Connected \<in> set (lv_did (live_run p evs))" if "at_select (lv_place (live_run p evs))"
  proof -
    from that have n: "lv_place (live_run p evs) \<noteq> SettingUp" "place_outcome (lv_place (live_run p evs)) = None"
      by (cases "lv_place (live_run p evs)"; simp)+
    with script obtain xs where "run_parts p xs = (lv_did (live_run p evs), None)" by auto
    with run_parts_connected(2) [of p xs, OF assms] show ?thesis by simp
  qed
qed

lemma live_stays:
  assumes "in_call (lv_place lv) \<and> SetupReturns \<notin> set evs \<and> CallsReturn \<notin> set evs \<or>
    place_outcome (lv_place lv) \<noteq> None"
  shows "lv_place (fold (live_step p) evs lv) = lv_place lv \<and> lv_did (fold (live_step p) evs lv) = lv_did lv"
  using assms
proof (induction evs arbitrary: lv)
  case (Cons ev evs)
  have "lv_place (live_step p ev lv) = lv_place lv \<and> lv_did (live_step p ev lv) = lv_did lv"
    using Cons.prems by (cases ev; cases "lv_place lv") auto
  with Cons.IH [of "live_step p ev lv"] Cons.prems show ?case by auto
qed simp

text \<open>The branch a driver is in has fired, the \<open>cancelled()\<close> branch only with a triggered token.\<close>

definition fired_inv :: "('st, 'step) loop_parts \<Rightarrow> 'step drv_event list \<Rightarrow> ('st, 'step) live \<Rightarrow> bool" where
  "fired_inv p evs lv \<longleftrightarrow>
     (lv_cancelled lv \<longrightarrow> Triggered \<in> set evs) \<and>
     (\<forall>st x. lv_place lv = InBranch st x \<longrightarrow> Fires x \<in> set evs \<and> (lp_cancelled p x \<longrightarrow> Triggered \<in> set evs)) \<and>
     (lv_place lv = Ended (Inr ()) \<longrightarrow>
        (\<exists>st x. Fires x \<in> set evs \<and> snd (lp_body p st x) = Inl (Inr ()) \<and>
           (lp_cancelled p x \<longrightarrow> Triggered \<in> set evs)))"

lemma settle_ended: "lv_place (settle r lv) = Ended q \<longleftrightarrow> snd r = Inl q"
  "lv_place (settle r lv) \<noteq> InBranch st x" "lv_cancelled (settle r lv) = lv_cancelled lv"
  by (auto simp: settle_def split: sum.splits)

lemma setup_not_ok: "snd (setup_result p) \<noteq> Inl (Inr ())"
  by (auto simp: setup_result_def send_evt_def split: option.splits)

lemma fired_inv_step: "fired_inv p evs lv \<Longrightarrow> fired_inv p (evs @ [ev]) (live_step p ev lv)"
  by (cases ev; cases "lv_place lv")
    (auto simp: fired_inv_def settle_ended setup_not_ok)

lemma live_fired: "fired_inv p evs (live_run p evs)"
proof (induction evs rule: rev_induct)
  case Nil
  then show ?case by (simp add: fired_inv_def live_run_def live_init_def)
next
  case (snoc ev evs)
  then show ?case using fired_inv_step by (simp add: live_run_append)
qed

lemma parts_convention:
  assumes out: "\<And>st x. list_all only_output (fst (lp_body p st x))"
    and c: "\<And>st. snd (lp_body p st c) = Inl (Inr ())" "\<And>st. \<not> lp_awaits p st c" "lp_cancelled p c"
    and ok: "\<And>st x. snd (lp_body p st x) = Inl (Inr ()) \<Longrightarrow> lp_cancelled p x \<or> closed x"
  shows "keeps_convention (live_run p) c closed"
proof -
  have at: "lv_place (live_run p (evs @ [Triggered, Fires c])) = Ended (Inr ())"
    if "at_select (lv_place (live_run p evs))" for evs
    using that c by (cases "lv_place (live_run p evs)") (simp_all add: live_run_append settle_ended)
  have okd: "Triggered \<in> set evs \<or> (\<exists>x. Fires x \<in> set evs \<and> closed x)"
    if "lv_place (live_run p evs) = Ended (Inr ())" for evs
    using live_fired [of p evs] that ok by (auto simp: fired_inv_def)
  show ?thesis
    unfolding keeps_convention_def Let_def
    using live_did_connected [of p, OF out] at okd live_stays [where p = p]
    by (simp add: live_run_append)
qed

end
