(* ===== verification/Telnet.thy ===== *)
theory Telnet
  imports Driver
begin

text \<open>
  The Telnet driver, \<open>crates/termhub-drivers/src/telnet.rs\<close>: the parser of one IAC command
  block, the loop that separates data from negotiation across reads, the escaping of input,
  and the driver's run. The decoder is compared with a token grammar of the stream and shown
  not to depend on how the stream is cut into reads.
\<close>

definition IAC :: byte where "IAC = 0xFF"
definition DONT :: byte where "DONT = 0xFE"
definition DO :: byte where "DO = 0xFD"
definition WONT :: byte where "WONT = 0xFC"
definition WILL :: byte where "WILL = 0xFB"
definition SB :: byte where "SB = 0xFA"
definition SE :: byte where "SE = 0xF0"

lemmas telnet_bytes = IAC_def DONT_def DO_def WONT_def WILL_def SB_def SE_def

lemma telnet_distinct [simp]:
  "IAC \<noteq> DONT" "IAC \<noteq> DO" "IAC \<noteq> WONT" "IAC \<noteq> WILL" "IAC \<noteq> SB" "IAC \<noteq> SE"
  "DONT \<noteq> IAC" "DO \<noteq> IAC" "WONT \<noteq> IAC" "WILL \<noteq> IAC" "SB \<noteq> IAC" "SE \<noteq> IAC"
  "SB \<noteq> DO" "SB \<noteq> DONT" "SB \<noteq> WILL" "SB \<noteq> WONT"
  "DONT \<noteq> DO" "WILL \<noteq> DO" "WONT \<noteq> DO" "WILL \<noteq> DONT" "WONT \<noteq> DONT" "WONT \<noteq> WILL"
  by (simp_all add: telnet_bytes)

subsection \<open>One command block\<close>

definition simple3 :: "bytes \<Rightarrow> byte \<Rightarrow> nat \<times> bytes" where
  "simple3 inp reply_verb =
     (if length inp < 3 then (0, []) else (3, [IAC, reply_verb, inp ! 2]))"

text \<open>The \<open>while\<close> loop of the \<open>SB\<close> case: the end of the first IAC SE at or after \<open>i\<close>.\<close>

function sb_scan :: "bytes \<Rightarrow> nat \<Rightarrow> nat \<times> bytes" where
  "sb_scan inp i =
     (if i + 1 < length inp then
        if inp ! i = IAC \<and> inp ! (i + 1) = SE then (i + 2, []) else sb_scan inp (i + 1)
      else (0, []))"
  by pat_completeness auto
termination
  by (relation "measure (\<lambda>(inp, i). length inp - i)") auto

declare sb_scan.simps [simp del]

definition process_iac_block :: "bytes \<Rightarrow> nat \<times> bytes" where
  "process_iac_block inp =
     (if length inp < 2 \<or> inp ! 0 \<noteq> IAC then (0, [])
      else if inp ! 1 = IAC then (2, [])
      else if inp ! 1 = DO then simple3 inp WONT
      else if inp ! 1 = DONT then simple3 inp WONT
      else if inp ! 1 = WILL then simple3 inp DONT
      else if inp ! 1 = WONT then simple3 inp DONT
      else if inp ! 1 = SB then sb_scan inp 2
      else (2, []))"

lemma sb_scan_end: "length inp \<le> i + 1 \<Longrightarrow> sb_scan inp i = (0, [])"
  by (subst sb_scan.simps) auto

lemma sb_scan_hit:
  "i + 1 < length inp \<Longrightarrow> inp ! i = IAC \<Longrightarrow> inp ! (i + 1) = SE \<Longrightarrow> sb_scan inp i = (i + 2, [])"
  by (subst sb_scan.simps) auto

lemma sb_scan_miss:
  "i + 1 < length inp \<Longrightarrow> \<not> (inp ! i = IAC \<and> inp ! (i + 1) = SE)
   \<Longrightarrow> sb_scan inp i = sb_scan inp (i + 1)"
  by (subst sb_scan.simps) (simp only: if_True if_False)

lemma sb_scan_cases:
  "sb_scan inp i = (0, []) \<or>
   (\<exists>c. sb_scan inp i = (c, []) \<and> i + 2 \<le> c \<and> c \<le> length inp \<and>
        inp ! (c - 2) = IAC \<and> inp ! (c - 1) = SE)"
proof (induction inp i rule: sb_scan.induct)
  case (1 inp i)
  consider "length inp \<le> i + 1"
    | "i + 1 < length inp" "inp ! i = IAC" "inp ! (i + 1) = SE"
    | "i + 1 < length inp" "\<not> (inp ! i = IAC \<and> inp ! (i + 1) = SE)" by linarith
  then show ?case
  proof cases
    case 3
    from "1.IH" [OF this] show ?thesis
      unfolding sb_scan_miss [OF 3] by (elim disjE exE conjE) auto
  qed (simp_all add: sb_scan_end sb_scan_hit)
qed

lemma sb_scan_append:
  assumes "sb_scan p i = (c, r)" and "c \<noteq> 0"
  shows "sb_scan (p @ q) i = (c, r)"
  using assms
proof (induction p i rule: sb_scan.induct)
  case (1 p i)
  consider "length p \<le> i + 1"
    | "i + 1 < length p" "p ! i = IAC" "p ! (i + 1) = SE"
    | "i + 1 < length p" "\<not> (p ! i = IAC \<and> p ! (i + 1) = SE)" by linarith
  then show ?case
  proof cases
    case 1
    with "1.prems" show ?thesis by (simp add: sb_scan_end)
  next
    case 2
    with "1.prems" show ?thesis by (simp add: sb_scan_hit nth_append)
  next
    case 3
    then have "sb_scan (p @ q) (i + 1) = (c, r)"
      using "1.IH" [OF 3 _ "1.prems"(2)] "1.prems"(1) unfolding sb_scan_miss [OF 3] by simp
    moreover have "i + 1 < length (p @ q)" "\<not> ((p @ q) ! i = IAC \<and> (p @ q) ! (i + 1) = SE)"
      using 3 by (simp_all add: nth_append)
    ultimately show ?thesis by (metis sb_scan_miss)
  qed
qed

text \<open>The block parser by cases of the second byte.\<close>

lemma block_short: "length inp < 2 \<Longrightarrow> process_iac_block inp = (0, [])"
  by (simp add: process_iac_block_def)

definition reply_verb :: "byte \<Rightarrow> byte" where
  "reply_verb v = (if v = DO \<or> v = DONT then WONT else DONT)"

definition is_negotiation :: "byte \<Rightarrow> bool" where
  "is_negotiation v = (v = DO \<or> v = DONT \<or> v = WILL \<or> v = WONT)"

lemma block_eq:
  assumes "inp = IAC # v # r"
  shows "process_iac_block inp =
     (if v = IAC then (2, [])
      else if is_negotiation v then
        (case r of [] \<Rightarrow> (0, []) | opt # _ \<Rightarrow> (3, [IAC, reply_verb v, opt]))
      else if v = SB then sb_scan inp 2
      else (2, []))"
  using assms
  by (cases r) (auto simp: process_iac_block_def is_negotiation_def reply_verb_def simple3_def)

lemma block_shape:
  assumes "process_iac_block inp \<noteq> (0, [])"
  obtains v r where "inp = IAC # v # r"
proof (cases "length inp < 2 \<or> inp ! 0 \<noteq> IAC")
  case True
  then have "process_iac_block inp = (0, [])" by (simp add: process_iac_block_def)
  with assms show ?thesis by simp
next
  case False
  with that show ?thesis by (cases inp; cases "tl inp") auto
qed

lemma block_bounds:
  assumes "process_iac_block inp = (c, reply)"
  shows "c \<le> length inp \<and> (c = 0 \<or> 2 \<le> c)"
proof (cases "process_iac_block inp = (0, [])")
  case False
  then obtain v r where inp: "inp = IAC # v # r" by (rule block_shape)
  show ?thesis
    using assms sb_scan_cases [of inp 2] unfolding block_eq [OF inp]
    by (auto simp: inp split: if_splits list.splits)
qed (use assms in simp)

lemma block_append:
  assumes "process_iac_block p = (c, reply)" and "c \<noteq> 0"
  shows "process_iac_block (p @ q) = (c, reply)"
proof -
  have "process_iac_block p \<noteq> (0, [])" using assms by simp
  then obtain v r where p: "p = IAC # v # r" by (rule block_shape)
  then have pq: "p @ q = IAC # v # (r @ q)" by simp
  show ?thesis
  proof (cases "v = SB")
    case True
    with assms have "sb_scan p 2 = (c, reply)"
      unfolding block_eq [OF p] by (simp add: is_negotiation_def)
    then have "sb_scan (p @ q) 2 = (c, reply)" using assms(2) by (rule sb_scan_append)
    with True show ?thesis unfolding block_eq [OF pq] by (simp add: is_negotiation_def)
  next
    case False
    with assms show ?thesis
      unfolding block_eq [OF pq] block_eq [OF p]
      by (auto split: if_splits list.splits)
  qed
qed

lemma block_reply:
  assumes "process_iac_block inp = (c, reply)" and "reply \<noteq> []"
  shows "\<exists>v opt r. inp = IAC # v # opt # r \<and> is_negotiation v \<and> c = 3 \<and>
           reply = [IAC, reply_verb v, opt]"
proof -
  have "process_iac_block inp \<noteq> (0, [])" using assms by simp
  then obtain v r where inp: "inp = IAC # v # r" by (rule block_shape)
  show ?thesis
    using assms sb_scan_cases [of inp 2] unfolding block_eq [OF inp]
    by (auto simp: inp split: if_splits list.splits)
qed

subsection \<open>The decoding loop of one read\<close>

text \<open>
  \<open>werr k\<close> is the error of the \<open>k\<close>-th reply written during this read, if it fails. The loop
  ends at the end of \<open>tail\<close>, at an incomplete block, or at a failed write.
\<close>

function telnet_loop :: "(nat \<Rightarrow> string option) \<Rightarrow> bytes \<Rightarrow> nat \<Rightarrow> bytes \<Rightarrow> bytes list
    \<Rightarrow> bytes list \<times> (string + nat \<times> bytes)" where
  "telnet_loop werr tail i data_out replies =
     (if i < length tail then
        if tail ! i = IAC then
          let (consumed, reply) = process_iac_block (drop i tail) in
          if consumed = 0 then (replies, Inr (i, data_out))
          else
            (case (if reply = [] then None else werr (length replies)) of
               Some e \<Rightarrow> (replies, Inl e)
             | None \<Rightarrow>
                 telnet_loop werr tail (i + consumed)
                   (if consumed = 2 \<and> tail ! (i + 1) = IAC then data_out @ [0xFF] else data_out)
                   (if reply = [] then replies else replies @ [reply]))
        else telnet_loop werr tail (i + 1) (data_out @ [tail ! i]) replies
      else (replies, Inr (i, data_out)))"
  by pat_completeness auto
termination
  by (relation "measure (\<lambda>(werr, tail, i, data_out, replies). length tail - i)") auto

declare telnet_loop.simps [simp del]

text \<open>The reference: data, replies and the bytes left for the next read.\<close>

function telnet_ref :: "bytes \<Rightarrow> bytes \<times> bytes list \<times> bytes" where
  "telnet_ref s =
     (case s of
        [] \<Rightarrow> ([], [], [])
      | b # r \<Rightarrow>
          if b = IAC then
            let (c, reply) = process_iac_block s in
            if c = 0 then ([], [], s)
            else (let (d, rs, t) = telnet_ref (drop c s)
                  in ((if c = 2 \<and> s ! 1 = IAC then IAC # d else d),
                      (if reply = [] then rs else reply # rs), t))
          else (let (d, rs, t) = telnet_ref r in (b # d, rs, t)))"
  by pat_completeness auto
termination
  by (relation "measure length") auto

declare telnet_ref.simps [simp del]

lemma telnet_ref_Nil [simp]: "telnet_ref [] = ([], [], [])"
  by (subst telnet_ref.simps) simp

lemma telnet_ref_data:
  "b \<noteq> IAC \<Longrightarrow> telnet_ref (b # r) = (let (d, rs, t) = telnet_ref r in (b # d, rs, t))"
  by (subst telnet_ref.simps) simp

lemma telnet_ref_wait:
  "process_iac_block (IAC # r) = (0, reply) \<Longrightarrow> telnet_ref (IAC # r) = ([], [], IAC # r)"
  by (subst telnet_ref.simps) simp

lemma telnet_ref_block:
  assumes "process_iac_block (IAC # r) = (c, reply)" and "c \<noteq> 0"
  shows "telnet_ref (IAC # r) =
    (let (d, rs, t) = telnet_ref (drop c (IAC # r))
     in ((if c = 2 \<and> (IAC # r) ! 1 = IAC then IAC # d else d),
         (if reply = [] then rs else reply # rs), t))"
  by (subst telnet_ref.simps) (simp add: assms)

lemma telnet_ref_induct [case_names Nil data wait block]:
  assumes "P []"
    and "\<And>b r. b \<noteq> IAC \<Longrightarrow> P r \<Longrightarrow> P (b # r)"
    and "\<And>r reply. process_iac_block (IAC # r) = (0, reply) \<Longrightarrow> P (IAC # r)"
    and "\<And>r c reply. process_iac_block (IAC # r) = (c, reply) \<Longrightarrow> c \<noteq> 0 \<Longrightarrow>
           P (drop c (IAC # r)) \<Longrightarrow> P (IAC # r)"
  shows "P s"
proof (induction s rule: length_induct)
  case (1 s)
  show ?case
  proof (cases s)
    case Nil
    with assms(1) show ?thesis by simp
  next
    case (Cons b r)
    obtain c reply where blk: "process_iac_block (IAC # r) = (c, reply)" by force
    show ?thesis
    proof (cases "b = IAC")
      case True
      show ?thesis
      proof (cases "c = 0")
        case True
        with blk assms(3) \<open>b = IAC\<close> Cons show ?thesis by simp
      next
        case False
        then have "length (drop c s) < length s" using Cons by simp
        with 1 have "P (drop c (IAC # r))" using Cons \<open>b = IAC\<close> by blast
        with blk False assms(4) show ?thesis using Cons \<open>b = IAC\<close> by simp
      qed
    next
      case False
      with 1 assms(2) Cons show ?thesis by simp
    qed
  qed
qed

lemma telnet_ref_append:
  "telnet_ref (p @ q) =
     (case telnet_ref p of (d, rs, t) \<Rightarrow>
        case telnet_ref (t @ q) of (d', rs', t') \<Rightarrow> (d @ d', rs @ rs', t'))"
proof (induction p rule: telnet_ref_induct)
  case Nil
  then show ?case by simp
next
  case (data b r)
  then show ?case by (auto simp: telnet_ref_data split: prod.splits)
next
  case (wait r reply)
  then show ?case by (simp add: telnet_ref_wait split: prod.splits)
next
  case (block r c reply)
  have b: "c \<le> length (IAC # r)" "2 \<le> c"
    using block_bounds [OF block.hyps(1)] block.hyps(2) by auto
  have blk: "process_iac_block (IAC # r @ q) = (c, reply)"
    using block_append [OF block.hyps(1,2), of q] by simp
  have dr: "drop c (IAC # r @ q) = drop c (IAC # r) @ q"
    using b(1) drop_append [of c "IAC # r" q] by simp
  have nth: "(IAC # r @ q) ! 1 = (IAC # r) ! 1"
    using b by (cases r) auto
  have "telnet_ref (IAC # r @ q) =
    (let (d, rs, t) = telnet_ref (drop c (IAC # r) @ q)
     in ((if c = 2 \<and> (IAC # r) ! 1 = IAC then IAC # d else d),
         (if reply = [] then rs else reply # rs), t))"
    unfolding telnet_ref_block [OF blk block.hyps(2)] dr nth ..
  then show ?case
    unfolding append_Cons block.IH telnet_ref_block [OF block.hyps(1,2)]
    by (simp split: prod.splits)
qed

lemma telnet_ref_suffix:
  "telnet_ref s = (d, rs, t) \<Longrightarrow> \<exists>k \<le> length s. t = drop k s"
proof (induction s arbitrary: d rs t rule: telnet_ref_induct)
  case (data b r)
  then obtain d' where "telnet_ref r = (d', rs, t)"
    by (auto simp: telnet_ref_data split: prod.splits)
  with data.IH obtain k where "k \<le> length r" "t = drop k r" by blast
  then show ?case by (intro exI [of _ "Suc k"]) simp
next
  case (block r c reply)
  then obtain d' rs' where "telnet_ref (drop c (IAC # r)) = (d', rs', t)"
    by (auto simp: telnet_ref_block split: prod.splits)
  with block.IH obtain k where "k \<le> length (drop c (IAC # r))" "t = drop k (drop c (IAC # r))"
    by blast
  moreover have "c \<le> length (IAC # r)" using block_bounds [OF block.hyps(1)] by simp
  ultimately show ?case by (intro exI [of _ "k + c"]) (simp add: add.commute)
qed (auto simp: telnet_ref_wait)

text \<open>The index loop computes the reference when every reply is written.\<close>

lemma telnet_loop_ref:
  assumes "i \<le> length buf" and "telnet_ref (drop i buf) = (d, rs, t)"
  shows "\<exists>k. telnet_loop (\<lambda>_. None) buf i out reps = (reps @ rs, Inr (k, out @ d)) \<and>
             drop k buf = t"
  using assms
proof (induction "length buf - i" arbitrary: i d rs t out reps rule: less_induct)
  case less
  note unf = telnet_loop.simps [of _ buf i out reps]
  show ?case
  proof (cases "i < length buf")
    case False
    with less.prems have "d = []" "rs = []" "t = []" "drop i buf = []" by auto
    with False show ?thesis by (simp add: unf)
  next
    case lt: True
    have dr: "drop i buf = buf ! i # drop (i + 1) buf"
      using lt by (simp add: Cons_nth_drop_Suc)
    show ?thesis
    proof (cases "buf ! i = IAC")
      case False
      obtain d' where r: "telnet_ref (drop (i + 1) buf) = (d', rs, t)" and d: "d = buf ! i # d'"
        using less.prems(2) False by (auto simp: dr telnet_ref_data split: prod.splits)
      have "length buf - (i + 1) < length buf - i" "i + 1 \<le> length buf" using lt by auto
      from less.hyps [OF this r, of "out @ [buf ! i]" reps] show ?thesis
        using lt False by (simp add: unf d)
    next
      case iac: True
      then have dr': "drop i buf = IAC # drop (i + 1) buf" by (simp add: dr)
      obtain c reply where blk: "process_iac_block (IAC # drop (i + 1) buf) = (c, reply)"
        by force
      show ?thesis
      proof (cases "c = 0")
        case True
        with less.prems(2) blk have "d = []" "rs = []" "t = drop i buf"
          by (auto simp: dr' telnet_ref_wait)
        with True lt iac blk show ?thesis by (simp add: unf dr')
      next
        case False
        have c: "i + c \<le> length buf" "2 \<le> c"
          using block_bounds [OF blk] False lt by auto
        have ddr: "drop c (IAC # drop (i + 1) buf) = drop (i + c) buf"
          unfolding dr' [symmetric] by (simp add: add.commute)
        have nth: "(IAC # drop (i + 1) buf) ! 1 = buf ! (i + 1)"
          using c lt by simp
        obtain d' rs' where r: "telnet_ref (drop (i + c) buf) = (d', rs', t)"
          and d: "d = (if c = 2 \<and> buf ! (i + 1) = IAC then IAC # d' else d')"
          and rs: "rs = (if reply = [] then rs' else reply # rs')"
          using less.prems(2) unfolding dr' telnet_ref_block [OF blk False] ddr nth
          by (auto split: prod.splits)
        have "length buf - (i + c) < length buf - i" using c lt by auto
        from less.hyps [OF this c(1) r,
            of "if c = 2 \<and> buf ! (i + 1) = IAC then out @ [0xFF] else out"
               "if reply = [] then reps else reps @ [reply]"]
        show ?thesis
          using lt iac blk False by (auto simp: unf dr' d rs IAC_def Let_def)
      qed
    qed
  qed
qed

subsection \<open>The grammar of the stream\<close>

datatype telnet_token = TData byte | TNegotiate byte byte | TSubneg bytes | TCommand byte

fun token_bytes :: "telnet_token \<Rightarrow> bytes" where
  "token_bytes (TData b) = (if b = IAC then [IAC, IAC] else [b])"
| "token_bytes (TNegotiate v opt) = [IAC, v, opt]"
| "token_bytes (TSubneg p) = IAC # SB # p @ [IAC, SE]"
| "token_bytes (TCommand c) = [IAC, c]"

fun has_iac_se :: "bytes \<Rightarrow> bool" where
  "has_iac_se (a # b # r) = ((a = IAC \<and> b = SE) \<or> has_iac_se (b # r))"
| "has_iac_se _ = False"

text \<open>
  The grammar is the driver's: a subnegotiation ends at the first IAC SE of its payload, and an
  IAC IAC in it is not an escape (see \<open>telnet_subneg_escape_leaks\<close> for what that means).
\<close>

fun token_ok :: "telnet_token \<Rightarrow> bool" where
  "token_ok (TData b) = True"
| "token_ok (TNegotiate v opt) = is_negotiation v"
| "token_ok (TSubneg p) = (\<not> has_iac_se p)"
| "token_ok (TCommand c) = (c \<noteq> IAC \<and> c \<noteq> SB \<and> \<not> is_negotiation c)"

fun token_data :: "telnet_token \<Rightarrow> bytes" where
  "token_data (TData b) = [b]"
| "token_data _ = []"

fun token_replies :: "telnet_token \<Rightarrow> bytes list" where
  "token_replies (TNegotiate v opt) = [[IAC, reply_verb v, opt]]"
| "token_replies _ = []"

definition stream_of :: "telnet_token list \<Rightarrow> bytes" where
  "stream_of ts = concat (map token_bytes ts)"

lemma sb_scan_payload:
  "\<not> has_iac_se p \<Longrightarrow>
   sb_scan (pre @ p @ IAC # SE # suf) (length pre) = (length pre + length p + 2, [])"
proof (induction p arbitrary: pre)
  case Nil
  then show ?case by (simp add: sb_scan_hit nth_append)
next
  case (Cons b p)
  have hd: "(p @ IAC # SE # suf) ! 0 = (case p of [] \<Rightarrow> IAC | c # _ \<Rightarrow> c)"
    by (cases p) auto
  have miss: "\<not> (b = IAC \<and> (p @ IAC # SE # suf) ! 0 = SE)"
    using Cons.prems by (cases p) auto
  let ?s = "pre @ (b # p) @ IAC # SE # suf"
  have "?s ! length pre = b" "?s ! (length pre + 1) = (p @ IAC # SE # suf) ! 0"
    by (simp_all add: nth_append)
  with miss have "sb_scan ?s (length pre) = sb_scan ?s (length pre + 1)"
    by (intro sb_scan_miss) auto
  also have "\<dots> = sb_scan ((pre @ [b]) @ p @ IAC # SE # suf) (length (pre @ [b]))" by simp
  also have "\<dots> = (length (pre @ [b]) + length p + 2, [])"
    using Cons.prems by (intro Cons.IH) (cases p, auto)
  finally show ?case by simp
qed

lemma block_subneg:
  assumes "\<not> has_iac_se p"
  shows "process_iac_block (IAC # SB # p @ IAC # SE # suf) = (length p + 4, [])"
  using sb_scan_payload [OF assms, of "[IAC, SB]" suf]
  by (simp add: block_eq [OF refl] is_negotiation_def numeral_eq_Suc)

lemma telnet_ref_token:
  assumes "token_ok t" and "telnet_ref s = (d, rs, l)"
  shows "telnet_ref (token_bytes t @ s) = (token_data t @ d, token_replies t @ rs, l)"
proof (cases t)
  case (TData b)
  show ?thesis
  proof (cases "b = IAC")
    case True
    have "process_iac_block (IAC # IAC # s) = (2, [])" by (simp add: block_eq [OF refl])
    from telnet_ref_block [OF this] show ?thesis using assms True TData by simp
  qed (use assms TData in \<open>simp add: telnet_ref_data\<close>)
next
  case (TNegotiate v opt)
  then have "process_iac_block (IAC # v # opt # s) = (3, [IAC, reply_verb v, opt])"
    using assms(1) by (auto simp: block_eq [OF refl] is_negotiation_def)
  from telnet_ref_block [OF this] show ?thesis using assms TNegotiate by simp
next
  case (TSubneg p)
  then have "process_iac_block (IAC # SB # p @ IAC # SE # s) = (length p + 4, [])"
    using assms(1) by (simp add: block_subneg)
  moreover have "drop (length p + 4) (IAC # SB # p @ IAC # SE # s) = s"
    by (simp add: numeral_eq_Suc)
  ultimately show ?thesis using assms TSubneg by (simp add: telnet_ref_block)
next
  case (TCommand c)
  then have "process_iac_block (IAC # c # s) = (2, [])"
    using assms(1) by (simp add: block_eq [OF refl])
  from telnet_ref_block [OF this] show ?thesis using assms TCommand by simp
qed

lemma telnet_ref_stream:
  "list_all token_ok ts \<Longrightarrow>
   telnet_ref (stream_of ts) =
     (concat (map token_data ts), concat (map token_replies ts), [])"
  unfolding stream_of_def by (induction ts) (auto simp: telnet_ref_token)

subsection \<open>Escaping, and the run of the driver\<close>

fun telnet_escape :: "bytes \<Rightarrow> bytes" where
  "telnet_escape [] = []"
| "telnet_escape (b # r) = (if b = IAC then IAC # IAC # telnet_escape r else b # telnet_escape r)"

lemma telnet_escape_stream: "telnet_escape bs = stream_of (map TData bs)"
  by (induction bs) (auto simp: stream_of_def)

lemma telnet_ref_escape: "telnet_ref (telnet_escape bs) = (bs, [], [])"
proof -
  have "list_all token_ok (map TData bs)" by (simp add: list_all_iff)
  moreover have "concat (map token_data (map TData bs)) = bs"
    "concat (map token_replies (map TData bs)) = []"
    by (induction bs) auto
  ultimately show ?thesis by (simp only: telnet_escape_stream telnet_ref_stream)
qed

text \<open>
  A script entry: cancellation; a finished read with the errors of the replies it causes and
  of the event; input from the downstream side with the error of its write.
\<close>

datatype telnet_step =
    TelCancelled
  | TelRead "string + bytes" "nat \<Rightarrow> string option" "string option"
  | TelInput "bytes option" "string option"

fun telnet_body :: "bytes \<Rightarrow> telnet_step \<Rightarrow> effect list \<times> (outcome + bytes)" where
  "telnet_body tail TelCancelled = ([], Inl (Inr ()))"
| "telnet_body tail (TelRead (Inl e) werr se) =
     ([], Inl (Inl (IoLost (''telnet read: '' @ e))))"
| "telnet_body tail (TelRead (Inr chunk) werr se) =
     (if chunk = [] then ([], Inl (Inl (IoLost ''telnet EOF'')))
      else let tail' = tail @ chunk in
        case telnet_loop werr tail' 0 [] [] of
          (replies, Inl e) \<Rightarrow> (map Write replies, Inl (Inl (IoLost (''telnet write: '' @ e))))
        | (replies, Inr (i, data_out)) \<Rightarrow>
            let leftover = drop i tail' in
            if data_out \<noteq> [] then
              (case send_evt ''evt closed: '' (Output data_out) se of
                 (es, Inl r) \<Rightarrow> (map Write replies @ es, Inl r)
               | (es, Inr _) \<Rightarrow> (map Write replies @ es, Inr leftover))
            else (map Write replies, Inr leftover))"
| "telnet_body tail (TelInput None we) = ([], Inl (Inr ()))"
| "telnet_body tail (TelInput (Some b) we) =
     (case we of
        None \<Rightarrow> ([Write (telnet_escape b)], Inr tail)
      | Some e \<Rightarrow> ([], Inl (Inl (IoLost (''telnet write: '' @ e)))))"

record telnet_setup =
  tel_connect :: "string option"
  tel_announce :: "string option"

text \<open>A read awaits the writes of its replies and the send of its data, if it has any.\<close>

fun telnet_awaits :: "bytes \<Rightarrow> telnet_step \<Rightarrow> bool" where
  "telnet_awaits tail (TelRead (Inr chunk) werr se) =
     (chunk \<noteq> [] \<and> (case telnet_loop werr (tail @ chunk) 0 [] [] of
        (replies, Inl e) \<Rightarrow> True
      | (replies, Inr (i, data_out)) \<Rightarrow> replies \<noteq> [] \<or> data_out \<noteq> []))"
| "telnet_awaits tail (TelInput (Some b) we) = True"
| "telnet_awaits tail _ = False"

definition telnet_parts :: "telnet_setup \<Rightarrow> (bytes, telnet_step) loop_parts" where
  "telnet_parts s = \<lparr>lp_setup_err = map_option (\<lambda>e. IoLost (''telnet connect: '' @ e)) (tel_connect s),
     lp_msg = ''evt closed: '', lp_announce = tel_announce s, lp_body = telnet_body, lp_init = [],
     lp_awaits = telnet_awaits, lp_cancelled = (\<lambda>x. x = TelCancelled)\<rparr>"

definition telnet_run :: "telnet_setup \<Rightarrow> telnet_step list \<Rightarrow> effect list \<times> outcome option" where
  telnet_run_parts: "telnet_run s xs = run_parts (telnet_parts s) xs"

lemma telnet_run_def: "telnet_run s xs = start_driver (map_option (\<lambda>e. IoLost (''telnet connect: '' @ e)) (tel_connect s))
    ''evt closed: '' (tel_announce s) telnet_body [] xs"
  by (simp add: telnet_run_parts telnet_parts_def run_parts_def)

lemma only_output_writes [simp]: "list_all only_output (map Write bs)"
  by (simp add: list_all_iff only_output_def)

lemma send_evt_output [simp]: "list_all only_output (fst (send_evt msg (Output b) se))"
  by (simp add: send_evt_def only_output_def split: option.splits)

lemma telnet_body_output: "list_all only_output (fst (telnet_body tail x))"
proof (cases "(tail, x)" rule: telnet_body.cases)
  case (3 t chunk werr se)
  then show ?thesis
    by (auto simp: Let_def send_evt_def only_output_def split: prod.splits sum.splits option.splits)
qed (auto simp: only_output_def split: option.splits)

interpretation telnet: upstream_driver telnet_run TelCancelled
  unfolding telnet_run_def
  by (rule upstream_driver_start) (auto intro: telnet_body_output)

lemma telnet_convention: "keeps_convention (live_run (telnet_parts s)) TelCancelled (\<lambda>x. \<exists>we. x = TelInput None we)"
proof (rule parts_convention)
  show "snd (lp_body (telnet_parts s) st x) = Inl (Inr ()) \<Longrightarrow> lp_cancelled (telnet_parts s) x \<or> (\<exists>we. x = TelInput None we)" for st x
    unfolding telnet_parts_def loop_parts.simps
    by (cases "(st, x)" rule: telnet_body.cases) (auto simp: send_evt_def Let_def split: if_splits option.splits prod.splits sum.splits)
qed (simp_all add: telnet_parts_def telnet_body_output)

subsection \<open>What a run delivers\<close>

text \<open>A read that succeeds, with every reply written and the event accepted.\<close>

abbreviation good_read :: "bytes \<Rightarrow> telnet_step" where
  "good_read c \<equiv> TelRead (Inr c) (\<lambda>_. None) None"

lemma telnet_body_good_read:
  assumes "c \<noteq> []" and "telnet_ref (tail @ c) = (d, rs, t)"
  shows "telnet_body tail (good_read c) =
    (map Write rs @ (if d = [] then [] else [Emit (Output d)]), Inr t)"
proof -
  from telnet_loop_ref [of 0 "tail @ c" d rs t "[]" "[]"] assms(2)
  obtain k where "telnet_loop (\<lambda>_. None) (tail @ c) 0 [] [] = (rs, Inr (k, d))"
    "drop k (tail @ c) = t" by auto
  with assms(1) show ?thesis by (simp add: send_evt_def Let_def)
qed

lemma written_map_Write [simp]: "written (map Write bs) = concat bs"
  by (induction bs) auto

lemma emitted_map_Write [simp]: "emitted (map Write bs) = []"
  by (induction bs) auto

lemma drive_good_reads:
  assumes "[] \<notin> set cs" and "telnet_ref (tail @ concat cs) = (d, rs, t)"
    and "telnet_ref tail = ([], [], tail)"
  shows "\<exists>es. drive telnet_body tail (map good_read cs) = (es, None) \<and>
    outputs (emitted es) = d \<and> written es = concat rs \<and>
    drive_state telnet_body tail (map good_read cs) = t"
  using assms
proof (induction cs arbitrary: tail d rs)
  case Nil
  then show ?case by simp
next
  case (Cons c cs)
  obtain d1 rs1 t1 where r1: "telnet_ref (tail @ c) = (d1, rs1, t1)" by (metis prod_cases3)
  have t1: "telnet_ref t1 = ([], [], t1)"
    using telnet_ref_append [of "tail @ c" "[]"] r1 by (auto split: prod.splits)
  obtain d2 rs2 where r2: "telnet_ref (t1 @ concat cs) = (d2, rs2, t)"
    and d: "d = d1 @ d2" and rs: "rs = rs1 @ rs2"
    using Cons.prems(2) telnet_ref_append [of "tail @ c" "concat cs"] r1
    by (auto split: prod.splits)
  have b: "telnet_body tail (good_read c) =
      (map Write rs1 @ (if d1 = [] then [] else [Emit (Output d1)]), Inr t1)"
    using Cons.prems(1) r1 by (intro telnet_body_good_read) auto
  have "[] \<notin> set cs" using Cons.prems(1) by simp
  from Cons.IH [OF this r2 t1] show ?case
    by (auto simp: b d rs simp del: telnet_body.simps)
qed

text \<open>
  C6. Streaming correctness: a well-formed Telnet stream, cut into reads anywhere, delivers
  exactly its data bytes downstream and answers exactly its option requests, each with a
  refusal, in order.
\<close>

theorem telnet_stream_decoded:
  assumes "list_all token_ok ts" and "concat cs = stream_of ts" and "[] \<notin> set cs"
  shows "\<exists>es. telnet_run \<lparr>tel_connect = None, tel_announce = None\<rparr> (map good_read cs)
            = (Emit Connected # es, None) \<and>
          outputs (emitted es) = concat (map token_data ts) \<and>
          written es = concat (concat (map token_replies ts))"
  using drive_good_reads [of cs "[]"] telnet_ref_stream [OF assms(1)] assms(2,3)
  by (auto simp: telnet_run_def driver_simps)

theorem telnet_stream_decoded_witness:
  "\<exists>es. telnet_run \<lparr>tel_connect = None, tel_announce = None\<rparr>
          (map good_read [[97, IAC], [DO, 31], [98, IAC, IAC]])
        = (Emit Connected # es, None) \<and>
      outputs (emitted es) = [97, 98, IAC] \<and> written es = [IAC, WONT, 31]"
proof -
  let ?ts = "[TData 97, TNegotiate DO 31, TData 98, TData IAC]"
  have "list_all token_ok ?ts" by (simp add: is_negotiation_def)
  moreover have "concat [[97, IAC], [DO, 31], [98, IAC, IAC]] = stream_of ?ts"
    by (simp add: stream_of_def IAC_def)
  moreover have "[] \<notin> set [[97, IAC], [DO, 31], [98, IAC, IAC]]" by simp
  ultimately show ?thesis
    using telnet_stream_decoded [of ?ts "[[97, IAC], [DO, 31], [98, IAC, IAC]]"]
    by (simp add: reply_verb_def)
qed

text \<open>
  C26. Input is transparent: what the driver writes for any input, decoded by a Telnet peer,
  is that input with nothing left over and no option request in it.
\<close>

theorem telnet_input_transparent:
  "telnet_body tail (TelInput (Some b) None) = ([Write (telnet_escape b)], Inr tail) \<and>
   telnet_ref (telnet_escape b) = (b, [], [])"
  by (simp add: telnet_ref_escape)

text \<open>
  A subnegotiation whose payload holds an escaped IAC followed by the byte of SE is cut
  short: the rest of the payload reaches the downstream terminals as data.
\<close>

theorem telnet_subneg_escape_leaks:
  "telnet_ref ([IAC, SB, opt, IAC, IAC, SE] @ telnet_escape rest @ [IAC, SE]) = (rest, [], [])"
proof -
  let ?ts = "TSubneg [opt, IAC] # map TData rest @ [TCommand SE]"
  have "list_all token_ok ?ts"
    by (simp add: list_all_iff is_negotiation_def telnet_bytes)
  moreover have "stream_of ?ts = [IAC, SB, opt, IAC, IAC, SE] @ telnet_escape rest @ [IAC, SE]"
    by (simp add: stream_of_def telnet_escape_stream)
  moreover have "concat (map token_data (map TData rest)) = rest"
    "concat (map token_replies (map TData rest)) = []"
    by (induction rest) auto
  ultimately show ?thesis
    using telnet_ref_stream [of ?ts] by simp
qed

end
