(* ===== verification/Stream_Drivers.thy ===== *)
theory Stream_Drivers
  imports Driver Eol
begin

text \<open>
  The drivers that move bytes between one connection and the hub, in
  \<open>crates/termhub-drivers/src\<close>: \<open>loopback.rs\<close>, \<open>raw_tcp.rs\<close>, \<open>serial.rs\<close> and \<open>ssh_client.rs\<close>. A
  record \<open>..._setup\<close> holds the results of the calls made before the loop, a script the branch of
  \<open>select!\<close> that fires with the results of its calls. \<open>tokio\<close>, \<open>tokio-serial\<close> and \<open>russh\<close>
  appear only by these results; their errors are the text they display. \<open>..._awaits\<close> tells which
  branches await a call once they have fired.
\<close>

subsection \<open>Loopback\<close>

datatype loop_step = LoopCancelled | LoopInput "bytes option" "string option"

fun loopback_body :: "unit \<Rightarrow> loop_step \<Rightarrow> effect list \<times> (outcome + unit)" where
  "loopback_body st LoopCancelled = ([], Inl (Inr ()))"
| "loopback_body st (LoopInput None se) = ([], Inl (Inr ()))"
| "loopback_body st (LoopInput (Some b) se) = send_evt ''evt_tx closed: '' (Output b) se"

fun loopback_awaits :: "unit \<Rightarrow> loop_step \<Rightarrow> bool" where
  "loopback_awaits st (LoopInput (Some b) se) = True"
| "loopback_awaits st _ = False"

definition loopback_parts :: "string option \<Rightarrow> (unit, loop_step) loop_parts" where
  "loopback_parts s = \<lparr>lp_setup_err = None,
     lp_msg = ''evt_tx closed: '', lp_announce = s, lp_body = loopback_body, lp_init = (),
     lp_awaits = loopback_awaits, lp_cancelled = (\<lambda>x. x = LoopCancelled)\<rparr>"

definition loopback_run :: "string option \<Rightarrow> loop_step list \<Rightarrow> effect list \<times> outcome option" where
  loopback_run_parts: "loopback_run s xs = run_parts (loopback_parts s) xs"

lemma loopback_run_def: "loopback_run s xs = start_driver (None)
    ''evt_tx closed: '' (s) loopback_body () xs"
  by (simp add: loopback_run_parts loopback_parts_def run_parts_def)

subsection \<open>Raw TCP\<close>

record tcp_setup =
  tcp_connect :: "string option"
  tcp_announce :: "string option"

text \<open>A read gives an error or at most 4096 bytes, none of them at the end of the stream.\<close>

datatype tcp_step =
    TcpCancelled
  | TcpRead "string + bytes" "string option"
  | TcpInput "bytes option" "string option"

fun tcp_body :: "unit \<Rightarrow> tcp_step \<Rightarrow> effect list \<times> (outcome + unit)" where
  "tcp_body st TcpCancelled = ([], Inl (Inr ()))"
| "tcp_body st (TcpRead (Inl e) se) = ([], Inl (Inl (IoLost (''tcp read: '' @ e))))"
| "tcp_body st (TcpRead (Inr b) se) =
     (if b = [] then ([], Inl (Inl (IoLost ''tcp EOF'')))
      else send_evt ''evt closed: '' (Output b) se)"
| "tcp_body st (TcpInput None we) = ([], Inl (Inr ()))"
| "tcp_body st (TcpInput (Some b) we) =
     (case we of
        None \<Rightarrow> ([Write b], Inr ())
      | Some e \<Rightarrow> ([], Inl (Inl (IoLost (''tcp write: '' @ e)))))"

fun tcp_awaits :: "unit \<Rightarrow> tcp_step \<Rightarrow> bool" where
  "tcp_awaits st (TcpRead (Inr b) se) = (b \<noteq> [])"
| "tcp_awaits st (TcpInput (Some b) we) = True"
| "tcp_awaits st _ = False"

definition tcp_parts :: "tcp_setup \<Rightarrow> (unit, tcp_step) loop_parts" where
  "tcp_parts s = \<lparr>lp_setup_err = map_option (\<lambda>e. IoLost (''tcp connect: '' @ e)) (tcp_connect s),
     lp_msg = ''evt closed: '', lp_announce = tcp_announce s, lp_body = tcp_body, lp_init = (),
     lp_awaits = tcp_awaits, lp_cancelled = (\<lambda>x. x = TcpCancelled)\<rparr>"

definition tcp_run :: "tcp_setup \<Rightarrow> tcp_step list \<Rightarrow> effect list \<times> outcome option" where
  tcp_run_parts: "tcp_run s xs = run_parts (tcp_parts s) xs"

lemma tcp_run_def: "tcp_run s xs = start_driver (map_option (\<lambda>e. IoLost (''tcp connect: '' @ e)) (tcp_connect s))
    ''evt closed: '' (tcp_announce s) tcp_body () xs"
  by (simp add: tcp_run_parts tcp_parts_def run_parts_def)

subsection \<open>Serial\<close>

datatype DataBits = Five | Six | Seven | Eight
datatype Parity = ParityNone | Even | Odd
datatype StopBits = One | Two
datatype FlowControl = FlowNone | Hardware | Software

record SerialParams =
  sp_data_bits :: DataBits
  sp_parity :: Parity
  sp_stop_bits :: StopBits
  sp_flow :: FlowControl

definition parse_data_bits :: "byte \<Rightarrow> string + DataBits" where
  "parse_data_bits n =
     (if n = 5 then Inr Five else if n = 6 then Inr Six else if n = 7 then Inr Seven
      else if n = 8 then Inr Eight else Inl (''invalid data_bits: '' @ show_word n))"

definition parse_parity :: "string \<Rightarrow> string + Parity" where
  "parse_parity s =
     (if s = ''none'' then Inr ParityNone else if s = ''even'' then Inr Even
      else if s = ''odd'' then Inr Odd else Inl (''invalid parity: '' @ s))"

definition parse_stop_bits :: "byte \<Rightarrow> string + StopBits" where
  "parse_stop_bits n =
     (if n = 1 then Inr One else if n = 2 then Inr Two
      else Inl (''invalid stop_bits: '' @ show_word n))"

definition parse_flow :: "string \<Rightarrow> string + FlowControl" where
  "parse_flow s =
     (if s = ''none'' then Inr FlowNone else if s = ''hardware'' then Inr Hardware
      else if s = ''software'' then Inr Software else Inl (''invalid flow: '' @ s))"

definition parse_serial_params :: "byte \<Rightarrow> string \<Rightarrow> byte \<Rightarrow> string \<Rightarrow> string + SerialParams" where
  "parse_serial_params data_bits parity stop_bits flow =
     rbind (parse_data_bits data_bits) (\<lambda>d.
     rbind (parse_parity parity) (\<lambda>p.
     rbind (parse_stop_bits stop_bits) (\<lambda>s.
     rbind (parse_flow flow) (\<lambda>f.
     Inr \<lparr>sp_data_bits = d, sp_parity = p, sp_stop_bits = s, sp_flow = f\<rparr>))))"

record SerialDriver =
  sd_port :: string
  sd_baud :: u32
  sd_params :: SerialParams
  sd_input_eol :: EolMode
  sd_output_eol :: EolMode

datatype serial_kind = NoDevice | InvalidInput | IoKind | UnknownKind

definition classify_open_error :: "serial_kind \<times> string \<Rightarrow> string \<Rightarrow> DriverError" where
  "classify_open_error e port =
     (case fst e of
        NoDevice \<Rightarrow> Fatal (''no such serial device: '' @ port)
      | InvalidInput \<Rightarrow> Fatal ''invalid serial parameters''
      | IoKind \<Rightarrow> IoLost (''serial open io: '' @ snd e)
      | UnknownKind \<Rightarrow> IoLost (''serial open: '' @ snd e))"

record serial_setup =
  ser_open :: "(serial_kind \<times> string) option"
  ser_announce :: "string option"

datatype serial_step =
    SerCancelled
  | SerRead "string + bytes" "string option"
  | SerInput "bytes option" "string option"

fun serial_body :: "SerialDriver \<Rightarrow> unit \<Rightarrow> serial_step \<Rightarrow> effect list \<times> (outcome + unit)" where
  "serial_body d st SerCancelled = ([], Inl (Inr ()))"
| "serial_body d st (SerRead (Inl e) se) = ([], Inl (Inl (IoLost (''serial read: '' @ e))))"
| "serial_body d st (SerRead (Inr b) se) =
     (if b = [] then ([], Inl (Inl (IoLost ''serial EOF'')))
      else send_evt ''evt closed: '' (Output (transform (sd_output_eol d) b)) se)"
| "serial_body d st (SerInput None we) = ([], Inl (Inr ()))"
| "serial_body d st (SerInput (Some b) we) =
     (case we of
        None \<Rightarrow> ([Write (transform (sd_input_eol d) b)], Inr ())
      | Some e \<Rightarrow> ([], Inl (Inl (IoLost (''serial write: '' @ e)))))"

fun serial_awaits :: "unit \<Rightarrow> serial_step \<Rightarrow> bool" where
  "serial_awaits st (SerRead (Inr b) se) = (b \<noteq> [])"
| "serial_awaits st (SerInput (Some b) we) = True"
| "serial_awaits st _ = False"

definition serial_parts :: "SerialDriver \<times> serial_setup \<Rightarrow> (unit, serial_step) loop_parts" where
  "serial_parts s = \<lparr>lp_setup_err = map_option (\<lambda>e. classify_open_error e (sd_port (fst s))) (ser_open (snd s)),
     lp_msg = ''evt closed: '', lp_announce = ser_announce (snd s), lp_body = serial_body (fst s), lp_init = (),
     lp_awaits = serial_awaits, lp_cancelled = (\<lambda>x. x = SerCancelled)\<rparr>"

definition serial_run :: "SerialDriver \<times> serial_setup \<Rightarrow> serial_step list \<Rightarrow> effect list \<times> outcome option" where
  serial_run_parts: "serial_run s xs = run_parts (serial_parts s) xs"

lemma serial_run_def: "serial_run s xs = start_driver (map_option (\<lambda>e. classify_open_error e (sd_port (fst s))) (ser_open (snd s)))
    ''evt closed: '' (ser_announce (snd s)) (serial_body (fst s)) () xs"
  by (simp add: serial_run_parts serial_parts_def run_parts_def)

subsection \<open>SSH client\<close>

text \<open>\<open>AcceptAnyKey\<close>: every server key is accepted.\<close>

definition check_server_key :: "'key \<Rightarrow> string + bool" where
  "check_server_key k = Inr True"

record ssh_setup =
  ssh_connect :: "string option"
  ssh_auth :: "string + bool"
  ssh_open :: "string option"
  ssh_pty :: "string option"
  ssh_shell :: "string option"
  ssh_announce :: "string option"

definition ssh_setup_err :: "ssh_setup \<Rightarrow> DriverError option" where
  "ssh_setup_err s =
     (case ssh_connect s of Some e \<Rightarrow> Some (IoLost (''ssh connect: '' @ e)) | None \<Rightarrow>
     (case ssh_auth s of Inl e \<Rightarrow> Some (IoLost (''ssh auth io: '' @ e)) | Inr ok \<Rightarrow>
     (if \<not> ok then Some (Fatal ''ssh auth rejected'') else
     (case ssh_open s of Some e \<Rightarrow> Some (IoLost (''open session: '' @ e)) | None \<Rightarrow>
     (case ssh_pty s of Some e \<Rightarrow> Some (IoLost (''pty: '' @ e)) | None \<Rightarrow>
     (case ssh_shell s of Some e \<Rightarrow> Some (IoLost (''shell: '' @ e)) | None \<Rightarrow> None))))))"

datatype ChannelMsg = ChData bytes | ChExtendedData bytes | ChEof | ChClose | ChOther

datatype ssh_step =
    SshCancelled
  | SshWait "ChannelMsg option" "string option"
  | SshInput "bytes option" "string option"

fun ssh_body :: "unit \<Rightarrow> ssh_step \<Rightarrow> effect list \<times> (outcome + unit)" where
  "ssh_body st SshCancelled = ([], Inl (Inr ()))"
| "ssh_body st (SshWait None se) = ([], Inl (Inl (IoLost ''ssh channel closed'')))"
| "ssh_body st (SshWait (Some (ChData data)) se) = send_evt ''evt closed: '' (Output data) se"
| "ssh_body st (SshWait (Some (ChExtendedData data)) se) = send_evt ''evt closed: '' (Output data) se"
| "ssh_body st (SshWait (Some ChEof) se) = ([], Inl (Inl (IoLost ''ssh remote closed'')))"
| "ssh_body st (SshWait (Some ChClose) se) = ([], Inl (Inl (IoLost ''ssh remote closed'')))"
| "ssh_body st (SshWait (Some ChOther) se) = ([], Inr ())"
| "ssh_body st (SshInput None we) = ([], Inl (Inr ()))"
| "ssh_body st (SshInput (Some b) we) =
     (case we of
        None \<Rightarrow> ([Write b], Inr ())
      | Some e \<Rightarrow> ([], Inl (Inl (IoLost (''ssh write: '' @ e)))))"

fun ssh_awaits :: "unit \<Rightarrow> ssh_step \<Rightarrow> bool" where
  "ssh_awaits st (SshWait (Some (ChData data)) se) = True"
| "ssh_awaits st (SshWait (Some (ChExtendedData data)) se) = True"
| "ssh_awaits st (SshInput (Some b) we) = True"
| "ssh_awaits st _ = False"

definition ssh_parts :: "ssh_setup \<Rightarrow> (unit, ssh_step) loop_parts" where
  "ssh_parts s = \<lparr>lp_setup_err = ssh_setup_err s,
     lp_msg = ''evt closed: '', lp_announce = ssh_announce s, lp_body = ssh_body, lp_init = (),
     lp_awaits = ssh_awaits, lp_cancelled = (\<lambda>x. x = SshCancelled)\<rparr>"

definition ssh_run :: "ssh_setup \<Rightarrow> ssh_step list \<Rightarrow> effect list \<times> outcome option" where
  ssh_run_parts: "ssh_run s xs = run_parts (ssh_parts s) xs"

lemma ssh_run_def: "ssh_run s xs = start_driver (ssh_setup_err s)
    ''evt closed: '' (ssh_announce s) ssh_body () xs"
  by (simp add: ssh_run_parts ssh_parts_def run_parts_def)

subsection \<open>The calling convention\<close>

lemma send_output_only [simp]: "list_all only_output (fst (send_evt msg (Output b) se))"
  by (simp add: send_evt_def only_output_def split: option.splits)

lemma loopback_output: "list_all only_output (fst (loopback_body st x))"
  by (cases "(st, x)" rule: loopback_body.cases) auto

lemma tcp_output: "list_all only_output (fst (tcp_body st x))"
  by (cases "(st, x)" rule: tcp_body.cases) (auto simp: only_output_def split: option.splits)

lemma serial_output: "list_all only_output (fst (serial_body d st x))"
  by (cases "(d, st, x)" rule: serial_body.cases) (auto simp: only_output_def split: option.splits)

lemma ssh_output: "list_all only_output (fst (ssh_body st x))"
  by (cases "(st, x)" rule: ssh_body.cases) (auto simp: only_output_def split: option.splits)

interpretation loopback: upstream_driver loopback_run LoopCancelled
  unfolding loopback_run_def by (rule upstream_driver_start) (simp_all add: loopback_output)

interpretation tcp: upstream_driver tcp_run TcpCancelled
  unfolding tcp_run_def by (rule upstream_driver_start) (simp_all add: tcp_output)

interpretation serial: upstream_driver serial_run SerCancelled
  unfolding serial_run_def by (rule upstream_driver_start) (simp_all add: serial_output)

interpretation ssh: upstream_driver ssh_run SshCancelled
  unfolding ssh_run_def by (rule upstream_driver_start) (simp_all add: ssh_output)


lemma loopback_convention: "keeps_convention (live_run (loopback_parts s)) LoopCancelled (\<lambda>x. \<exists>se. x = LoopInput None se)"
proof (rule parts_convention)
  show "snd (lp_body (loopback_parts s) st x) = Inl (Inr ()) \<Longrightarrow> lp_cancelled (loopback_parts s) x \<or> (\<exists>se. x = LoopInput None se)" for st x
    unfolding loopback_parts_def loop_parts.simps
    by (cases "(st, x)" rule: loopback_body.cases) (auto simp: send_evt_def split: if_splits option.splits)
qed (simp_all add: loopback_parts_def loopback_output)

lemma tcp_convention: "keeps_convention (live_run (tcp_parts s)) TcpCancelled (\<lambda>x. \<exists>we. x = TcpInput None we)"
proof (rule parts_convention)
  show "snd (lp_body (tcp_parts s) st x) = Inl (Inr ()) \<Longrightarrow> lp_cancelled (tcp_parts s) x \<or> (\<exists>we. x = TcpInput None we)" for st x
    unfolding tcp_parts_def loop_parts.simps
    by (cases "(st, x)" rule: tcp_body.cases) (auto simp: send_evt_def split: if_splits option.splits)
qed (simp_all add: tcp_parts_def tcp_output)

lemma serial_convention: "keeps_convention (live_run (serial_parts s)) SerCancelled (\<lambda>x. \<exists>we. x = SerInput None we)"
proof (rule parts_convention)
  show "snd (lp_body (serial_parts s) st x) = Inl (Inr ()) \<Longrightarrow> lp_cancelled (serial_parts s) x \<or> (\<exists>we. x = SerInput None we)" for st x
    unfolding serial_parts_def loop_parts.simps
    by (cases "(fst s, st, x)" rule: serial_body.cases) (auto simp: send_evt_def split: if_splits option.splits)
qed (simp_all add: serial_parts_def serial_output)

lemma ssh_convention: "keeps_convention (live_run (ssh_parts s)) SshCancelled (\<lambda>x. \<exists>we. x = SshInput None we)"
proof (rule parts_convention)
  show "snd (lp_body (ssh_parts s) st x) = Inl (Inr ()) \<Longrightarrow> lp_cancelled (ssh_parts s) x \<or> (\<exists>we. x = SshInput None we)" for st x
    unfolding ssh_parts_def loop_parts.simps
    by (cases "(st, x)" rule: ssh_body.cases) (auto simp: send_evt_def split: if_splits option.splits)
qed (simp_all add: ssh_parts_def ssh_output)

end
