(* ===== verification/Local_Shell.thy ===== *)
theory Local_Shell
  imports Driver
begin

text \<open>
  The local shell driver, \<open>crates/termhub-drivers/src/local_shell.rs\<close>: a child process behind a
  pseudo-terminal, a blocking reader task beside the loop, a poll of the child every 200 ms. The
  reader's reads are script entries of their own; what it still reads while the driver waits for
  it (at most five seconds) is the list an entry carries. The state is whether the reader still
  reads.
\<close>

record shell_driver =
  lsh_command :: string
  lsh_args :: "string list"
  lsh_cols :: u16
  lsh_rows :: u16

record shell_setup =
  sh_openpty :: "string option"
  sh_spawn :: "string option"
  sh_reader :: "string option"
  sh_writer :: "string option"
  sh_announce :: "string option"

definition shell_setup_err :: "shell_driver \<Rightarrow> shell_setup \<Rightarrow> DriverError option" where
  "shell_setup_err d s =
     (case sh_openpty s of Some e \<Rightarrow> Some (Fatal (''openpty: '' @ e)) | None \<Rightarrow>
     (case sh_spawn s of Some e \<Rightarrow> Some (Fatal (''spawn '' @ lsh_command d @ '': '' @ e)) | None \<Rightarrow>
     (case sh_reader s of Some e \<Rightarrow> Some (Fatal (''clone reader: '' @ e)) | None \<Rightarrow>
     (case sh_writer s of Some e \<Rightarrow> Some (Fatal (''take writer: '' @ e)) | None \<Rightarrow> None))))"

text \<open>One turn of the reader's loop: a read, and the error of the send of what it read.\<close>

type_synonym shell_read = "(string + bytes) \<times> string option"

definition reader_turn :: "shell_read \<Rightarrow> effect list \<times> bool" where
  "reader_turn x =
     (case fst x of
        Inl _ \<Rightarrow> ([], False)
      | Inr b \<Rightarrow>
          if b = [] then ([], False)
          else (case snd x of None \<Rightarrow> ([Emit (Output b)], True) | Some _ \<Rightarrow> ([], False)))"

fun drain :: "bool \<Rightarrow> shell_read list \<Rightarrow> effect list" where
  "drain reading [] = []"
| "drain reading (x # xs) =
     (if reading then fst (reader_turn x) @ drain (snd (reader_turn x)) xs else [])"

datatype shell_step =
    ShRead shell_read
  | ShCancelled "shell_read list"
  | ShInput "bytes option" bool "shell_read list"
  | ShPoll "string + bool" "shell_read list"

text \<open>
  \<open>ShInput b ok ds\<close>: \<open>ok\<close> tells that the writing task neither failed nor panicked.
  \<open>ShPoll w ds\<close>: the result of \<open>try_wait\<close>, \<open>Inr True\<close> for a child that has exited.
\<close>

fun shell_body :: "bool \<Rightarrow> shell_step \<Rightarrow> effect list \<times> (outcome + bool)" where
  "shell_body reading (ShRead x) =
     (if reading then (fst (reader_turn x), Inr (snd (reader_turn x))) else ([], Inr reading))"
| "shell_body reading (ShCancelled ds) = (KillChild # KillChild # drain reading ds, Inl (Inr ()))"
| "shell_body reading (ShInput None ok ds) = (KillChild # drain reading ds, Inl (Inr ()))"
| "shell_body reading (ShInput (Some b) ok ds) =
     (if ok then ([Write b], Inr reading)
      else (drain reading ds, Inl (Inl (IoLost ''pty write failed''))))"
| "shell_body reading (ShPoll (Inr True) ds) =
     (drain reading ds, Inl (Inl (IoLost ''local shell exited'')))"
| "shell_body reading (ShPoll w ds) = ([], Inr reading)"

text \<open>
  The branches that can wait for ever: only the write, done on a blocking thread. The waits for the
  reader task end after at most five seconds.
\<close>

fun shell_awaits :: "bool \<Rightarrow> shell_step \<Rightarrow> bool" where
  "shell_awaits reading (ShInput (Some b) ok ds) = True"
| "shell_awaits reading _ = False"

fun shell_cancelled :: "shell_step \<Rightarrow> bool" where
  "shell_cancelled (ShCancelled ds) = True"
| "shell_cancelled _ = False"

definition shell_parts :: "shell_driver \<times> shell_setup \<Rightarrow> (bool, shell_step) loop_parts" where
  "shell_parts s = \<lparr>lp_setup_err = shell_setup_err (fst s) (snd s),
     lp_msg = ''evt closed: '', lp_announce = sh_announce (snd s), lp_body = shell_body, lp_init = True,
     lp_awaits = shell_awaits, lp_cancelled = shell_cancelled\<rparr>"

definition shell_run :: "shell_driver \<times> shell_setup \<Rightarrow> shell_step list \<Rightarrow> effect list \<times> outcome option" where
  shell_run_parts: "shell_run s xs = run_parts (shell_parts s) xs"

lemma shell_run_def: "shell_run s xs = start_driver (shell_setup_err (fst s) (snd s))
    ''evt closed: '' (sh_announce (snd s)) shell_body True xs"
  by (simp add: shell_run_parts shell_parts_def run_parts_def)

subsection \<open>The calling convention\<close>

lemma reader_turn_output: "list_all only_output (fst (reader_turn x))"
  by (auto simp: reader_turn_def only_output_def split: sum.splits option.splits)

lemma drain_output: "list_all only_output (drain reading ds)"
  by (induction reading ds rule: drain.induct) (auto simp: reader_turn_output)

lemma shell_output: "list_all only_output (fst (shell_body reading x))"
  by (cases "(reading, x)" rule: shell_body.cases)
    (auto simp: reader_turn_output drain_output only_output_def)

interpretation shell: upstream_driver shell_run "ShCancelled ds" for ds
  unfolding shell_run_def by (rule upstream_driver_start) (simp_all add: shell_output)

lemma shell_convention: "keeps_convention (live_run (shell_parts s)) (ShCancelled ds) (\<lambda>x. \<exists>ok ds. x = ShInput None ok ds)"
proof (rule parts_convention)
  show "snd (lp_body (shell_parts s) st x) = Inl (Inr ()) \<Longrightarrow> lp_cancelled (shell_parts s) x \<or> (\<exists>ok ds. x = ShInput None ok ds)" for st x
    unfolding shell_parts_def loop_parts.simps
    by (cases "(st, x)" rule: shell_body.cases) (auto simp: send_evt_def split: if_splits option.splits)
qed (simp_all add: shell_parts_def shell_output)

subsection \<open>The child process\<close>

lemma drain_no_kill: "KillChild \<notin> set (drain reading ds)"
  by (induction reading ds rule: drain.induct)
    (auto simp: reader_turn_def split: sum.splits option.splits)

lemma shell_body_kill:
  "shell_body reading x = (es, r) \<Longrightarrow> KillChild \<in> set es \<longleftrightarrow> r = Inl (Inr ())"
  by (cases "(reading, x)" rule: shell_body.cases)
    (auto simp: drain_no_kill reader_turn_def split: if_splits sum.splits option.splits)

lemma drive_kill:
  "KillChild \<in> set (fst (drive shell_body reading xs)) \<longleftrightarrow>
   snd (drive shell_body reading xs) = Some (Inr ())"
proof (induction xs arbitrary: reading)
  case (Cons x xs)
  obtain es r where b: "shell_body reading x = (es, r)" by force
  show ?case
  proof (cases r)
    case (Inr reading')
    with shell_body_kill [OF b] Cons.IH [of reading'] show ?thesis
      by (cases "drive shell_body reading' xs") (simp add: b del: shell_body.simps)
  qed (use shell_body_kill [OF b] in \<open>auto simp: b simp del: shell_body.simps\<close>)
qed simp

text \<open>
  The child process is killed exactly when the driver returns \<open>Ok\<close>, that is after a stop or
  when the hub's input has closed. No other end kills it: not a failed write, not its own exit, and
  not a failure after it has been spawned (of cloning the reader, taking the writer or announcing
  the connection).
\<close>
theorem shell_kills_child_iff_stopped:
  "KillChild \<in> set (fst (shell_run s xs)) \<longleftrightarrow> snd (shell_run s xs) = Some (Inr ())"
  unfolding shell_run_def
  by (cases "shell_setup_err (fst s) (snd s)"; cases "sh_announce (snd s)")
    (simp_all add: driver_simps drive_kill)

end
