(* ===== verification/Serde_Value.thy ===== *)
theory Serde_Value
  imports TermHub_Prelude
begin

text \<open>
  The data model of the documents the program reads and writes (TOML for the configuration, JSON
  for the API): values, the readers that a derived \<open>Deserialize\<close> consists of, and equality of
  documents up to the order of keys. A derived reader takes a field by its key; a missing field
  is an error unless the field is an \<open>Option\<close> or has a \<open>default\<close>; unknown keys are ignored. The
  text formats themselves are parameters where they are used.
\<close>

named_theorems resp_intros \<open>readers do not depend on the order of keys\<close>

datatype val =
    VNull
  | VBool bool
  | VInt int
  | VStr string
  | VArr "val list"
  | VTab "(string \<times> val) list"

type_synonym tab = "(string \<times> val) list"

datatype serde_error =
    MissingField string
  | InvalidType
  | InvalidValue int
  | UnknownVariant string

type_synonym 'a reader = "val \<Rightarrow> serde_error + 'a"

subsection \<open>Readers\<close>

fun as_str :: "string reader" where
  "as_str (VStr s) = Inr s"
| "as_str _ = Inl InvalidType"

fun as_bool :: "bool reader" where
  "as_bool (VBool b) = Inr b"
| "as_bool _ = Inl InvalidType"

text \<open>An unsigned integer field rejects numbers that do not fit its width.\<close>

fun as_uint :: "'w::len word reader" where
  "as_uint (VInt i) =
     (if 0 \<le> i \<and> i < 2 ^ LENGTH('w) then Inr (word_of_int i) else Inl (InvalidValue i))"
| "as_uint _ = Inl InvalidType"

fun as_list :: "'a reader \<Rightarrow> 'a list reader" where
  "as_list rd (VArr vs) = map_result rd vs"
| "as_list rd _ = Inl InvalidType"

fun as_tab :: "(tab \<Rightarrow> serde_error + 'a) \<Rightarrow> 'a reader" where
  "as_tab f (VTab t) = f t"
| "as_tab f _ = Inl InvalidType"

definition req :: "string \<Rightarrow> 'a reader \<Rightarrow> tab \<Rightarrow> serde_error + 'a" where
  "req k rd t = (case map_of t k of None \<Rightarrow> Inl (MissingField k) | Some v \<Rightarrow> rd v)"

definition dflt :: "string \<Rightarrow> 'a \<Rightarrow> 'a reader \<Rightarrow> tab \<Rightarrow> serde_error + 'a" where
  "dflt k d rd t = (case map_of t k of None \<Rightarrow> Inr d | Some v \<Rightarrow> rd v)"

definition opt :: "string \<Rightarrow> 'a reader \<Rightarrow> tab \<Rightarrow> serde_error + 'a option" where
  "opt k rd t =
     (case map_of t k of
        None \<Rightarrow> Inr None
      | Some v \<Rightarrow> if v = VNull then Inr None else map_res Some (rd v))"

definition uint_val :: "'w::len word \<Rightarrow> val" where
  "uint_val w = VInt (uint w)"

lemma as_uint_val [simp]: "as_uint (uint_val w) = Inr (w :: 'w::len word)"
  using uint_range_size [of w] by (simp add: uint_val_def)

lemma as_list_map:
  "(\<And>x. x \<in> set xs \<Longrightarrow> rd (f x) = Inr x) \<Longrightarrow> as_list rd (VArr (map f xs)) = Inr xs"
  by (induction xs) auto

lemma req_simps [simp]:
  "map_of t k = Some v \<Longrightarrow> req k rd t = rd v"
  "map_of t k = None \<Longrightarrow> req k rd t = Inl (MissingField k)"
  by (simp_all add: req_def)

lemma dflt_simps [simp]:
  "map_of t k = Some v \<Longrightarrow> dflt k d rd t = rd v"
  "map_of t k = None \<Longrightarrow> dflt k d rd t = Inr d"
  by (simp_all add: dflt_def)

subsection \<open>Documents up to the order of keys\<close>

inductive veq :: "val \<Rightarrow> val \<Rightarrow> bool" where
  veq_Null: "veq VNull VNull"
| veq_Bool: "veq (VBool b) (VBool b)"
| veq_Int: "veq (VInt i) (VInt i)"
| veq_Str: "veq (VStr s) (VStr s)"
| veq_Arr: "list_all2 veq xs ys \<Longrightarrow> veq (VArr xs) (VArr ys)"
| veq_Tab: "(\<And>k. map_of a k = None \<longleftrightarrow> map_of b k = None) \<Longrightarrow>
    (\<And>k x y. map_of a k = Some x \<Longrightarrow> map_of b k = Some y \<Longrightarrow> veq x y) \<Longrightarrow>
    veq (VTab a) (VTab b)"

inductive_cases veq_TabE: "veq (VTab a) (VTab b)"

lemma veq_refl: "veq v v"
proof (induction v)
  case (VArr xs)
  then show ?case by (auto intro!: veq.intros simp: list.rel_refl_strong)
next
  case (VTab t)
  then show ?case by (intro veq.intros) (auto dest!: map_of_SomeD)
qed (auto intro: veq.intros)

definition resp :: "'a reader \<Rightarrow> bool" where
  "resp rd \<longleftrightarrow> (\<forall>v v'. veq v v' \<longrightarrow> rd v = rd v')"

definition tresp :: "(tab \<Rightarrow> 'a) \<Rightarrow> bool" where
  "tresp f \<longleftrightarrow> (\<forall>a b. veq (VTab a) (VTab b) \<longrightarrow> f a = f b)"

lemma respD: "resp rd \<Longrightarrow> veq v v' \<Longrightarrow> rd v = rd v'"
  by (simp add: resp_def)

lemma resp_as_str [resp_intros]: "resp as_str"
  by (auto simp: resp_def elim: veq.cases)

lemma resp_as_bool [resp_intros]: "resp as_bool"
  by (auto simp: resp_def elim: veq.cases)

lemma resp_as_uint [resp_intros]: "resp as_uint"
  by (auto simp: resp_def elim: veq.cases)

lemma resp_as_list [resp_intros]:
  assumes "resp rd"
  shows "resp (as_list rd)"
proof -
  have "map_result rd xs = map_result rd ys" if "list_all2 veq xs ys" for xs ys
    using that by induction (simp_all add: respD [OF assms])
  then show ?thesis by (auto simp: resp_def elim: veq.cases)
qed

lemma resp_as_tab [resp_intros]: "tresp f \<Longrightarrow> resp (as_tab f)"
  unfolding resp_def tresp_def
proof (intro allI impI)
  fix v v'
  assume f: "\<forall>a b. veq (VTab a) (VTab b) \<longrightarrow> f a = f b" and v: "veq v v'"
  from v show "as_tab f v = as_tab f v'"
    by (cases rule: veq.cases) (use f v in auto)
qed

lemma tresp_const [resp_intros]: "tresp (\<lambda>t. c)"
  by (simp add: tresp_def)

lemma tresp_if [resp_intros]:
  "tresp f \<Longrightarrow> tresp g \<Longrightarrow> tresp (\<lambda>t. if b then f t else g t)"
  by (simp add: tresp_def)

lemma tresp_bind [resp_intros]:
  assumes "tresp f" and "\<And>x. tresp (g x)"
  shows "tresp (\<lambda>t. rbind (f t) (\<lambda>x. g x t))"
  using assms by (auto simp: tresp_def)

lemma veq_Tab_None: "veq (VTab a) (VTab b) \<Longrightarrow> map_of a k = None \<longleftrightarrow> map_of b k = None"
  by (erule veq_TabE) blast

lemma veq_Tab_Some:
  "veq (VTab a) (VTab b) \<Longrightarrow> map_of a k = Some x \<Longrightarrow> map_of b k = Some y \<Longrightarrow> veq x y"
  by (erule veq_TabE) blast

lemma tab_lookup:
  assumes "veq (VTab a) (VTab b)"
  obtains "map_of a k = None" "map_of b k = None"
  | x y where "map_of a k = Some x" "map_of b k = Some y" "veq x y"
proof (cases "map_of a k")
  case None
  then show ?thesis using that(1) veq_Tab_None [OF assms, of k] by simp
next
  case (Some x)
  then obtain y where "map_of b k = Some y" using veq_Tab_None [OF assms, of k] by auto
  with Some show ?thesis using that(2) veq_Tab_Some [OF assms] by blast
qed

lemma tresp_req [resp_intros]: "resp rd \<Longrightarrow> tresp (req k rd)"
  unfolding tresp_def req_def by (auto elim!: tab_lookup [where k = k] simp: respD)

lemma tresp_dflt [resp_intros]: "resp rd \<Longrightarrow> tresp (dflt k d rd)"
  unfolding tresp_def dflt_def by (auto elim!: tab_lookup [where k = k] simp: respD)

lemma veq_Null_iff: "veq x y \<Longrightarrow> x = VNull \<longleftrightarrow> y = VNull"
  by (auto elim: veq.cases)

lemma tresp_opt [resp_intros]: "resp rd \<Longrightarrow> tresp (opt k rd)"
  unfolding tresp_def opt_def
  by (auto elim!: tab_lookup [where k = k] simp: respD dest: veq_Null_iff)

end
