(* ===== verification/Config.thy ===== *)
theory Config
  imports Serde_Value
begin

text \<open>
  The configuration and its document form, \<open>crates/termhub-core/src/config.rs\<close>. The records are
  the source's structs and \<open>UpstreamSpec\<close> its enum; the readers and writers are what the derived
  \<open>Deserialize\<close> and \<open>Serialize\<close> do with the fields and attributes in the source: every
  \<open>#[serde(default = ...)]\<close> is a \<^const>\<open>dflt\<close>, every \<open>Option\<close> an \<^const>\<open>opt\<close>, the enum is a
  table whose \<open>type\<close> is the snake-case name of the variant, and a \<open>None\<close> is not written.
  \<open>usize\<close> has 64 bits.
\<close>

subsection \<open>The structs\<close>

record ServerConfig =
  sv_listen :: string
  sv_host_key_path :: string
  sv_max_clients_per_session :: u64
  sv_api_listen :: string

record UiConfig =
  ui_start_minimized :: bool
  ui_auto_start :: bool

record PtySize =
  pty_cols :: u16
  pty_rows :: u16

datatype UpstreamSpec =
    Loopback
  | Serial (s_port: string) (s_baud: u32) (s_data_bits: byte) (s_parity: string)
      (s_stop_bits: byte) (s_flow: string) (s_input_eol: string) (s_output_eol: string)
  | Ssh (h_host: string) (h_port: u16) (h_user: string) (h_password: string)
  | Telnet (t_host: string) (t_port: u16)
  | RawTcp (r_host: string) (r_port: u16)
  | LocalShell (l_command: string) (l_args: "string list")
  | HttpProxy (p_listen: string) (p_target: string) (p_protocol: string)

record SessionConfig =
  sc_name :: string
  sc_password :: string
  sc_ssh_user :: string
  sc_listen :: string
  sc_auto_reconnect :: bool
  sc_launch_on_startup :: bool
  sc_pty_override :: "PtySize option"
  sc_upstream :: UpstreamSpec

record Config =
  cf_server :: ServerConfig
  cf_ui :: UiConfig
  cf_sessions :: "SessionConfig list"

subsection \<open>Defaults\<close>

definition default_hostkey :: string where "default_hostkey = ''host_key''"
definition default_max_clients :: u64 where "default_max_clients = 16"
definition default_api_listen :: string where "default_api_listen = ''127.0.0.1:2223''"
definition yes :: bool where "yes = True"
definition default_ssh_user :: string where "default_ssh_user = ''admin''"
definition default_listen :: string where "default_listen = ''0.0.0.0:2222''"
definition default_8 :: byte where "default_8 = 8"
definition default_1 :: byte where "default_1 = 1"
definition default_parity :: string where "default_parity = ''none''"
definition default_flow :: string where "default_flow = ''none''"
definition default_eol :: string where "default_eol = ''as_is''"
definition default_protocol :: string where "default_protocol = ''tcp''"

definition ui_default :: UiConfig where
  "ui_default = \<lparr>ui_start_minimized = False, ui_auto_start = False\<rparr>"

subsection \<open>Reading\<close>

definition read_server :: "ServerConfig reader" where
  "read_server = as_tab (\<lambda>t.
     rbind (req ''listen'' as_str t) (\<lambda>l.
     rbind (dflt ''host_key_path'' default_hostkey as_str t) (\<lambda>h.
     rbind (dflt ''max_clients_per_session'' default_max_clients as_uint t) (\<lambda>m.
     rbind (dflt ''api_listen'' default_api_listen as_str t) (\<lambda>a.
     Inr \<lparr>sv_listen = l, sv_host_key_path = h, sv_max_clients_per_session = m,
          sv_api_listen = a\<rparr>)))))"

definition read_ui :: "UiConfig reader" where
  "read_ui = as_tab (\<lambda>t.
     rbind (dflt ''start_minimized'' False as_bool t) (\<lambda>m.
     rbind (dflt ''auto_start'' False as_bool t) (\<lambda>a.
     Inr \<lparr>ui_start_minimized = m, ui_auto_start = a\<rparr>)))"

definition read_pty :: "PtySize reader" where
  "read_pty = as_tab (\<lambda>t.
     rbind (req ''cols'' as_uint t) (\<lambda>c.
     rbind (req ''rows'' as_uint t) (\<lambda>r.
     Inr \<lparr>pty_cols = c, pty_rows = r\<rparr>)))"

definition read_serial :: "tab \<Rightarrow> serde_error + UpstreamSpec" where
  "read_serial t =
     rbind (req ''port'' as_str t) (\<lambda>port.
     rbind (req ''baud'' as_uint t) (\<lambda>baud.
     rbind (dflt ''data_bits'' default_8 as_uint t) (\<lambda>data_bits.
     rbind (dflt ''parity'' default_parity as_str t) (\<lambda>parity.
     rbind (dflt ''stop_bits'' default_1 as_uint t) (\<lambda>stop_bits.
     rbind (dflt ''flow'' default_flow as_str t) (\<lambda>flow.
     rbind (dflt ''input_eol'' default_eol as_str t) (\<lambda>input_eol.
     rbind (dflt ''output_eol'' default_eol as_str t) (\<lambda>output_eol.
     Inr (Serial port baud data_bits parity stop_bits flow input_eol output_eol)))))))))"

definition read_ssh :: "tab \<Rightarrow> serde_error + UpstreamSpec" where
  "read_ssh t =
     rbind (req ''host'' as_str t) (\<lambda>host.
     rbind (req ''port'' as_uint t) (\<lambda>port.
     rbind (req ''user'' as_str t) (\<lambda>user.
     rbind (req ''password'' as_str t) (\<lambda>password.
     Inr (Ssh host port user password)))))"

definition read_host_port :: "(string \<Rightarrow> u16 \<Rightarrow> UpstreamSpec) \<Rightarrow> tab \<Rightarrow> serde_error + UpstreamSpec" where
  "read_host_port con t =
     rbind (req ''host'' as_str t) (\<lambda>host.
     rbind (req ''port'' as_uint t) (\<lambda>port.
     Inr (con host port)))"

definition read_shell :: "tab \<Rightarrow> serde_error + UpstreamSpec" where
  "read_shell t =
     rbind (req ''command'' as_str t) (\<lambda>command.
     rbind (dflt ''args'' [] (as_list as_str) t) (\<lambda>args.
     Inr (LocalShell command args)))"

definition read_proxy :: "tab \<Rightarrow> serde_error + UpstreamSpec" where
  "read_proxy t =
     rbind (req ''listen'' as_str t) (\<lambda>listen.
     rbind (req ''target'' as_str t) (\<lambda>target.
     rbind (dflt ''protocol'' default_protocol as_str t) (\<lambda>protocol.
     Inr (HttpProxy listen target protocol))))"

definition read_variant :: "string \<Rightarrow> tab \<Rightarrow> serde_error + UpstreamSpec" where
  "read_variant ty t =
     (if ty = ''loopback'' then Inr Loopback
      else if ty = ''serial'' then read_serial t
      else if ty = ''ssh'' then read_ssh t
      else if ty = ''telnet'' then read_host_port Telnet t
      else if ty = ''raw_tcp'' then read_host_port RawTcp t
      else if ty = ''local_shell'' then read_shell t
      else if ty = ''http_proxy'' then read_proxy t
      else Inl (UnknownVariant ty))"

definition read_upstream :: "UpstreamSpec reader" where
  "read_upstream = as_tab (\<lambda>t. rbind (req ''type'' as_str t) (\<lambda>ty. read_variant ty t))"

definition read_session :: "SessionConfig reader" where
  "read_session = as_tab (\<lambda>t.
     rbind (req ''name'' as_str t) (\<lambda>n.
     rbind (req ''password'' as_str t) (\<lambda>p.
     rbind (dflt ''ssh_user'' default_ssh_user as_str t) (\<lambda>u.
     rbind (dflt ''listen'' default_listen as_str t) (\<lambda>l.
     rbind (dflt ''auto_reconnect'' yes as_bool t) (\<lambda>ar.
     rbind (dflt ''launch_on_startup'' yes as_bool t) (\<lambda>ls.
     rbind (opt ''pty_override'' read_pty t) (\<lambda>pty.
     rbind (req ''upstream'' read_upstream t) (\<lambda>up.
     Inr \<lparr>sc_name = n, sc_password = p, sc_ssh_user = u, sc_listen = l, sc_auto_reconnect = ar,
          sc_launch_on_startup = ls, sc_pty_override = pty, sc_upstream = up\<rparr>)))))))))"

definition read_config :: "Config reader" where
  "read_config = as_tab (\<lambda>t.
     rbind (req ''server'' read_server t) (\<lambda>sv.
     rbind (dflt ''ui'' ui_default read_ui t) (\<lambda>ui.
     rbind (dflt ''sessions'' [] (as_list read_session) t) (\<lambda>ss.
     Inr \<lparr>cf_server = sv, cf_ui = ui, cf_sessions = ss\<rparr>))))"

subsection \<open>Writing\<close>

definition server_val :: "ServerConfig \<Rightarrow> val" where
  "server_val s = VTab
     [(''listen'', VStr (sv_listen s)), (''host_key_path'', VStr (sv_host_key_path s)),
      (''max_clients_per_session'', uint_val (sv_max_clients_per_session s)),
      (''api_listen'', VStr (sv_api_listen s))]"

definition ui_val :: "UiConfig \<Rightarrow> val" where
  "ui_val u = VTab
     [(''start_minimized'', VBool (ui_start_minimized u)), (''auto_start'', VBool (ui_auto_start u))]"

definition pty_val :: "PtySize \<Rightarrow> val" where
  "pty_val p = VTab [(''cols'', uint_val (pty_cols p)), (''rows'', uint_val (pty_rows p))]"

fun upstream_tab :: "UpstreamSpec \<Rightarrow> tab" where
  "upstream_tab Loopback = [(''type'', VStr ''loopback'')]"
| "upstream_tab (Serial port baud db pa sb fl ie oe) =
     [(''type'', VStr ''serial''), (''port'', VStr port), (''baud'', uint_val baud),
      (''data_bits'', uint_val db), (''parity'', VStr pa), (''stop_bits'', uint_val sb),
      (''flow'', VStr fl), (''input_eol'', VStr ie), (''output_eol'', VStr oe)]"
| "upstream_tab (Ssh host port user password) =
     [(''type'', VStr ''ssh''), (''host'', VStr host), (''port'', uint_val port),
      (''user'', VStr user), (''password'', VStr password)]"
| "upstream_tab (Telnet host port) =
     [(''type'', VStr ''telnet''), (''host'', VStr host), (''port'', uint_val port)]"
| "upstream_tab (RawTcp host port) =
     [(''type'', VStr ''raw_tcp''), (''host'', VStr host), (''port'', uint_val port)]"
| "upstream_tab (LocalShell command args) =
     [(''type'', VStr ''local_shell''), (''command'', VStr command), (''args'', VArr (map VStr args))]"
| "upstream_tab (HttpProxy listen target protocol) =
     [(''type'', VStr ''http_proxy''), (''listen'', VStr listen), (''target'', VStr target),
      (''protocol'', VStr protocol)]"

definition session_val :: "SessionConfig \<Rightarrow> val" where
  "session_val s = VTab
     ([(''name'', VStr (sc_name s)), (''password'', VStr (sc_password s)),
       (''ssh_user'', VStr (sc_ssh_user s)), (''listen'', VStr (sc_listen s)),
       (''auto_reconnect'', VBool (sc_auto_reconnect s)),
       (''launch_on_startup'', VBool (sc_launch_on_startup s))]
      @ (case sc_pty_override s of None \<Rightarrow> [] | Some p \<Rightarrow> [(''pty_override'', pty_val p)])
      @ [(''upstream'', VTab (upstream_tab (sc_upstream s)))])"

definition config_val :: "Config \<Rightarrow> val" where
  "config_val c = VTab
     [(''server'', server_val (cf_server c)), (''ui'', ui_val (cf_ui c)),
      (''sessions'', VArr (map session_val (cf_sessions c)))]"

subsection \<open>Round trips\<close>

lemma read_server_val [simp]: "read_server (server_val s) = Inr s"
  by (simp add: read_server_def server_val_def)

lemma read_ui_val [simp]: "read_ui (ui_val u) = Inr u"
  by (simp add: read_ui_def ui_val_def)

lemma read_pty_val [simp]: "read_pty (pty_val p) = Inr p"
  by (simp add: read_pty_def pty_val_def)

lemma read_strings [simp]: "map_result as_str (map VStr xs) = Inr xs"
  by (induction xs) simp_all

lemma read_upstream_val [simp]: "read_upstream (VTab (upstream_tab u)) = Inr u"
  by (cases u)
    (simp_all add: read_upstream_def read_variant_def read_serial_def read_ssh_def
      read_host_port_def read_shell_def read_proxy_def)

lemma pty_val_not_null [simp]: "pty_val p \<noteq> VNull"
  by (simp add: pty_val_def)

lemma read_session_val [simp]: "read_session (session_val s) = Inr s"
  by (cases "sc_pty_override s") (simp_all add: read_session_def session_val_def opt_def)

lemma read_config_val: "read_config (config_val c) = Inr c"
  using as_list_map [of "cf_sessions c" read_session session_val]
  by (simp add: read_config_def config_val_def)

subsection \<open>The order of keys\<close>

lemma resp_read_server [resp_intros]: "resp read_server"
  unfolding read_server_def by (intro resp_intros)

lemma resp_read_ui [resp_intros]: "resp read_ui"
  unfolding read_ui_def by (intro resp_intros)

lemma resp_read_pty [resp_intros]: "resp read_pty"
  unfolding read_pty_def by (intro resp_intros)

lemma tresp_read_variant [resp_intros]: "tresp (read_variant ty)"
  unfolding read_variant_def read_serial_def [abs_def] read_ssh_def [abs_def]
    read_host_port_def [abs_def] read_shell_def [abs_def] read_proxy_def [abs_def]
  by (intro resp_intros)

lemma resp_read_upstream [resp_intros]: "resp read_upstream"
  unfolding read_upstream_def by (intro resp_intros)

lemma resp_read_session [resp_intros]: "resp read_session"
  unfolding read_session_def by (intro resp_intros)

lemma resp_read_config [resp_intros]: "resp read_config"
  unfolding read_config_def by (intro resp_intros)

subsection \<open>Properties\<close>

text \<open>
  C9. Configurations survive serialisation. Reading a document that is, up to the order of the keys
  in its tables, the one written for a configuration gives exactly that configuration, for every
  configuration: every variant of the upstream with every value of its fields, integers at the
  ends of their ranges, and with or without the optional terminal size.
\<close>
theorem config_document_roundtrip:
  "veq (config_val c) v \<Longrightarrow> read_config v = Inr c"
  using respD [OF resp_read_config] read_config_val by metis

text \<open>A configuration with one session, its tables written in another order.\<close>
theorem config_document_roundtrip_witness:
  "read_config (VTab
     [(''ui'', VTab [(''auto_start'', VBool True), (''start_minimized'', VBool False)]),
      (''server'', VTab [(''api_listen'', VStr ''127.0.0.1:9''), (''listen'', VStr ''h:1''),
         (''max_clients_per_session'', VInt 4), (''host_key_path'', VStr ''k'')]),
      (''sessions'', VArr [])]) =
   Inr \<lparr>cf_server = \<lparr>sv_listen = ''h:1'', sv_host_key_path = ''k'', sv_max_clients_per_session = 4,
          sv_api_listen = ''127.0.0.1:9''\<rparr>,
        cf_ui = \<lparr>ui_start_minimized = False, ui_auto_start = True\<rparr>, cf_sessions = []\<rparr>"
proof (rule config_document_roundtrip)
  show "veq (config_val \<lparr>cf_server = \<lparr>sv_listen = ''h:1'', sv_host_key_path = ''k'',
          sv_max_clients_per_session = 4, sv_api_listen = ''127.0.0.1:9''\<rparr>,
        cf_ui = \<lparr>ui_start_minimized = False, ui_auto_start = True\<rparr>, cf_sessions = []\<rparr>)
     (VTab
     [(''ui'', VTab [(''auto_start'', VBool True), (''start_minimized'', VBool False)]),
      (''server'', VTab [(''api_listen'', VStr ''127.0.0.1:9''), (''listen'', VStr ''h:1''),
         (''max_clients_per_session'', VInt 4), (''host_key_path'', VStr ''k'')]),
      (''sessions'', VArr [])])"
    unfolding config_val_def server_val_def ui_val_def uint_val_def
    by (intro veq_Tab) (auto split: if_splits intro!: veq.intros)
qed

lemmas defaults = default_hostkey_def default_max_clients_def default_api_listen_def ui_default_def
  default_ssh_user_def default_listen_def yes_def default_8_def default_1_def
  default_parity_def default_flow_def default_eol_def default_protocol_def

lemma session_minimal:
  "read_session (VTab [(''name'', VStr n), (''password'', VStr p), (''upstream'', VTab (upstream_tab u))]) =
     Inr \<lparr>sc_name = n, sc_password = p, sc_ssh_user = ''admin'', sc_listen = ''0.0.0.0:2222'',
          sc_auto_reconnect = True, sc_launch_on_startup = True, sc_pty_override = None,
          sc_upstream = u\<rparr>"
  by (simp add: read_session_def opt_def defaults)

text \<open>
  Every field with a default may be left out, and its value is then the documented one: a
  document with only the server's address, a session with only name, password and upstream, a
  serial line with only its port and rate (8 data bits, no parity, 1 stop bit, no flow control,
  line ends as they are), a shell without arguments and a proxy without protocol. Leaving out a
  field without a default is an error that names it.
\<close>
theorem config_defaults:
  "read_config (VTab [(''server'', VTab [(''listen'', VStr l)])]) =
     Inr \<lparr>cf_server = \<lparr>sv_listen = l, sv_host_key_path = ''host_key'',
            sv_max_clients_per_session = 16, sv_api_listen = ''127.0.0.1:2223''\<rparr>,
          cf_ui = \<lparr>ui_start_minimized = False, ui_auto_start = False\<rparr>, cf_sessions = []\<rparr> \<and>
   read_session (VTab [(''name'', VStr n), (''password'', VStr p), (''upstream'', VTab (upstream_tab u))]) =
     Inr \<lparr>sc_name = n, sc_password = p, sc_ssh_user = ''admin'', sc_listen = ''0.0.0.0:2222'',
          sc_auto_reconnect = True, sc_launch_on_startup = True, sc_pty_override = None,
          sc_upstream = u\<rparr> \<and>
   read_upstream (VTab [(''type'', VStr ''serial''), (''port'', VStr port), (''baud'', uint_val baud)]) =
     Inr (Serial port baud 8 ''none'' 1 ''none'' ''as_is'' ''as_is'') \<and>
   read_upstream (VTab [(''type'', VStr ''local_shell''), (''command'', VStr c)]) = Inr (LocalShell c []) \<and>
   read_upstream (VTab [(''type'', VStr ''http_proxy''), (''listen'', VStr l), (''target'', VStr tg)]) =
     Inr (HttpProxy l tg ''tcp'') \<and>
   read_session (VTab [(''name'', VStr n), (''password'', VStr p)]) = Inl (MissingField ''upstream'') \<and>
   read_upstream (VTab [(''type'', VStr ''telnet''), (''host'', VStr h)]) = Inl (MissingField ''port'')"
  unfolding session_minimal
  by (simp add: read_config_def read_server_def read_session_def opt_def read_upstream_def
      read_variant_def read_serial_def read_shell_def read_proxy_def read_host_port_def defaults)

end
