(* ===== verification/Factory.thy ===== *)
theory Factory
  imports Config Telnet Stream_Drivers Local_Shell
begin

text \<open>
  From a configured upstream to its driver, \<open>crates/termhub-drivers/src/factory.rs\<close>, and what
  the drivers have in common.
\<close>

datatype driver =
    LoopbackDriver
  | SerialD SerialDriver
  | SshClientDriver string u16 string string
  | TelnetDriver string u16
  | RawTcpDriver string u16
  | LocalShellDriver shell_driver

fun create_driver :: "UpstreamSpec \<Rightarrow> string + driver" where
  "create_driver Loopback = Inr LoopbackDriver"
| "create_driver (Serial port baud data_bits parity stop_bits flow input_eol output_eol) =
     rbind (parse_serial_params data_bits parity stop_bits flow) (\<lambda>params.
     Inr (SerialD \<lparr>sd_port = port, sd_baud = baud, sd_params = params,
       sd_input_eol = eol_parse input_eol, sd_output_eol = eol_parse output_eol\<rparr>))"
| "create_driver (Ssh host port user password) = Inr (SshClientDriver host port user password)"
| "create_driver (UpstreamSpec.Telnet host port) = Inr (TelnetDriver host port)"
| "create_driver (RawTcp host port) = Inr (RawTcpDriver host port)"
| "create_driver (LocalShell command args) =
     Inr (LocalShellDriver \<lparr>lsh_command = command, lsh_args = args, lsh_cols = 80, lsh_rows = 24\<rparr>)"
| "create_driver (HttpProxy listen target protocol) =
     Inl ''HttpProxy does not use UpstreamDriver; it runs as a standalone TCP proxy''"

lemma parse_serial_params_ok:
  "is_ok (parse_serial_params d p s f) \<longleftrightarrow>
     d \<in> {5, 6, 7, 8} \<and> p \<in> {''none'', ''even'', ''odd''} \<and> s \<in> {1, 2} \<and>
     f \<in> {''none'', ''hardware'', ''software''}"
  by (auto simp: parse_serial_params_def result_simps parse_data_bits_def parse_parity_def
      parse_stop_bits_def parse_flow_def split: if_splits)

text \<open>
  The factory makes a driver for every upstream except a proxy and a serial line with invalid
  parameters: data bits other than 5 to 8, a parity other than none, even or odd, stop bits other
  than 1 or 2, a flow control other than none, hardware or software. In particular it accepts a
  serial line whose parameters are all left at their defaults.
\<close>
theorem factory_total:
  "(is_ok (create_driver u) \<longleftrightarrow>
     (case u of
        HttpProxy l t p \<Rightarrow> False
      | Serial port baud d p s f i e \<Rightarrow>
          d \<in> {5, 6, 7, 8} \<and> p \<in> {''none'', ''even'', ''odd''} \<and> s \<in> {1, 2} \<and>
          f \<in> {''none'', ''hardware'', ''software''}
      | _ \<Rightarrow> True)) \<and>
   is_ok (create_driver (Serial port baud default_8 default_parity default_1 default_flow
            default_eol default_eol))"
proof
  have ok: "is_ok (rbind m (\<lambda>x. Inr (f x))) = is_ok m" for m :: "'e + 'a" and f :: "'a \<Rightarrow> 'b"
    by (cases m) simp_all
  show "is_ok (create_driver u) \<longleftrightarrow>
     (case u of
        HttpProxy l t p \<Rightarrow> False
      | Serial port baud d p s f i e \<Rightarrow>
          d \<in> {5, 6, 7, 8} \<and> p \<in> {''none'', ''even'', ''odd''} \<and> s \<in> {1, 2} \<and>
          f \<in> {''none'', ''hardware'', ''software''}
      | _ \<Rightarrow> True)"
    by (cases u) (simp_all only: create_driver.simps ok parse_serial_params_ok UpstreamSpec.case is_ok.simps)
  show "is_ok (create_driver (Serial port baud default_8 default_parity default_1 default_flow
            default_eol default_eol))"
    unfolding create_driver.simps ok parse_serial_params_ok
    by (simp add: default_8_def default_parity_def default_1_def default_flow_def)
qed


text \<open>
  A peer that stops reading: once the write has been started and does not return, the raw TCP
  driver stays inside it whatever happens next, a triggered token included.
\<close>

lemma stalled_write_outlives_cancel:
  assumes "tcp_connect s = None" and "tcp_announce s = None" and "CallsReturn \<notin> set evs"
  shows "lv_place (live_run (tcp_parts s) ([SetupReturns, Fires (TcpInput (Some b) we)] @ evs)) =
    InBranch () (TcpInput (Some b) we)"
proof -
  let ?l = "live_run (tcp_parts s) [SetupReturns, Fires (TcpInput (Some b) we)]"
  have p: "lv_place ?l = InBranch () (TcpInput (Some b) we)"
    using assms(1,2) by (simp add: live_run_def live_init_def tcp_parts_def setup_result_def send_evt_def settle_def)
  have "lv_place (fold (live_step (tcp_parts s)) evs l) = lv_place l"
    if "lv_place l = InBranch () (TcpInput (Some b) we)" for l
    using assms(3) that
  proof (induction evs arbitrary: l)
    case (Cons ev evs)
    then have "lv_place (live_step (tcp_parts s) ev l) = InBranch () (TcpInput (Some b) we)"
      by (cases ev) auto
    with Cons show ?case by (metis fold_simps(2) list.set_intros(2))
  qed simp
  with p show ?thesis by (simp add: live_run_append del: append.simps)
qed

definition evt_closed :: "string \<Rightarrow> bool" where
  "evt_closed m = (strip_prefix ''evt closed: '' m \<noteq> None \<or> strip_prefix ''evt_tx closed: '' m \<noteq> None)"

lemma evt_closed_intros [intro]:
  "evt_closed (''evt closed: '' @ e)" "evt_closed (''evt_tx closed: '' @ e)"
  unfolding evt_closed_def strip_prefix_append by simp_all

lemma loopback_body_fatal: "snd (loopback_body st x) = Inl (Inl (Fatal m)) \<Longrightarrow> evt_closed m"
  by (cases "(st, x)" rule: loopback_body.cases) (auto simp only: loopback_body.simps send_evt_fatal snd_conv sum.inject)

lemma tcp_body_fatal: "snd (tcp_body st x) = Inl (Inl (Fatal m)) \<Longrightarrow> evt_closed m"
  by (cases "(st, x)" rule: tcp_body.cases)
    (auto simp: send_evt_fatal simp del: append_Cons append_Nil split: if_splits option.splits)

lemma serial_body_fatal: "snd (serial_body d st x) = Inl (Inl (Fatal m)) \<Longrightarrow> evt_closed m"
  by (cases "(d, st, x)" rule: serial_body.cases)
    (auto simp: send_evt_fatal simp del: append_Cons append_Nil split: if_splits option.splits)

lemma ssh_body_fatal: "snd (ssh_body st x) = Inl (Inl (Fatal m)) \<Longrightarrow> evt_closed m"
  by (cases "(st, x)" rule: ssh_body.cases)
    (auto simp: send_evt_fatal simp del: append_Cons append_Nil split: if_splits option.splits)

lemma shell_body_fatal: "snd (shell_body st x) \<noteq> Inl (Inl (Fatal m))"
  by (cases "(st, x)" rule: shell_body.cases) auto

lemma telnet_body_fatal: "snd (telnet_body st x) = Inl (Inl (Fatal m)) \<Longrightarrow> evt_closed m"
  by (cases "(st, x)" rule: telnet_body.cases)
    (auto simp: send_evt_def Let_def simp del: append_Cons append_Nil
      split: if_splits option.splits prod.splits sum.splits)

lemma serial_open_fatal:
  "map_option (\<lambda>e. classify_open_error e port) op = Some (Fatal m) \<Longrightarrow>
   \<exists>k e. op = Some (k, e) \<and> (k = NoDevice \<or> k = InvalidInput)"
  by (cases op) (auto simp: classify_open_error_def split: serial_kind.splits)

lemma ssh_setup_fatal:
  "ssh_setup_err s = Some (Fatal m) \<Longrightarrow>
   ssh_connect s = None \<and> ssh_auth s = Inr False \<and> m = ''ssh auth rejected''"
  by (auto simp: ssh_setup_err_def split: option.splits sum.splits if_splits)

text \<open>
  C23. Only hopeless failures are final (the runner does not retry a \<open>Fatal\<close> error). Apart from a hub
  that no longer takes events, no failure of a connection, in any driver, at any point, is
  \<open>Fatal\<close>, but: a serial device that does not exist or rejects its parameters, an SSH server that
  answers and rejects the password, and a local shell whose pseudo-terminal or process cannot be
  set up.
\<close>
theorem fatal_only_when_hopeless:
  "(snd (loopback_run ann xs1) = Some (Inl (Fatal m1)) \<longrightarrow> evt_closed m1) \<and>
   (snd (tcp_run s2 xs2) = Some (Inl (Fatal m2)) \<longrightarrow> evt_closed m2) \<and>
   (snd (telnet_run s3 xs3) = Some (Inl (Fatal m3)) \<longrightarrow> evt_closed m3) \<and>
   (snd (serial_run s4 xs4) = Some (Inl (Fatal m4)) \<longrightarrow> evt_closed m4 \<or>
      (\<exists>k e. ser_open (snd s4) = Some (k, e) \<and> (k = NoDevice \<or> k = InvalidInput))) \<and>
   (snd (ssh_run s5 xs5) = Some (Inl (Fatal m5)) \<longrightarrow> evt_closed m5 \<or>
      (ssh_connect s5 = None \<and> ssh_auth s5 = Inr False \<and> m5 = ''ssh auth rejected'')) \<and>
   (snd (shell_run s6 xs6) = Some (Inl (Fatal m6)) \<longrightarrow> evt_closed m6 \<or>
      shell_setup_err (fst s6) (snd s6) = Some (Fatal m6))"
proof (intro conjI impI)
  show "snd (loopback_run ann xs1) = Some (Inl (Fatal m1)) \<Longrightarrow> evt_closed m1"
    unfolding loopback_run_def
    by (erule start_driver_fatal) (blast dest: loopback_body_fatal, blast, blast)
  show "snd (tcp_run s2 xs2) = Some (Inl (Fatal m2)) \<Longrightarrow> evt_closed m2"
    unfolding tcp_run_def
    by (erule start_driver_fatal) (blast dest: tcp_body_fatal, blast, blast)
  show "snd (telnet_run s3 xs3) = Some (Inl (Fatal m3)) \<Longrightarrow> evt_closed m3"
    unfolding telnet_run_def
    by (erule start_driver_fatal) (blast dest: telnet_body_fatal, blast, blast)
  show "snd (serial_run s4 xs4) = Some (Inl (Fatal m4)) \<Longrightarrow> evt_closed m4 \<or>
      (\<exists>k e. ser_open (snd s4) = Some (k, e) \<and> (k = NoDevice \<or> k = InvalidInput))"
    unfolding serial_run_def
    by (erule start_driver_fatal)
      (rule disjI1, erule serial_body_fatal, rule disjI2, erule serial_open_fatal, blast)
  show "snd (ssh_run s5 xs5) = Some (Inl (Fatal m5)) \<Longrightarrow> evt_closed m5 \<or>
      (ssh_connect s5 = None \<and> ssh_auth s5 = Inr False \<and> m5 = ''ssh auth rejected'')"
    unfolding ssh_run_def
    by (erule start_driver_fatal)
      (rule disjI1, erule ssh_body_fatal, rule disjI2, erule ssh_setup_fatal, blast)
  show "snd (shell_run s6 xs6) = Some (Inl (Fatal m6)) \<Longrightarrow> evt_closed m6 \<or>
      shell_setup_err (fst s6) (snd s6) = Some (Fatal m6)"
    unfolding shell_run_def
    by (erule start_driver_fatal) (use shell_body_fatal in blast)+
qed

definition demo_shell :: shell_driver where
  "demo_shell = \<lparr>lsh_command = ''sh'', lsh_args = [], lsh_cols = 80, lsh_rows = 24\<rparr>"

definition demo_serial :: SerialDriver where
  "demo_serial = \<lparr>sd_port = ''COM9'', sd_baud = 9600,
     sd_params = \<lparr>sp_data_bits = Eight, sp_parity = ParityNone, sp_stop_bits = One, sp_flow = FlowNone\<rparr>,
     sd_input_eol = AsIs, sd_output_eol = AsIs\<rparr>"

definition rejected_ssh :: ssh_setup where
  "rejected_ssh = \<lparr>ssh_connect = None, ssh_auth = Inr False, ssh_open = None, ssh_pty = None,
     ssh_shell = None, ssh_announce = None\<rparr>"

definition no_pty :: shell_setup where
  "no_pty = \<lparr>sh_openpty = Some ''none left'', sh_spawn = None, sh_reader = None, sh_writer = None,
     sh_announce = None\<rparr>"

text \<open>One fatal run of each driver.\<close>
theorem fatal_only_when_hopeless_witness:
  "evt_closed ''evt_tx closed: gone'' \<and> evt_closed ''evt closed: gone'' \<and>
   (\<exists>e. snd (serial_run (demo_serial, \<lparr>ser_open = Some (NoDevice, e), ser_announce = None\<rparr>) []) =
      Some (Inl (Fatal ''no such serial device: COM9''))) \<and>
   snd (ssh_run rejected_ssh []) = Some (Inl (Fatal ''ssh auth rejected'')) \<and>
   ssh_auth rejected_ssh = Inr False \<and>
   shell_setup_err demo_shell no_pty = Some (Fatal ''openpty: none left'')"
proof -
  let ?ser = "(demo_serial, \<lparr>ser_open = Some (NoDevice, ''gone''), ser_announce = None\<rparr>)"
  have 1: "snd (loopback_run (Some ''gone'') []) = Some (Inl (Fatal ''evt_tx closed: gone''))"
    by (simp add: loopback_run_def driver_simps)
  have 2: "snd (tcp_run \<lparr>tcp_connect = None, tcp_announce = Some ''gone''\<rparr> []) =
      Some (Inl (Fatal ''evt closed: gone''))"
    by (simp add: tcp_run_def driver_simps)
  have 3: "snd (telnet_run \<lparr>tel_connect = None, tel_announce = Some ''gone''\<rparr> []) =
      Some (Inl (Fatal ''evt closed: gone''))"
    by (simp add: telnet_run_def driver_simps)
  have 4: "snd (serial_run ?ser []) = Some (Inl (Fatal ''no such serial device: COM9''))"
    by (simp add: serial_run_def driver_simps classify_open_error_def demo_serial_def)
  have 5: "snd (ssh_run rejected_ssh []) = Some (Inl (Fatal ''ssh auth rejected''))"
    by (simp add: ssh_run_def driver_simps ssh_setup_err_def rejected_ssh_def)
  have 6: "snd (shell_run (demo_shell, no_pty) []) = Some (Inl (Fatal ''openpty: none left''))"
    by (simp add: shell_run_def driver_simps shell_setup_err_def no_pty_def)
  note t = fatal_only_when_hopeless [of "Some ''gone''" "[]" "''evt_tx closed: gone''"
      "\<lparr>tcp_connect = None, tcp_announce = Some ''gone''\<rparr>" "[]" "''evt closed: gone''"
      "\<lparr>tel_connect = None, tel_announce = Some ''gone''\<rparr>" "[]" "''evt closed: gone''"
      ?ser "[]" "''no such serial device: COM9''" rejected_ssh "[]" "''ssh auth rejected''"
      "(demo_shell, no_pty)" "[]" "''openpty: none left''"]
  have "\<not> evt_closed ''openpty: none left''" "\<not> evt_closed ''ssh auth rejected''"
    by (simp_all add: evt_closed_def)
  with t 1 2 3 4 5 6 show ?thesis by auto
qed

end
