(* ===== verification/Port_Forward.thy ===== *)
theory Port_Forward
  imports TermHub_Prelude
begin

text \<open>
  Port forwarding, \<open>crates/termhub-drivers/src/http_proxy.rs\<close>: the accept loop of a TCP forward, the
  two copying loops of one connection, the receive loop of a UDP forward and the task of one
  datagram. A script entry is the branch of \<open>select!\<close> that fires with the result of its call;
  errors are the text they display.
\<close>

subsection \<open>The listening loops\<close>

text \<open>
  \<open>'x\<close> is what a turn hands to the task it spawns: the peer of a connection (\<open>run_tcp_forward\<close>), the
  peer and the datagram (\<open>run_udp_forward\<close>). The result is \<open>None\<close> while the loop still waits.
\<close>

datatype 'x listen_step = FwdCancelled | FwdGot "string + 'x"

fun listen_loop :: "'x listen_step list \<Rightarrow> 'x list \<times> (string + unit) option" where
  "listen_loop [] = ([], None)"
| "listen_loop (FwdCancelled # xs) = ([], Some (Inr ()))"
| "listen_loop (FwdGot (Inl e) # xs) = ([], Some (Inl e))"
| "listen_loop (FwdGot (Inr x) # xs) = (let (ys, r) = listen_loop xs in (x # ys, r))"

definition run_tcp_forward :: "string option \<Rightarrow> string listen_step list
    \<Rightarrow> string list \<times> (string + unit) option" where
  "run_tcp_forward bind_err xs =
     (case bind_err of Some e \<Rightarrow> ([], Some (Inl e)) | None \<Rightarrow> listen_loop xs)"

definition run_http_proxy :: "string option \<Rightarrow> string listen_step list
    \<Rightarrow> string list \<times> (string + unit) option" where
  "run_http_proxy bind_err xs = run_tcp_forward bind_err xs"

definition run_udp_forward :: "string option \<Rightarrow> (bytes \<times> string) listen_step list
    \<Rightarrow> (bytes \<times> string) list \<times> (string + unit) option" where
  "run_udp_forward bind_err xs =
     (case bind_err of Some e \<Rightarrow> ([], Some (Inl e)) | None \<Rightarrow> listen_loop xs)"

subsection \<open>One TCP connection\<close>

text \<open>
  A direction is named by the side it reads. It is either reading or inside \<open>write_all\<close>, with the
  bytes that the other socket has not taken yet. \<open>select!\<close> runs both directions and drops them when
  one of them has ended.
\<close>

datatype side = Client | Backend

datatype copy_event =
    ReadGot side "string + bytes"
  | WriteTook side nat
  | WriteFailed side string

record copy_state =
  cp_pending :: "side \<Rightarrow> bytes option"
  cp_read :: "side \<Rightarrow> bytes"
  cp_sent :: "side \<Rightarrow> bytes"

definition copy_start :: copy_state where
  "copy_start = \<lparr>cp_pending = (\<lambda>_. None), cp_read = (\<lambda>_. []), cp_sent = (\<lambda>_. [])\<rparr>"

text \<open>
  \<open>read\<close> gives at most the 8192 bytes of the buffer, none of them at the end of the stream.
  A read can only happen while the direction reads, a write only while it writes; \<open>None\<close> marks an
  event that cannot happen. A direction is named by the side it reads; it writes to the other side,
  where \<open>cp_sent\<close> of the direction arrives.
\<close>

fun copy_turn :: "copy_event \<Rightarrow> copy_state \<Rightarrow> (copy_state \<times> (string + unit) option) option" where
  "copy_turn (ReadGot d r) c =
     (if cp_pending c d \<noteq> None then None
      else (case r of
          Inl e \<Rightarrow> Some (c, Some (Inl e))
        | Inr b \<Rightarrow>
            if b = [] then Some (c, Some (Inr ()))
            else if length b \<le> 8192 then
              Some (c\<lparr>cp_pending := (cp_pending c)(d \<mapsto> b), cp_read := (cp_read c)(d := cp_read c d @ b)\<rparr>, None)
            else None))"
| "copy_turn (WriteTook d n) c =
     (case cp_pending c d of
        None \<Rightarrow> None
      | Some b \<Rightarrow>
          if 0 < n \<and> n \<le> length b then
            Some (c\<lparr>cp_pending := (cp_pending c)(d := if n = length b then None else Some (drop n b)),
                   cp_sent := (cp_sent c)(d := cp_sent c d @ take n b)\<rparr>, None)
          else None)"
| "copy_turn (WriteFailed d e) c =
     (if cp_pending c d = None then None else Some (c, Some (Inl e)))"

text \<open>A run: the state and, where \<open>select!\<close> has ended, its result. \<open>None\<close>: the script is impossible.\<close>

fun copy_run :: "copy_event list \<Rightarrow> copy_state \<Rightarrow> (copy_state \<times> (string + unit) option) option" where
  "copy_run [] c = Some (c, None)"
| "copy_run (x # xs) c =
     (case copy_turn x c of
        None \<Rightarrow> None
      | Some (c', Some r) \<Rightarrow> Some (c', Some r)
      | Some (c', None) \<Rightarrow> copy_run xs c')"

record proxy_setup =
  px_connect :: "string option"
  px_nodelay_backend :: "string option"
  px_nodelay_client :: "string option"

definition proxy_tcp :: "proxy_setup \<Rightarrow> copy_event list \<Rightarrow> (copy_state \<times> (string + unit) option) option" where
  "proxy_tcp s xs =
     (case px_connect s of Some e \<Rightarrow> Some (copy_start, Some (Inl e)) | None \<Rightarrow>
     (case px_nodelay_backend s of Some e \<Rightarrow> Some (copy_start, Some (Inl e)) | None \<Rightarrow>
     (case px_nodelay_client s of Some e \<Rightarrow> Some (copy_start, Some (Inl e)) | None \<Rightarrow>
      copy_run xs copy_start)))"

subsection \<open>One datagram\<close>

datatype udp_effect = ToTarget bytes | ToPeer string bytes

text \<open>The results of the calls; \<open>ud_answer\<close>: \<open>None\<close> when 30 seconds passed without an answer.\<close>

record udp_calls =
  ud_bind :: "string option"
  ud_connect :: "string option"
  ud_send :: "string option"
  ud_answer :: "(string + bytes) option"
  ud_reply :: "string option"

definition proxy_udp :: "udp_calls \<Rightarrow> bytes \<times> string \<Rightarrow> udp_effect list \<times> (string + unit)" where
  "proxy_udp s x =
     (let (data, peer) = x in
      case ud_bind s of Some e \<Rightarrow> ([], Inl e) | None \<Rightarrow>
     (case ud_connect s of Some e \<Rightarrow> ([], Inl e) | None \<Rightarrow>
     (case ud_send s of Some e \<Rightarrow> ([], Inl e) | None \<Rightarrow>
     (case ud_answer s of
        None \<Rightarrow> ([ToTarget data], Inl ''udp response timeout'')
      | Some (Inl e) \<Rightarrow> ([ToTarget data], Inl e)
      | Some (Inr b) \<Rightarrow>
          (case ud_reply s of
             Some e \<Rightarrow> ([ToTarget data], Inl e)
           | None \<Rightarrow> ([ToTarget data, ToPeer peer b], Inr ()))))))"

subsection \<open>What one connection carries\<close>

definition pending_bytes :: "copy_state \<Rightarrow> side \<Rightarrow> bytes" where
  "pending_bytes c d = (case cp_pending c d of None \<Rightarrow> [] | Some b \<Rightarrow> b)"

definition copy_inv :: "copy_state \<Rightarrow> bool" where
  "copy_inv c \<longleftrightarrow> (\<forall>d. cp_sent c d @ pending_bytes c d = cp_read c d \<and> cp_pending c d \<noteq> Some [])"

lemma copy_inv_start: "copy_inv copy_start"
  by (simp add: copy_inv_def copy_start_def pending_bytes_def)

lemma copy_invD:
  "copy_inv c \<Longrightarrow> cp_pending c d = None \<Longrightarrow> cp_sent c d = cp_read c d"
  "copy_inv c \<Longrightarrow> cp_pending c d = Some b \<Longrightarrow> cp_sent c d @ b = cp_read c d"
  unfolding copy_inv_def pending_bytes_def by (drule spec [of _ d], simp)+

lemma copy_inv_turn: "copy_turn x c = Some (c', r) \<Longrightarrow> copy_inv c \<Longrightarrow> copy_inv c'"
proof (induction x c rule: copy_turn.induct)
  case (1 d r' c)
  then have "cp_pending c d = None" by (auto split: if_splits)
  then have "cp_sent c d = cp_read c d" by (rule copy_invD(1) [OF 1(2)])
  with 1 show ?case
    by (auto simp: copy_inv_def pending_bytes_def split: if_splits sum.splits)
next
  case (2 d n c)
  then obtain b where b: "cp_pending c d = Some b" by (auto split: option.splits)
  have "cp_sent c d @ b = cp_read c d" by (rule copy_invD(2) [OF 2(2) b])
  then have "cp_sent c d @ take n b @ drop n b = cp_read c d" by simp
  with 2 b show ?case
    by (auto simp: copy_inv_def pending_bytes_def split: if_splits)
next
  case (3 d e c)
  then show ?case by (auto split: if_splits)
qed

lemma copy_inv_run: "copy_run xs c = Some (c', r) \<Longrightarrow> copy_inv c \<Longrightarrow> copy_inv c'"
  by (induction xs c rule: copy_run.induct) (auto split: option.splits dest: copy_inv_turn)

text \<open>The bytes a script delivers by its reads.\<close>

fun reads_of :: "side \<Rightarrow> copy_event list \<Rightarrow> bytes" where
  "reads_of d [] = []"
| "reads_of d (ReadGot d' (Inr b) # xs) = (if d = d' then b else []) @ reads_of d xs"
| "reads_of d (x # xs) = reads_of d xs"

lemma copy_turn_reads:
  "copy_turn x c = Some (c', r) \<Longrightarrow> cp_read c' d = cp_read c d @ reads_of d [x]"
  by (cases "(d, [x])" rule: reads_of.cases; cases x)
    (auto split: if_splits option.splits sum.splits)

lemma copy_run_reads:
  "copy_run xs c = Some (c', None) \<Longrightarrow> cp_read c' d = cp_read c d @ reads_of d xs"
proof (induction xs c rule: copy_run.induct)
  case (2 x xs c)
  then obtain c1 where 1: "copy_turn x c = Some (c1, None)" "copy_run xs c1 = Some (c', None)"
    by (auto split: option.splits)
  have "reads_of d (x # xs) = reads_of d [x] @ reads_of d xs"
    by (cases "(d, [x])" rule: reads_of.cases) auto
  with 2(1) [OF 1(1) refl refl] 1 copy_turn_reads [OF 1(1)] show ?case by simp
qed simp

text \<open>
  C22. A forwarded connection is transparent. At any time, in each direction and however reads and
  partial writes of the two directions interleave, the bytes written to one side are, in order and
  unchanged, the bytes read from the other, but for those of its last read that the socket has not
  taken yet. While the connection lives these are all the bytes that arrived.
\<close>
theorem forward_transparent:
  assumes "proxy_tcp s xs = Some (c, r)"
  shows "cp_sent c d @ pending_bytes c d = cp_read c d \<and>
    (r = None \<longrightarrow> cp_read c d = reads_of d xs)"
proof -
  have inv: "copy_inv c"
    using assms copy_inv_run [of xs copy_start c r] copy_inv_start
    by (auto simp: proxy_tcp_def split: option.splits)
  have "cp_read c d = reads_of d xs" if "r = None"
    using assms that copy_run_reads [of xs copy_start c d]
    by (auto simp: proxy_tcp_def copy_start_def split: option.splits)
  with inv show ?thesis by (simp add: copy_inv_def)
qed

definition open_setup :: proxy_setup where
  "open_setup = \<lparr>px_connect = None, px_nodelay_backend = None, px_nodelay_client = None\<rparr>"

text \<open>A request of three bytes, taken in two parts, and the start of its answer.\<close>
theorem forward_transparent_witness:
  "\<exists>c. proxy_tcp open_setup [ReadGot Client (Inr [1, 2, 3]), WriteTook Client 2, ReadGot Backend (Inr [9]),
      WriteTook Client 1, WriteTook Backend 1] = Some (c, None) \<and>
    cp_sent c Client = [1, 2, 3] \<and> cp_sent c Backend = [9]"
proof -
  let ?xs = "[ReadGot Client (Inr [1, 2, 3]), WriteTook Client 2, ReadGot Backend (Inr [9]),
      WriteTook Client 1, WriteTook Backend 1] :: copy_event list"
  obtain c where c: "proxy_tcp open_setup ?xs = Some (c, None)"
      "pending_bytes c Client = []" "pending_bytes c Backend = []"
    by (simp add: proxy_tcp_def open_setup_def copy_start_def pending_bytes_def)
  show ?thesis
    using forward_transparent [OF c(1), of Client] forward_transparent [OF c(1), of Backend] c
    by (intro exI [of _ c]) simp
qed

lemma copy_run_append:
  "copy_run xs c = Some (c', None) \<Longrightarrow> copy_run (xs @ ys) c = copy_run ys c'"
  by (induction xs c rule: copy_run.induct) (auto split: option.splits)

text \<open>
  C37. A half-closed connection is cut. When one side closes its sending half, the proxy ends the
  whole connection at once: whatever the other side still sends, or had sent and was not yet
  written, is never delivered.
\<close>
theorem forward_half_close_cuts:
  assumes "proxy_tcp s xs = Some (c, None)" and "cp_pending c d = None"
  shows "proxy_tcp s (xs @ ReadGot d (Inr []) # ys) = Some (c, Some (Inr ()))"
  using assms by (auto simp: proxy_tcp_def copy_run_append split: option.splits)

text \<open>A client that has sent its request and closed its half: the answer is lost.\<close>
theorem forward_half_close_cuts_witness:
  "\<exists>c. proxy_tcp open_setup ([ReadGot Client (Inr [1]), WriteTook Client 1] @ ReadGot Client (Inr []) #
      [ReadGot Backend (Inr [9]), WriteTook Backend 1]) = Some (c, Some (Inr ())) \<and> cp_sent c Backend = []"
proof -
  obtain c where c: "proxy_tcp open_setup [ReadGot Client (Inr [1]), WriteTook Client 1] = Some (c, None)"
      "cp_pending c Client = None" "cp_sent c Backend = []"
    by (simp add: proxy_tcp_def open_setup_def copy_start_def)
  from forward_half_close_cuts [OF c(1,2)] c(3) show ?thesis by blast
qed

subsection \<open>The listening loops\<close>

lemma listen_loop_accepts:
  "listen_loop (map (FwdGot \<circ> Inr) ys @ xs) = (ys @ fst (listen_loop xs), snd (listen_loop xs))"
  by (induction ys) (simp_all split: prod.splits)

text \<open>
  A failed \<open>accept\<close> or \<open>recv_from\<close> ends the forward for good: no later connection or datagram is
  served, although the session is still shown as running (its token is still held).
\<close>

lemma forward_ends_at_error:
  "run_tcp_forward None (map (FwdGot \<circ> Inr) ps @ FwdGot (Inl e) # xs) = (ps, Some (Inl e))"
  "run_udp_forward None (map (FwdGot \<circ> Inr) ds @ FwdGot (Inl e) # ys) = (ds, Some (Inl e))"
  by (simp_all add: run_tcp_forward_def run_udp_forward_def listen_loop_accepts)

text \<open>
  Each datagram is sent on as it came, and answered at most once, after that and only to the peer
  it came from.
\<close>

lemma udp_reply_to_sender:
  assumes "proxy_udp s (data, peer) = (es, r)"
  shows "es = [] \<or> es = [ToTarget data] \<or> (\<exists>b. es = [ToTarget data, ToPeer peer b])"
    and "r = Inr () \<longleftrightarrow> (\<exists>b. es = [ToTarget data, ToPeer peer b])"
  using assms by (auto simp: proxy_udp_def split: option.splits sum.splits)

end
