(* ===== verification/Session.thy ===== *)
theory Session
  imports TermHub_Prelude
begin

text \<open>
  The session status of \<open>crates/termhub-core/src/session.rs\<close>. The watch channel that carries
  it is its current value: \<open>status_channel\<close> starts it at \<open>Idle\<close>.
\<close>

datatype SessionStatus =
    Idle
  | Starting
  | Running u64
  | Reconnecting u32
  | Failed string
  | Stopped

fun is_terminal :: "SessionStatus \<Rightarrow> bool" where
  "is_terminal Stopped = True"
| "is_terminal (Failed _) = True"
| "is_terminal _ = False"

definition status_channel :: SessionStatus where
  "status_channel = Idle"

end
