(* ===== verification/Runner.thy ===== *)
theory Runner
  imports Driver Backoff Session
begin

text \<open>
  The session runner of \<open>crates/termhub-core/src/runner.rs\<close>. \<open>run_loop\<close> is the main task as a
  function of a script, one entry for each turn of its loop: what the driver factory, the
  driver and the event pump did in that turn, and whether the token was cancelled where the
  loop looks at it. The state machine at the end adds the second task that writes the status,
  the uptime ticker, with every interleaving of the two.
\<close>

record RunnerConfig =
  rc_auto_reconnect :: bool
  rc_max_attempts :: "u32 option"

text \<open>The result of joining the driver task: what \<open>run\<close> returned, or a join error (a panic).\<close>

datatype join_result = Returned outcome | JoinError string

definition driver_res :: "join_result \<Rightarrow> outcome" where
  "driver_res j = (case j of
     Returned r \<Rightarrow> r
   | JoinError e \<Rightarrow> Inl (IoLost (''driver join: '' @ e)))"

text \<open>What the main task does, in order.\<close>

datatype action =
    SetStatus SessionStatus
  | StartDriver
  | Forward bytes        \<comment> \<open>\<open>up_tx.send\<close>, towards the hub's broadcast\<close>
  | Broadcast bytes      \<comment> \<open>\<open>broadcast_system\<close>\<close>
  | Sleep u64
  | AbortUptime

definition yellow_line :: "string \<Rightarrow> bytes" where
  "yellow_line s = as_bytes ([CHR 0x1B] @ ''[33m*** termhub: '' @ s @ [CHR 0x1B] @ ''[0m''
     @ [CHR 0x0D, CHR 0x0A])"

definition lost_line :: bytes where
  "lost_line = yellow_line ''upstream lost, reconnecting...''"

text \<open>The event pump, on the events it receives before it is aborted.\<close>

fun evt_pump :: "DriverEvent list \<Rightarrow> Backoff \<Rightarrow> action list \<times> Backoff" where
  "evt_pump [] b = ([], b)"
| "evt_pump (Connected # es) b = evt_pump es (reset b)"
| "evt_pump (Output bs # es) b = (let (as, b') = evt_pump es b in (Forward bs # as, b'))"
| "evt_pump (Notice s # es) b =
     (let (as, b') = evt_pump es b in (Broadcast (yellow_line s) # as, b'))"

record turn =
  tn_cancelled :: bool              \<comment> \<open>\<open>cancel.is_cancelled()\<close> at the top of the loop\<close>
  tn_factory_panics :: bool         \<comment> \<open>\<open>factory()\<close> panics\<close>
  tn_secs :: u64                    \<comment> \<open>\<open>start_time.elapsed()\<close> when the driver has been spawned\<close>
  tn_events :: "DriverEvent list"   \<comment> \<open>events the pump handled in this turn\<close>
  tn_join :: join_result
  tn_cancelled_in_sleep :: bool     \<comment> \<open>which branch of the last \<open>select!\<close> fired\<close>

datatype loop_end = Continue Backoff | Break | Panicked

text \<open>
  The branch for a lost upstream. The limit is checked after the counter has advanced and
  after \<open>Reconnecting\<close> has been published.
\<close>

definition io_lost :: "RunnerConfig \<Rightarrow> Backoff \<Rightarrow> string \<Rightarrow> bool \<Rightarrow> action list \<times> loop_end" where
  "io_lost cfg b reason cancelled_in_sleep =
     (if \<not> rc_auto_reconnect cfg then ([AbortUptime, SetStatus Stopped], Break)
      else
        let (delay, b') = next_delay b;
            n = attempt b';
            pub = [Broadcast lost_line, SetStatus (Reconnecting n)]
        in if (case rc_max_attempts cfg of None \<Rightarrow> False | Some m \<Rightarrow> m < n) then
             (pub @ [AbortUptime,
                SetStatus (Failed (''max retries exceeded ('' @ reason @ '')''))], Break)
           else if cancelled_in_sleep then (pub @ [AbortUptime, SetStatus Stopped], Break)
           else (pub @ [Sleep delay], Continue b'))"

text \<open>The \<open>match driver_res\<close> at the end of a turn.\<close>

definition driver_ended :: "RunnerConfig \<Rightarrow> Backoff \<Rightarrow> outcome \<Rightarrow> bool \<Rightarrow> action list \<times> loop_end" where
  "driver_ended cfg b r cancelled_in_sleep =
     (case r of
        Inr _ \<Rightarrow> ([AbortUptime, SetStatus Stopped], Break)
      | Inl (Fatal reason) \<Rightarrow> ([AbortUptime, SetStatus (Failed reason)], Break)
      | Inl (IoLost reason) \<Rightarrow> io_lost cfg b reason cancelled_in_sleep)"

definition loop_turn :: "RunnerConfig \<Rightarrow> Backoff \<Rightarrow> turn \<Rightarrow> action list \<times> loop_end" where
  "loop_turn cfg b t =
     (if tn_cancelled t then ([AbortUptime, SetStatus Stopped], Break)
      else if tn_factory_panics t then ([], Panicked)
      else
        let (pumped, b') = evt_pump (tn_events t) b;
            began = [StartDriver, SetStatus (Running (tn_secs t))] @ pumped;
            (ended, e) = driver_ended cfg b' (driver_res (tn_join t)) (tn_cancelled_in_sleep t)
        in (began @ ended, e))"

fun loop_turns :: "RunnerConfig \<Rightarrow> Backoff \<Rightarrow> turn list \<Rightarrow> action list \<times> loop_end" where
  "loop_turns cfg b [] = ([], Continue b)"
| "loop_turns cfg b (t # ts) =
     (case loop_turn cfg b t of
        (as, Continue b') \<Rightarrow> (let (as', e) = loop_turns cfg b' ts in (as @ as', e))
      | (as, e) \<Rightarrow> (as, e))"

definition run_loop :: "RunnerConfig \<Rightarrow> turn list \<Rightarrow> action list \<times> loop_end" where
  "run_loop cfg ts =
     (let (as, e) = loop_turns cfg backoff_default ts in (SetStatus Starting # as, e))"

subsection \<open>Status discipline of the main task\<close>

fun statuses :: "action list \<Rightarrow> SessionStatus list" where
  "statuses [] = []"
| "statuses (SetStatus s # as) = s # statuses as"
| "statuses (_ # as) = statuses as"

fun sleeps :: "action list \<Rightarrow> u64 list" where
  "sleeps [] = []"
| "sleeps (Sleep d # as) = d # sleeps as"
| "sleeps (_ # as) = sleeps as"

fun forwarded :: "action list \<Rightarrow> bytes" where
  "forwarded [] = []"
| "forwarded (Forward b # as) = b @ forwarded as"
| "forwarded (_ # as) = forwarded as"

definition starts :: "action list \<Rightarrow> nat" where
  "starts as = length (filter (\<lambda>a. a = StartDriver) as)"

lemma statuses_append [simp]: "statuses (a @ b) = statuses a @ statuses b"
  by (induction a rule: statuses.induct) auto

lemma sleeps_append [simp]: "sleeps (a @ b) = sleeps a @ sleeps b"
  by (induction a rule: sleeps.induct) auto

lemma forwarded_append [simp]: "forwarded (a @ b) = forwarded a @ forwarded b"
  by (induction a rule: forwarded.induct) auto

lemma starts_append [simp]: "starts (a @ b) = starts a + starts b"
  by (simp add: starts_def)

lemma starts_Cons [simp]: "starts (a # as) = (if a = StartDriver then 1 else 0) + starts as"
  by (simp add: starts_def)

lemma starts_Nil [simp]: "starts [] = 0"
  by (simp add: starts_def)

lemma evt_pump_silent:
  "evt_pump es b = (as, b') \<Longrightarrow>
   statuses as = [] \<and> sleeps as = [] \<and> starts as = 0 \<and> forwarded as = outputs es"
  by (induction es b arbitrary: as b' rule: evt_pump.induct) (auto split: prod.splits)

lemma evt_pump_backoff:
  "snd (evt_pump es b) = (if Connected \<in> set es then reset b else b)"
  by (induction es b rule: evt_pump.induct) (auto split: prod.splits simp: reset_def)

text \<open>
  One turn either keeps the loop going with no terminal status, or is the last and publishes
  exactly one terminal status, last, after aborting the ticker; a panicking factory publishes
  nothing.
\<close>

definition ends_terminal :: "action list \<Rightarrow> bool" where
  "ends_terminal as = (\<exists>pre s. as = pre @ [AbortUptime, SetStatus s] \<and> is_terminal s \<and>
     list_all (\<lambda>x. \<not> is_terminal x) (statuses pre))"

lemma ends_terminalI:
  "list_all (\<lambda>x. \<not> is_terminal x) (statuses pre) \<Longrightarrow> is_terminal s \<Longrightarrow>
   as = pre @ [AbortUptime, SetStatus s] \<Longrightarrow> ends_terminal as"
  by (auto simp: ends_terminal_def)

lemma ends_terminal_prepend:
  "list_all (\<lambda>x. \<not> is_terminal x) (statuses pre) \<Longrightarrow> ends_terminal as \<Longrightarrow> ends_terminal (pre @ as)"
  unfolding ends_terminal_def by (metis append_assoc list_all_append statuses_append)

definition turn_ok :: "action list \<times> loop_end \<Rightarrow> bool" where
  "turn_ok r = (case snd r of
     Continue _ \<Rightarrow> list_all (\<lambda>x. \<not> is_terminal x) (statuses (fst r))
   | Break \<Rightarrow> ends_terminal (fst r)
   | Panicked \<Rightarrow> list_all (\<lambda>x. \<not> is_terminal x) (statuses (fst r)))"

lemma turn_ok_prepend:
  "list_all (\<lambda>x. \<not> is_terminal x) (statuses pre) \<Longrightarrow> turn_ok (as, e) \<Longrightarrow> turn_ok (pre @ as, e)"
  by (cases e) (auto simp: turn_ok_def ends_terminal_prepend)

lemma turn_ok_last: "is_terminal s \<Longrightarrow> turn_ok ([AbortUptime, SetStatus s], Break)"
  by (simp add: turn_ok_def) (rule ends_terminalI [of "[]"], auto)

lemma turn_ok_silent:
  "list_all (\<lambda>x. \<not> is_terminal x) (statuses as) \<Longrightarrow> e \<noteq> Break \<Longrightarrow> turn_ok (as, e)"
  by (cases e) (auto simp: turn_ok_def)

lemma io_lost_ok: "turn_ok (io_lost cfg b reason c)"
proof -
  have p: "turn_ok ([Broadcast lost_line, SetStatus (Reconnecting n)] @ as, e)"
    if "turn_ok (as, e)" for n as e
    using that by (intro turn_ok_prepend) auto
  have q: "turn_ok ([Sleep d], Continue b')" for d b'
    by (rule turn_ok_silent) auto
  obtain d b' where nd: "next_delay b = (d, b')" by force
  show ?thesis
    using p [OF turn_ok_last] p [OF q]
    by (simp add: io_lost_def nd Let_def turn_ok_last)
qed

lemma driver_ended_ok: "turn_ok (driver_ended cfg b r c)"
  by (simp add: driver_ended_def turn_ok_last io_lost_ok split: sum.splits DriverError.splits)

lemma loop_turn_ok: "turn_ok (loop_turn cfg b t)"
proof -
  obtain pumped b' where pump: "evt_pump (tn_events t) b = (pumped, b')" by force
  obtain ended e where de:
    "driver_ended cfg b' (driver_res (tn_join t)) (tn_cancelled_in_sleep t) = (ended, e)" by force
  have "turn_ok (([StartDriver, SetStatus (Running (tn_secs t))] @ pumped) @ ended, e)"
    using evt_pump_silent [OF pump] driver_ended_ok [of cfg b'] de
    by (intro turn_ok_prepend) (auto, metis)
  moreover have "turn_ok ([], Panicked)" by (rule turn_ok_silent) auto
  ultimately show ?thesis
    by (simp add: loop_turn_def pump de turn_ok_last)
qed

lemma loop_turns_ok: "turn_ok (loop_turns cfg b ts)"
proof (induction ts arbitrary: b)
  case Nil
  then show ?case by (simp add: turn_ok_def)
next
  case (Cons t ts)
  obtain as e where t: "loop_turn cfg b t = (as, e)" by force
  with loop_turn_ok [of cfg b t] have ok: "turn_ok (as, e)" by simp
  show ?case
  proof (cases e)
    case (Continue b')
    obtain as' e' where r: "loop_turns cfg b' ts = (as', e')" by force
    have "turn_ok (as @ as', e')"
      using ok Continue Cons.IH [of b'] r by (intro turn_ok_prepend) (auto simp: turn_ok_def)
    with t r Continue show ?thesis by simp
  qed (use t ok in auto)
qed

text \<open>What a turn publishes comes after the start.\<close>

definition under_way :: "SessionStatus \<Rightarrow> bool" where
  "under_way s \<longleftrightarrow> s \<noteq> Idle \<and> s \<noteq> Starting"

lemma driver_ended_statuses: "list_all under_way (statuses (fst (driver_ended cfg b r c)))"
  by (auto simp: driver_ended_def io_lost_def under_way_def Let_def
      split: sum.splits DriverError.splits prod.splits)

lemma loop_turn_statuses: "list_all under_way (statuses (fst (loop_turn cfg b t)))"
proof -
  obtain pumped b' where pump: "evt_pump (tn_events t) b = (pumped, b')" by force
  obtain ended e where de:
    "driver_ended cfg b' (driver_res (tn_join t)) (tn_cancelled_in_sleep t) = (ended, e)" by force
  have "list_all under_way (statuses ended)"
    using driver_ended_statuses [of cfg b' "driver_res (tn_join t)" "tn_cancelled_in_sleep t"] de by simp
  then show ?thesis using evt_pump_silent [OF pump] by (simp add: loop_turn_def pump de under_way_def)
qed

lemma loop_turns_statuses: "list_all under_way (statuses (fst (loop_turns cfg b ts)))"
proof (induction ts arbitrary: b)
  case (Cons t ts)
  obtain as e where t: "loop_turn cfg b t = (as, e)" by force
  with loop_turn_statuses [of cfg b t] have "list_all under_way (statuses as)" by simp
  with Cons t show ?case by (cases e) (auto split: prod.splits, metis fst_conv)
qed simp

text \<open>
  C5. The status discipline of the main task, for every script: its first action publishes
  \<open>Starting\<close>, and it publishes neither that nor \<open>Idle\<close> again; as long as the loop goes on (or
  its task has died in the factory) it has published no terminal status; when it has ended it
  has published exactly one, as its last action, after aborting the uptime ticker.
\<close>

theorem runner_status_discipline:
  "turn_ok (run_loop cfg ts) \<and>
   (\<exists>as. fst (run_loop cfg ts) = SetStatus Starting # as \<and>
     Starting \<notin> set (statuses as) \<and> Idle \<notin> set (statuses as))"
proof -
  obtain as e where r: "loop_turns cfg backoff_default ts = (as, e)" by force
  have "turn_ok ([SetStatus Starting] @ as, e)"
    using loop_turns_ok [of cfg backoff_default ts] r by (intro turn_ok_prepend) auto
  moreover have "Starting \<notin> set (statuses as)" "Idle \<notin> set (statuses as)"
    using loop_turns_statuses [of cfg backoff_default ts] r by (auto simp: list_all_iff under_way_def)
  ultimately show ?thesis using r by (simp add: run_loop_def)
qed

subsection \<open>The retry policy\<close>

text \<open>
  A turn in which the driver runs and returns that it has lost its upstream, and the wait is not
  cancelled. (A driver that panics is not one of them.)
\<close>

definition lost_turn :: "turn \<Rightarrow> bool" where
  "lost_turn t = (\<not> tn_cancelled t \<and> \<not> tn_factory_panics t \<and> \<not> tn_cancelled_in_sleep t \<and>
     (case tn_join t of Returned (Inl (IoLost _)) \<Rightarrow> True | _ \<Rightarrow> False))"

definition lost_reason :: "turn \<Rightarrow> string" where
  "lost_reason t = (case driver_res (tn_join t) of Inl (IoLost r) \<Rightarrow> r | _ \<Rightarrow> [])"

definition connected_turn :: "turn \<Rightarrow> bool" where
  "connected_turn t = (Connected \<in> set (tn_events t))"

definition within_limit :: "RunnerConfig \<Rightarrow> Backoff \<Rightarrow> bool" where
  "within_limit cfg b' = (case rc_max_attempts cfg of None \<Rightarrow> True | Some m \<Rightarrow> attempt b' \<le> m)"

lemma lost_turn_step:
  assumes "lost_turn t" and "rc_auto_reconnect cfg"
    and "b0 = (if connected_turn t then reset b else b)" and "next_delay b0 = (d, b')"
  shows "\<exists>as. loop_turn cfg b t =
           (if within_limit cfg b' then (as @ [Sleep d], Continue b')
            else (as @ [AbortUptime,
              SetStatus (Failed (''max retries exceeded ('' @ lost_reason t @ '')''))], Break)) \<and>
         starts as = 1 \<and> sleeps as = [] \<and>
         statuses as = [Running (tn_secs t), Reconnecting (attempt b')]"
proof -
  obtain pumped where pump: "evt_pump (tn_events t) b = (pumped, b0)"
    using evt_pump_backoff [of "tn_events t" b] assms(3)
    by (metis connected_turn_def prod.collapse)
  from assms(1) obtain r where r: "driver_res (tn_join t) = Inl (IoLost r)"
    and "lost_reason t = r" and fl: "\<not> tn_cancelled t" "\<not> tn_factory_panics t"
      "\<not> tn_cancelled_in_sleep t"
    by (auto simp: lost_turn_def lost_reason_def driver_res_def
        split: join_result.splits sum.splits DriverError.splits)
  note sil = evt_pump_silent [OF pump]
  let ?as = "[StartDriver, SetStatus (Running (tn_secs t))] @ pumped @
    [Broadcast lost_line, SetStatus (Reconnecting (attempt b'))]"
  have lim: "(case rc_max_attempts cfg of None \<Rightarrow> False | Some m \<Rightarrow> m < attempt b') =
      (\<not> within_limit cfg b')"
    by (auto simp: within_limit_def split: option.splits)
  have "loop_turn cfg b t =
      (if within_limit cfg b' then (?as @ [Sleep d], Continue b')
       else (?as @ [AbortUptime,
         SetStatus (Failed (''max retries exceeded ('' @ lost_reason t @ '')''))], Break))"
    using fl assms(2,4) \<open>lost_reason t = r\<close>
    by (simp add: loop_turn_def pump r driver_ended_def io_lost_def Let_def lim)
  with sil show ?thesis by (intro exI [of _ ?as]) simp
qed

text \<open>
  The waits of turns that connected (\<open>True\<close>) or not: a connection starts the sequence over, after
  \<open>n\<close> failures without one.
\<close>

fun waits :: "nat \<Rightarrow> bool list \<Rightarrow> nat list" where
  "waits n [] = []"
| "waits n (c # cs) = delay_spec (if c then 0 else n) # waits (Suc (if c then 0 else n)) cs"

lemma waits_unconnected: "waits n (replicate k False) = map delay_spec [n ..< n + k]"
  by (induction k arbitrary: n) (simp_all add: upt_conv_Cons del: upt_Suc)

lemma loop_turns_lost:
  assumes "list_all lost_turn ts" and "rc_auto_reconnect cfg" and "rc_max_attempts cfg = None"
    and "unat (attempts b) = min n (2 ^ 32 - 1)"
  shows "\<exists>as b'. loop_turns cfg b ts = (as, Continue b') \<and> starts as = length ts \<and>
           map unat (sleeps as) = waits n (map connected_turn ts)"
  using assms(1,4)
proof (induction ts arbitrary: b n)
  case Nil
  then show ?case by simp
next
  case (Cons t ts)
  let ?b = "if connected_turn t then reset b else b" and ?n = "if connected_turn t then 0 else n"
  obtain d b1 where nd: "next_delay ?b = (d, b1)" by force
  have at: "unat (attempts ?b) = min ?n (2 ^ 32 - 1)" using Cons.prems(2) by (simp add: reset_def)
  have d: "unat d = delay_spec ?n"
    using unat_fst_next_delay [of ?b] nd at delay_spec_sat [of ?n "2 ^ 32 - 1"] by (auto simp: min_def)
  have b1: "unat (attempts b1) = min (Suc ?n) (2 ^ 32 - 1)"
    using attempts_next_delay [of ?b] nd at by (simp add: min_def)
  have "lost_turn t" using Cons.prems(1) by simp
  from lost_turn_step [OF this assms(2) refl nd] obtain as where
    t: "loop_turn cfg b t = (as @ [Sleep d], Continue b1)" and as: "starts as = 1" "sleeps as = []"
    using assms(3) by (auto simp: within_limit_def)
  from Cons.prems(1) Cons.IH [OF _ b1] obtain as' b' where
    "loop_turns cfg b1 ts = (as', Continue b')" "starts as' = length ts"
    "map unat (sleeps as') = waits (Suc ?n) (map connected_turn ts)" by auto
  with t as d show ?case by simp
qed

text \<open>
  C17. Without a retry limit a session that keeps losing its upstream is retried for ever: every
  turn starts a driver, none ends the loop, and the waits are the back-off sequence, which starts over
  after each turn whose driver had connected.
\<close>

theorem runner_retries_forever:
  assumes "rc_auto_reconnect cfg" and "rc_max_attempts cfg = None" and "list_all lost_turn ts"
  shows "\<exists>as b. run_loop cfg ts = (as, Continue b) \<and> starts as = length ts \<and>
           map unat (sleeps as) = waits 0 (map connected_turn ts)"
proof -
  have "unat (attempts backoff_default) = min 0 (2 ^ 32 - 1)" by (simp add: backoff_default_def)
  from loop_turns_lost [OF assms(3,1,2) this] show ?thesis by (auto simp: run_loop_def)
qed

definition refused :: "string \<Rightarrow> turn" where
  "refused e = \<lparr>tn_cancelled = False, tn_factory_panics = False, tn_secs = 0, tn_events = [],
     tn_join = Returned (Inl (IoLost e)), tn_cancelled_in_sleep = False\<rparr>"

lemma refused_lost [simp]: "lost_turn (refused e)" "\<not> connected_turn (refused e)"
  "lost_reason (refused e) = e"
  by (simp_all add: lost_turn_def connected_turn_def refused_def driver_res_def lost_reason_def)

definition link_lost :: "string \<Rightarrow> turn" where
  "link_lost e = (refused e)\<lparr>tn_events := [Connected]\<rparr>"

lemma link_lost_turn [simp]: "lost_turn (link_lost e)" "connected_turn (link_lost e)"
  by (simp_all add: lost_turn_def connected_turn_def refused_def link_lost_def)

text \<open>Four refused connections, one that is made and lost, and two refused again.\<close>
theorem runner_retries_forever_witness:
  "\<exists>as b. run_loop \<lparr>rc_auto_reconnect = True, rc_max_attempts = None\<rparr>
        (replicate 4 (refused ''x'') @ [link_lost ''y''] @ replicate 2 (refused ''x'')) = (as, Continue b) \<and>
     starts as = 7 \<and> map unat (sleeps as) = [1, 1, 2, 4, 1, 1, 2]"
  using runner_retries_forever
    [of "\<lparr>rc_auto_reconnect = True, rc_max_attempts = None\<rparr>"
        "replicate 4 (refused ''x'') @ [link_lost ''y''] @ replicate 2 (refused ''x'')"]
  by (simp add: numeral_eq_Suc delay_spec_def)

text \<open>
  A driver that panics is retried like one that has lost its upstream (the design says that the session
  fails): the turn does what it does for the error \<open>driver join: ..\<close>.
\<close>
lemma panicked_driver_retried:
  "loop_turn cfg b (t\<lparr>tn_join := JoinError e\<rparr>) =
   loop_turn cfg b (t\<lparr>tn_join := Returned (Inl (IoLost (''driver join: '' @ e)))\<rparr>)"
  by (simp add: loop_turn_def driver_res_def)

lemma loop_turns_limit:
  assumes "rc_auto_reconnect cfg" and "rc_max_attempts cfg = Some m" and "unat m < 2 ^ 32 - 1"
    and "list_all (\<lambda>t. lost_turn t \<and> \<not> connected_turn t) ts"
    and "unat (attempts b) \<le> unat m" and "length ts = Suc (unat m - unat (attempts b))"
  shows "\<exists>as. loop_turns cfg b (ts @ us) =
      (as @ [AbortUptime,
         SetStatus (Failed (''max retries exceeded ('' @ lost_reason (last ts) @ '')''))], Break) \<and>
      starts as = length ts"
  using assms(4-6)
proof (induction ts arbitrary: b)
  case Nil
  then show ?case by simp
next
  case (Cons t ts)
  obtain d b1 where nd: "next_delay b = (d, b1)" by force
  have b1: "unat (attempts b1) = Suc (unat (attempts b))"
    using attempts_next_delay [of b] nd Cons.prems(2) assms(3) by (simp add: min_def)
  have t: "lost_turn t" "\<not> connected_turn t" using Cons.prems by auto
  have lim: "within_limit cfg b1 \<longleftrightarrow> Suc (unat (attempts b)) \<le> unat m"
    by (simp add: within_limit_def assms(2) attempt_def word_le_nat_alt b1)
  from lost_turn_step [OF t(1) assms(1) refl, of b] t(2) nd obtain as where
    lt: "loop_turn cfg b t =
           (if within_limit cfg b1 then (as @ [Sleep d], Continue b1)
            else (as @ [AbortUptime,
              SetStatus (Failed (''max retries exceeded ('' @ lost_reason t @ '')''))], Break))"
    and as: "starts as = 1" by auto
  show ?case
  proof (cases "ts = []")
    case True
    then have "\<not> within_limit cfg b1" using Cons.prems lim by simp
    with lt as True show ?thesis by simp
  next
    case False
    then have le: "Suc (unat (attempts b)) \<le> unat m" using Cons.prems(3) by (cases ts) auto
    with Cons.prems b1 have "list_all (\<lambda>t. lost_turn t \<and> \<not> connected_turn t) ts"
      "unat (attempts b1) \<le> unat m" "length ts = Suc (unat m - unat (attempts b1))" by auto
    from Cons.IH [OF this] obtain as' where
      "loop_turns cfg b1 (ts @ us) = (as' @ [AbortUptime,
         SetStatus (Failed (''max retries exceeded ('' @ lost_reason (last ts) @ '')''))], Break)"
      "starts as' = length ts" by blast
    with lt le lim as False show ?thesis by simp
  qed
qed

text \<open>
  C27. With a limit of \<open>m\<close> attempts the driver is started exactly \<open>m + 1\<close> times when it loses
  (and does not panic) every time and never connects, whatever the script goes on with, and the session ends as \<open>Failed\<close> with the last
  reason. (The limit \<open>u32::MAX\<close> is excluded: the saturating counter never exceeds it.)
\<close>

theorem runner_gives_up_after_limit:
  assumes "rc_auto_reconnect cfg" and "rc_max_attempts cfg = Some m" and "unat m < 2 ^ 32 - 1"
    and "list_all (\<lambda>t. lost_turn t \<and> \<not> connected_turn t) ts" and "length ts = Suc (unat m)"
  shows "\<exists>as. run_loop cfg (ts @ us) =
      (as @ [AbortUptime,
         SetStatus (Failed (''max retries exceeded ('' @ lost_reason (last ts) @ '')''))], Break) \<and>
      starts as = Suc (unat m)"
proof -
  have "\<exists>as. loop_turns cfg backoff_default (ts @ us) =
      (as @ [AbortUptime,
         SetStatus (Failed (''max retries exceeded ('' @ lost_reason (last ts) @ '')''))], Break) \<and>
      starts as = length ts"
    by (rule loop_turns_limit [OF assms(1-4)])
      (simp_all add: backoff_default_def assms(5))
  then show ?thesis using assms(5) by (auto simp: run_loop_def)
qed

theorem runner_gives_up_after_limit_witness:
  "\<exists>as. run_loop \<lparr>rc_auto_reconnect = True, rc_max_attempts = Some 2\<rparr>
        ([refused ''a'', refused ''b'', refused ''c''] @ [refused ''d'']) =
      (as @ [AbortUptime, SetStatus (Failed ''max retries exceeded (c)'')], Break) \<and> starts as = 3"
  using runner_gives_up_after_limit
    [of "\<lparr>rc_auto_reconnect = True, rc_max_attempts = Some 2\<rparr>" 2
        "[refused ''a'', refused ''b'', refused ''c'']" "[refused ''d'']"]
  by simp

fun attempts_published :: "SessionStatus list \<Rightarrow> u32 list" where
  "attempts_published [] = []"
| "attempts_published (Reconnecting n # ss) = n # attempts_published ss"
| "attempts_published (_ # ss) = attempts_published ss"

lemma attempts_published_append [simp]:
  "attempts_published (a @ b) = attempts_published a @ attempts_published b"
  by (induction a rule: attempts_published.induct) auto

lemma loop_turns_connected:
  assumes "rc_auto_reconnect cfg" and "rc_max_attempts cfg = None \<or> rc_max_attempts cfg = Some m \<and> 1 \<le> m"
    and "list_all (\<lambda>t. lost_turn t \<and> connected_turn t) ts"
  shows "\<exists>as b'. loop_turns cfg b ts = (as, Continue b') \<and> starts as = length ts \<and>
           sleeps as = replicate (length ts) 1 \<and>
           attempts_published (statuses as) = replicate (length ts) 1"
  using assms(3)
proof (induction ts arbitrary: b)
  case Nil
  then show ?case by simp
next
  case (Cons t ts)
  have nd: "next_delay (reset b) = (1, \<lparr>attempts = 1\<rparr>)"
    by (simp add: next_delay_def reset_def saturating_add_def)
  have "lost_turn t" "connected_turn t" using Cons.prems by auto
  moreover have "within_limit cfg \<lparr>attempts = 1\<rparr>"
    using assms(2) by (auto simp: within_limit_def attempt_def)
  ultimately obtain as where t: "loop_turn cfg b t = (as @ [Sleep 1], Continue \<lparr>attempts = 1\<rparr>)"
    and as: "starts as = 1" "sleeps as = []" "attempts_published (statuses as) = [1]"
    using lost_turn_step [OF _ assms(1) refl, of t b] nd by (auto simp: attempt_def)
  from Cons.prems Cons.IH [of "\<lparr>attempts = 1\<rparr>"] obtain as' b' where
    "loop_turns cfg \<lparr>attempts = 1\<rparr> ts = (as', Continue b')" "starts as' = length ts"
    "sleeps as' = replicate (length ts) 1"
    "attempts_published (statuses as') = replicate (length ts) 1" by auto
  with t as show ?case by simp
qed

text \<open>
  A driver that connects before it loses the link starts the back-off over: the wait is one
  second each time, the published attempt is always 1, and no limit of one or more attempts is
  ever reached.
\<close>

theorem runner_connected_resets:
  assumes "rc_auto_reconnect cfg" and "rc_max_attempts cfg = Some m" and "1 \<le> m"
    and "list_all (\<lambda>t. lost_turn t \<and> connected_turn t) ts"
  shows "\<exists>as b. run_loop cfg ts = (as, Continue b) \<and> starts as = length ts \<and>
           sleeps as = replicate (length ts) 1 \<and>
           attempts_published (statuses as) = replicate (length ts) 1"
  using loop_turns_connected [OF assms(1) _ assms(4), of m backoff_default] assms(2,3)
  by (auto simp: run_loop_def)

theorem runner_connected_resets_witness:
  "\<exists>as b. run_loop \<lparr>rc_auto_reconnect = True, rc_max_attempts = Some 1\<rparr>
        (replicate 5 ((refused ''eof'')\<lparr>tn_events := [Connected]\<rparr>)) = (as, Continue b) \<and>
     starts as = 5 \<and> sleeps as = replicate 5 1 \<and>
     attempts_published (statuses as) = replicate 5 1"
  using runner_connected_resets
    [of "\<lparr>rc_auto_reconnect = True, rc_max_attempts = Some 1\<rparr>" 1
        "replicate 5 ((refused ''eof'')\<lparr>tn_events := [Connected]\<rparr>)"]
  by (simp add: list_all_iff connected_turn_def lost_turn_def refused_def driver_res_def)

subsection \<open>A driver under the runner\<close>

text \<open>
  The turn that a returned driver run gives, when the pump has handled every event the driver
  sent before it is aborted.
\<close>

definition turn_of_run :: "u64 \<Rightarrow> effect list \<Rightarrow> outcome \<Rightarrow> turn" where
  "turn_of_run secs es r =
     \<lparr>tn_cancelled = False, tn_factory_panics = False, tn_secs = secs, tn_events = emitted es,
      tn_join = Returned r, tn_cancelled_in_sleep = False\<rparr>"

lemma turn_of_run_lost [simp]: "lost_turn (turn_of_run secs es (Inl (IoLost e)))"
  and turn_of_run_reason [simp]: "lost_reason (turn_of_run secs es (Inl (IoLost e))) = e"
  and turn_of_run_connected [simp]:
    "connected_turn (turn_of_run secs es r) = (Connected \<in> set (emitted es))"
  by (simp_all add: lost_turn_def lost_reason_def connected_turn_def turn_of_run_def driver_res_def)

context upstream_driver
begin

text \<open>By the calling convention a run that never connects has sent nothing at all.\<close>

lemma unconnected_silent:
  assumes "Connected \<notin> set (emitted (fst (run s xs)))"
  shows "fst (run s xs) = []"
  using connected_first [of s xs] assms by (auto simp: connected_first_def)

text \<open>So its turn forwards nothing and keeps the back-off counter.\<close>

lemma unconnected_turn_pump:
  assumes "Connected \<notin> set (emitted (fst (run s xs)))"
  shows "evt_pump (tn_events (turn_of_run secs (fst (run s xs)) r)) b = ([], b)"
  using unconnected_silent [OF assms] by (simp add: turn_of_run_def)

text \<open>Every byte the driver sends downstream is forwarded to the hub, in order.\<close>

lemma turn_forwards:
  assumes "run s xs = (es, Some r)"
  shows "forwarded (fst (evt_pump (tn_events (turn_of_run secs es r)) b)) = outputs (emitted es)"
  using evt_pump_silent [of "tn_events (turn_of_run secs es r)" b]
  by (cases "evt_pump (tn_events (turn_of_run secs es r)) b") (simp add: turn_of_run_def)

end

end
