(* ===== verification/Runner_Machine.thy ===== *)
theory Runner_Machine
  imports Runner
begin

text \<open>
  The tasks of a session as one state machine: the main task of \<open>run_loop\<close>, with a program point
  before each of its sends, the uptime ticker it spawns, and the task of the driver, of which it
  is known whether it waits at its \<open>select!\<close> or inside a call, what it has ended with, and which
  token it was given. A ticker poll is two steps, the timer firing and the send, because \<open>abort\<close>
  only takes effect when a task next yields: on a multi-threaded runtime the main task can run
  between the two.
\<close>

datatype main_pc =
    MStart
  | MTop
  | MSpawned
  | MJoin
  | MCheck u32 string
  | MSleep
  | MFinish SessionStatus   \<comment> \<open>ticker aborted, the terminal status not yet sent\<close>
  | MDone
  | MPanicked

datatype tick_pc = TickNone | TickWaiting | TickFired | TickDead

text \<open>
  The driver task: not there, inside a call of its setup or of a branch, at its \<open>select!\<close>, ended.
  The token it holds: the session's (\<open>cancel.clone()\<close>) or another.
\<close>

datatype drv_pc = NoDriver | DrvCall | DrvSelect | DrvEnded join_result

datatype token_ref = SessionToken | OtherToken

record mach =
  m_pc :: main_pc
  m_backoff :: Backoff
  m_cancelled :: bool
  m_tick :: tick_pc
  m_aborted :: bool
  m_status :: SessionStatus
  m_drv :: drv_pc
  m_drv_token :: token_ref

definition init_mach :: mach where
  "init_mach = \<lparr>m_pc = MStart, m_backoff = backoff_default, m_cancelled = False,
     m_tick = TickNone, m_aborted = False, m_status = status_channel,
     m_drv = NoDriver, m_drv_token = OtherToken\<rparr>"

text \<open>\<open>uptime_task.abort()\<close>: a task that is not being polled is gone at once.\<close>

definition abort_uptime :: "mach \<Rightarrow> mach" where
  "abort_uptime m = m\<lparr>m_aborted := True,
     m_tick := (if m_tick m = TickWaiting then TickDead else m_tick m)\<rparr>"

definition finish :: "SessionStatus \<Rightarrow> mach \<Rightarrow> mach" where
  "finish s m = (abort_uptime m)\<lparr>m_pc := MFinish s\<rparr>"

definition drv_triggered :: "mach \<Rightarrow> bool" where
  "drv_triggered m = (case m_drv_token m of SessionToken \<Rightarrow> m_cancelled m | OtherToken \<Rightarrow> False)"

text \<open>
  The steps of the driver, given whether its token is triggered. \<open>Ok(())\<close> is only the answer to its
  token: the other way to it, a closed input, cannot happen, since the main task keeps a sender of
  that channel (\<open>drv_in_tx\<close>) until the driver has ended.
\<close>

inductive drv_step :: "bool \<Rightarrow> drv_pc \<Rightarrow> drv_pc \<Rightarrow> bool" for triggered where
  call_returns: "drv_step triggered DrvCall DrvSelect"
| branch_fires: "drv_step triggered DrvSelect DrvCall"
| sees_cancel: "triggered \<Longrightarrow> drv_step triggered DrvSelect (DrvEnded (Returned (Inr ())))"
| call_fails: "r \<noteq> Returned (Inr ()) \<Longrightarrow> drv_step triggered DrvCall (DrvEnded r)"
| branch_fails: "r \<noteq> Returned (Inr ()) \<Longrightarrow> drv_step triggered DrvSelect (DrvEnded r)"

text \<open>The main task goes on from \<open>drv_join.await\<close> only with the result of an ended driver.\<close>

inductive mstep :: "RunnerConfig \<Rightarrow> mach \<Rightarrow> mach \<Rightarrow> bool" for cfg where
  start: "m_pc m = MStart \<Longrightarrow>
    mstep cfg m (m\<lparr>m_pc := MTop, m_status := Starting, m_tick := TickWaiting\<rparr>)"
| top_cancelled: "m_pc m = MTop \<Longrightarrow> m_cancelled m \<Longrightarrow> mstep cfg m (finish Stopped m)"
| top_spawn: "m_pc m = MTop \<Longrightarrow> \<not> m_cancelled m \<Longrightarrow>
    mstep cfg m (m\<lparr>m_pc := MSpawned, m_drv := DrvCall, m_drv_token := SessionToken\<rparr>)"
| factory_panic: "m_pc m = MTop \<Longrightarrow> \<not> m_cancelled m \<Longrightarrow> mstep cfg m (m\<lparr>m_pc := MPanicked\<rparr>)"
| running: "m_pc m = MSpawned \<Longrightarrow>
    mstep cfg m (m\<lparr>m_pc := MJoin, m_status := Running u\<rparr>)"
| connected: "m_pc m \<in> {MSpawned, MJoin} \<Longrightarrow>
    mstep cfg m (m\<lparr>m_backoff := reset (m_backoff m)\<rparr>)"
| driver: "drv_step (drv_triggered m) (m_drv m) d \<Longrightarrow> mstep cfg m (m\<lparr>m_drv := d\<rparr>)"
| driver_ok: "m_pc m = MJoin \<Longrightarrow> m_drv m = DrvEnded j \<Longrightarrow> driver_res j = Inr () \<Longrightarrow>
    mstep cfg m (finish Stopped (m\<lparr>m_drv := NoDriver\<rparr>))"
| driver_fatal: "m_pc m = MJoin \<Longrightarrow> m_drv m = DrvEnded j \<Longrightarrow>
    driver_res j = Inl (Fatal reason) \<Longrightarrow>
    mstep cfg m (finish (Failed reason) (m\<lparr>m_drv := NoDriver\<rparr>))"
| lost_stop: "m_pc m = MJoin \<Longrightarrow> m_drv m = DrvEnded j \<Longrightarrow>
    driver_res j = Inl (IoLost reason) \<Longrightarrow> \<not> rc_auto_reconnect cfg \<Longrightarrow>
    mstep cfg m (finish Stopped (m\<lparr>m_drv := NoDriver\<rparr>))"
| lost_retry: "m_pc m = MJoin \<Longrightarrow> m_drv m = DrvEnded j \<Longrightarrow>
    driver_res j = Inl (IoLost reason) \<Longrightarrow> rc_auto_reconnect cfg \<Longrightarrow>
    next_delay (m_backoff m) = (d, b) \<Longrightarrow>
    mstep cfg m (m\<lparr>m_pc := MCheck (attempt b) reason, m_drv := NoDriver, m_backoff := b,
      m_status := Reconnecting (attempt b)\<rparr>)"
| check_exceeded: "m_pc m = MCheck n reason \<Longrightarrow> rc_max_attempts cfg = Some k \<Longrightarrow> k < n \<Longrightarrow>
    mstep cfg m (finish (Failed (''max retries exceeded ('' @ reason @ '')'')) m)"
| check_ok: "m_pc m = MCheck n reason \<Longrightarrow> \<not> (\<exists>k. rc_max_attempts cfg = Some k \<and> k < n) \<Longrightarrow>
    mstep cfg m (m\<lparr>m_pc := MSleep\<rparr>)"
| sleep_cancelled: "m_pc m = MSleep \<Longrightarrow> m_cancelled m \<Longrightarrow> mstep cfg m (finish Stopped m)"
| sleep_done: "m_pc m = MSleep \<Longrightarrow> mstep cfg m (m\<lparr>m_pc := MTop\<rparr>)"
| send_last: "m_pc m = MFinish s \<Longrightarrow> mstep cfg m (m\<lparr>m_pc := MDone, m_status := s\<rparr>)"
| cancel: "mstep cfg m (m\<lparr>m_cancelled := True\<rparr>)"
| tick_fires: "m_tick m = TickWaiting \<Longrightarrow> mstep cfg m (m\<lparr>m_tick := TickFired\<rparr>)"
| tick_sends: "m_tick m = TickFired \<Longrightarrow>
    mstep cfg m (m\<lparr>m_status := Running u,
      m_tick := (if m_aborted m then TickDead else TickWaiting)\<rparr>)"
| tick_cancelled: "m_tick m = TickWaiting \<Longrightarrow> m_cancelled m \<Longrightarrow>
    mstep cfg m (m\<lparr>m_tick := TickDead\<rparr>)"

text \<open>
  The driver's steps are those of a driver in time (\<^const>\<open>live_step\<close>) whose input stays open:
  each event of its run is one of them or leaves its place.
\<close>

fun drv_of :: "('st, 'step) place \<Rightarrow> drv_pc" where
  "drv_of SettingUp = DrvCall"
| "drv_of (AtSelect st) = DrvSelect"
| "drv_of (InBranch st x) = DrvCall"
| "drv_of (Ended r) = DrvEnded (Returned r)"

definition settles_as :: "outcome + 'st \<Rightarrow> drv_pc" where
  "settles_as r = (case r of Inl q \<Rightarrow> DrvEnded (Returned q) | Inr st \<Rightarrow> DrvSelect)"

lemma drv_of_settle: "drv_of (lv_place (settle r lv)) = settles_as (snd r)"
  by (simp add: settle_def settles_as_def split: sum.splits)

lemma drv_step_settles:
  "r \<noteq> Inl (Inr ()) \<Longrightarrow> drv_step t DrvCall (settles_as r)"
  "r \<noteq> Inl (Inr ()) \<Longrightarrow> settles_as r = DrvSelect \<or> drv_step t DrvSelect (settles_as r)"
  "drv_step True DrvSelect (settles_as (Inl (Inr ())))"
  by (auto simp: settles_as_def split: sum.splits intro: drv_step.intros)

lemma live_step_is_drv_step:
  assumes ok: "\<And>st x. snd (lp_body p st x) = Inl (Inr ()) \<Longrightarrow> lp_cancelled p x"
    and c: "\<And>st x. lp_cancelled p x \<Longrightarrow> \<not> lp_awaits p st x"
    and inv: "\<And>st x. lv_place lv = InBranch st x \<Longrightarrow> \<not> lp_cancelled p x"
  shows "drv_of (lv_place (live_step p ev lv)) = drv_of (lv_place lv) \<or>
     drv_step (lv_cancelled lv) (drv_of (lv_place lv)) (drv_of (lv_place (live_step p ev lv)))"
proof (cases ev)
  case SetupReturns
  then show ?thesis
    using drv_step_settles(1) [OF setup_not_ok [of p], of "lv_cancelled lv"]
    by (cases "lv_place lv") (simp_all add: drv_of_settle)
next
  case (Fires x)
  show ?thesis
  proof (cases "lv_place lv")
    case (AtSelect st)
    show ?thesis
    proof (cases "snd (lp_body p st x) = Inl (Inr ())")
      case True
      then have "lp_cancelled p x" "\<not> lp_awaits p st x" using ok c by blast+
      then show ?thesis using True
        by (cases "lv_cancelled lv") (simp_all add: Fires AtSelect drv_of_settle drv_step_settles(3))
    next
      case False
      then show ?thesis
        using drv_step_settles(2) [OF False, of "lv_cancelled lv"] drv_step.branch_fires
        by (simp add: Fires AtSelect drv_of_settle)
    qed
  qed (simp_all add: Fires)
next
  case CallsReturn
  show ?thesis
  proof (cases "lv_place lv")
    case (InBranch st x)
    then have "snd (lp_body p st x) \<noteq> Inl (Inr ())" using ok inv by blast
    from drv_step_settles(1) [OF this] show ?thesis
      by (simp add: CallsReturn InBranch drv_of_settle)
  qed (simp_all add: CallsReturn)
qed simp

inductive reachable :: "RunnerConfig \<Rightarrow> mach \<Rightarrow> bool" for cfg where
  init: "reachable cfg init_mach"
| step: "reachable cfg m \<Longrightarrow> mstep cfg m m' \<Longrightarrow> reachable cfg m'"

text \<open>
  The invariant. The ticker is aborted exactly when the main task has left its loop by a
  \<open>break\<close>; a terminal status is pending only then and published only by its last step; once the
  task is done the status is terminal unless a tick that was in flight has overwritten it.
\<close>

fun left_loop :: "main_pc \<Rightarrow> bool" where
  "left_loop MDone = True"
| "left_loop (MFinish s) = True"
| "left_loop _ = False"

fun pending_terminal :: "main_pc \<Rightarrow> bool" where
  "pending_terminal (MFinish s) = is_terminal s"
| "pending_terminal _ = True"

fun is_running :: "SessionStatus \<Rightarrow> bool" where
  "is_running (Running u) = True"
| "is_running _ = False"

definition mach_inv :: "mach \<Rightarrow> bool" where
  "mach_inv m \<longleftrightarrow>
     m_aborted m = left_loop (m_pc m) \<and>
     pending_terminal (m_pc m) \<and>
     (is_terminal (m_status m) \<longrightarrow> m_pc m = MDone) \<and>
     (m_aborted m \<longrightarrow> m_tick m \<noteq> TickWaiting) \<and>
     (m_pc m = MStart) = (m_tick m = TickNone) \<and>
     (m_pc m = MDone \<longrightarrow> is_terminal (m_status m) \<or> m_tick m = TickDead \<and> is_running (m_status m))"

lemma mach_inv_init: "mach_inv init_mach"
  by (simp add: mach_inv_def init_mach_def status_channel_def)

lemma mach_inv_drv [simp]: "mach_inv (m\<lparr>m_drv := d\<rparr>) = mach_inv m"
  by (simp add: mach_inv_def)

lemma mach_inv_finish:
  "mach_inv m \<Longrightarrow> \<not> left_loop (m_pc m) \<Longrightarrow> m_pc m \<noteq> MStart \<Longrightarrow> is_terminal s
   \<Longrightarrow> mach_inv (finish s m)"
  by (cases "m_pc m") (simp_all add: mach_inv_def finish_def abort_uptime_def)

lemma mach_inv_step: "mstep cfg m m' \<Longrightarrow> mach_inv m \<Longrightarrow> mach_inv m'"
proof (induction rule: mstep.induct)
  case (tick_sends m u)
  then show ?case by (cases "m_pc m") (simp_all add: mach_inv_def)
next
  case (driver m d)
  then show ?case by simp
next
  case (send_last m s)
  then show ?case by (auto simp: mach_inv_def)
next
  case (connected m)
  then show ?case by (simp add: mach_inv_def)
next
  case (tick_fires m)
  then show ?case by (cases "m_pc m") (simp_all add: mach_inv_def)
next
  case (tick_cancelled m)
  then show ?case by (cases "m_pc m") (simp_all add: mach_inv_def)
qed (simp_all add: mach_inv_finish, simp_all add: mach_inv_def)

lemma reachable_inv: "reachable cfg m \<Longrightarrow> mach_inv m"
  by (induction rule: reachable.induct) (auto intro: mach_inv_init mach_inv_step)

text \<open>
  C14. In every reachable state a terminal status means that the main task is done, and when the
  main task is done the status is terminal, unless the ticker had a poll in flight when it was
  aborted, which then leaves \<open>Running\<close>.
\<close>

theorem machine_terminal_iff_done:
  assumes "reachable cfg m"
  shows "(is_terminal (m_status m) \<longrightarrow> m_pc m = MDone) \<and>
    (m_pc m = MDone \<longrightarrow> is_terminal (m_status m) \<or> m_tick m = TickDead \<and> is_running (m_status m))"
  using reachable_inv [OF assms] by (simp add: mach_inv_def)

definition top_mach :: mach where
  "top_mach = \<lparr>m_pc = MTop, m_backoff = backoff_default, m_cancelled = False,
     m_tick = TickWaiting, m_aborted = False, m_status = Starting,
     m_drv = NoDriver, m_drv_token = OtherToken\<rparr>"

lemma reachable_top: "reachable cfg top_mach"
proof -
  have "mstep cfg init_mach (init_mach\<lparr>m_pc := MTop, m_status := Starting, m_tick := TickWaiting\<rparr>)"
    by (rule mstep.start) (simp add: init_mach_def)
  from reachable.step [OF reachable.init this] show ?thesis
    by (simp add: init_mach_def top_mach_def)
qed

text \<open>A state from which no step changes the status any more.\<close>

definition settled :: "RunnerConfig \<Rightarrow> mach \<Rightarrow> SessionStatus \<Rightarrow> bool" where
  "settled cfg m s \<longleftrightarrow> (\<forall>m'. (mstep cfg)\<^sup>*\<^sup>* m m' \<longrightarrow> m_status m' = s)"

lemma mstep_done_dead:
  "mstep cfg m m' \<Longrightarrow> m_pc m = MDone \<and> m_tick m = TickDead \<Longrightarrow>
   m_pc m' = MDone \<and> m_tick m' = TickDead \<and> m_status m' = m_status m"
  by (induction rule: mstep.induct) simp_all

lemma mstep_panicked:
  "mstep cfg m m' \<Longrightarrow> m_pc m = MPanicked \<and> \<not> m_aborted m \<and> \<not> is_terminal (m_status m) \<Longrightarrow>
   m_pc m' = MPanicked \<and> \<not> m_aborted m' \<and> \<not> is_terminal (m_status m')"
  by (induction rule: mstep.induct) simp_all

lemma done_dead_settled:
  assumes "m_pc m = MDone" and "m_tick m = TickDead"
  shows "settled cfg m (m_status m)"
proof -
  have "m_pc m' = MDone \<and> m_tick m' = TickDead \<and> m_status m' = m_status m"
    if "(mstep cfg)\<^sup>*\<^sup>* m m'" for m'
    using that
  proof (induction rule: rtranclp_induct)
    case (step y z)
    from mstep_done_dead [OF step.hyps(2)] step.IH show ?case by simp
  qed (use assms in simp)
  then show ?thesis unfolding settled_def by blast
qed

text \<open>The main task ends while a tick is between its timer and its send.\<close>

definition fired_mach :: mach where
  "fired_mach = top_mach\<lparr>m_cancelled := True, m_tick := TickFired\<rparr>"

lemma reachable_fired: "reachable cfg fired_mach"
proof -
  have 1: "mstep cfg top_mach (top_mach\<lparr>m_tick := TickFired\<rparr>)"
    by (rule mstep.tick_fires) (simp add: top_mach_def)
  have 2: "mstep cfg (top_mach\<lparr>m_tick := TickFired\<rparr>) (top_mach\<lparr>m_tick := TickFired, m_cancelled := True\<rparr>)"
    by (rule mstep.cancel)
  from reachable.step [OF reachable.step [OF reachable_top 1] 2] show ?thesis
    by (simp add: fired_mach_def top_mach_def)
qed

definition stale_mach :: "u64 \<Rightarrow> mach" where
  "stale_mach u = \<lparr>m_pc = MDone, m_backoff = backoff_default, m_cancelled = True,
     m_tick = TickDead, m_aborted = True, m_status = Running u,
     m_drv = NoDriver, m_drv_token = OtherToken\<rparr>"

definition ended_mach :: "main_pc \<Rightarrow> SessionStatus \<Rightarrow> mach" where
  "ended_mach pc st = \<lparr>m_pc = pc, m_backoff = backoff_default, m_cancelled = True,
     m_tick = TickFired, m_aborted = True, m_status = st,
     m_drv = NoDriver, m_drv_token = OtherToken\<rparr>"

lemma finish_fired: "finish Stopped fired_mach = ended_mach (MFinish Stopped) Starting"
  by (simp add: finish_def abort_uptime_def fired_mach_def top_mach_def ended_mach_def)

lemma mstep_fired: "mstep cfg fired_mach (finish Stopped fired_mach)"
  by (rule mstep.top_cancelled) (simp_all add: fired_mach_def top_mach_def)

lemma mstep_ended: "mstep cfg (ended_mach (MFinish s) st) (ended_mach MDone s)"
proof -
  have "m_pc (ended_mach (MFinish s) st) = MFinish s" by (simp add: ended_mach_def)
  from mstep.send_last [OF this] show ?thesis by (simp add: ended_mach_def)
qed

lemma mstep_stale: "mstep cfg (ended_mach MDone st) (stale_mach u)"
proof -
  have "m_tick (ended_mach MDone st) = TickFired" by (simp add: ended_mach_def)
  from mstep.tick_sends [OF this, of cfg u] show ?thesis
    by (simp add: ended_mach_def stale_mach_def)
qed

lemma reachable_stale: "reachable cfg (stale_mach u)"
  using reachable.step [OF reachable_fired mstep_fired, unfolded finish_fired]
  by (rule reachable.step [OF reachable.step [OF _ mstep_ended] mstep_stale])

text \<open>
  A session that has ended can report \<open>Running\<close> for ever: a tick in flight when the ticker is
  aborted is sent after the terminal status, and nothing is sent after it.
\<close>

theorem stale_running_after_end:
  "\<exists>m. reachable cfg m \<and> m_pc m = MDone \<and> settled cfg m (Running u)"
  using reachable_stale [of cfg u] done_dead_settled [of "stale_mach u" cfg]
  by (intro exI [of _ "stale_mach u"]) (simp add: stale_mach_def)

text \<open>
  A session whose driver factory panics never reports an end: its main task is gone, but the
  ticker is never aborted, so in every later state the status is not terminal.
\<close>

theorem panicked_session_never_ends:
  assumes "reachable cfg m" and "m_pc m = MPanicked" and "(mstep cfg)\<^sup>*\<^sup>* m m'"
  shows "m_pc m' = MPanicked \<and> \<not> m_aborted m' \<and> \<not> is_terminal (m_status m')"
  using assms(3)
proof (induction rule: rtranclp_induct)
  case base
  show ?case using reachable_inv [OF assms(1)] assms(2) by (simp add: mach_inv_def)
next
  case (step y z)
  from mstep_panicked [OF step.hyps(2)] step.IH show ?case by simp
qed

theorem machine_terminal_iff_done_witness:
  "m_pc (ended_mach MDone Stopped) = MDone \<and> is_terminal (m_status (ended_mach MDone Stopped))"
proof -
  have "reachable \<lparr>rc_auto_reconnect = True, rc_max_attempts = None\<rparr> (ended_mach MDone Stopped)"
    using reachable.step [OF reachable_fired mstep_fired, unfolded finish_fired]
    by (rule reachable.step [OF _ mstep_ended])
  from machine_terminal_iff_done [OF this] show ?thesis
    by (auto simp: ended_mach_def)
qed

text \<open>The main task waits out a back-off delay after its first failure.\<close>

definition lost_mach :: "main_pc \<Rightarrow> u32 \<Rightarrow> tick_pc \<Rightarrow> SessionStatus \<Rightarrow> drv_pc \<Rightarrow> mach" where
  "lost_mach pc n tick st d = \<lparr>m_pc = pc, m_backoff = \<lparr>attempts = n\<rparr>, m_cancelled = False,
     m_tick = tick, m_aborted = False, m_status = st, m_drv = d, m_drv_token = SessionToken\<rparr>"

lemma reachable_joining: "reachable cfg (lost_mach MJoin 0 TickWaiting (Running 0) DrvCall)"
proof -
  have 1: "mstep cfg top_mach (lost_mach MSpawned 0 TickWaiting Starting DrvCall)"
    using mstep.top_spawn [of top_mach cfg] by (simp add: lost_mach_def top_mach_def backoff_default_def)
  have 2: "mstep cfg (lost_mach MSpawned 0 TickWaiting Starting DrvCall)
      (lost_mach MJoin 0 TickWaiting (Running 0) DrvCall)"
    using mstep.running [of "lost_mach MSpawned 0 TickWaiting Starting DrvCall" cfg 0]
    by (simp add: lost_mach_def)
  show ?thesis by (rule reachable.step [OF reachable.step [OF reachable_top 1] 2])
qed

lemma reachable_sleeping:
  assumes "rc_auto_reconnect cfg" and "rc_max_attempts cfg = None"
  shows "reachable cfg (lost_mach MSleep 1 TickWaiting (Reconnecting 1) NoDriver)"
proof -
  let ?j = "Returned (Inl (IoLost []))"
  have nd: "next_delay \<lparr>attempts = 0\<rparr> = (1, \<lparr>attempts = 1\<rparr>)"
    by (simp add: next_delay_def saturating_add_def)
  have 1: "mstep cfg (lost_mach MJoin 0 TickWaiting (Running 0) DrvCall)
      (lost_mach MJoin 0 TickWaiting (Running 0) (DrvEnded ?j))"
    using mstep.driver [of "lost_mach MJoin 0 TickWaiting (Running 0) DrvCall" "DrvEnded ?j" cfg]
      drv_step.call_fails [of ?j]
    by (simp add: lost_mach_def)
  have 2: "mstep cfg (lost_mach MJoin 0 TickWaiting (Running 0) (DrvEnded ?j))
      (lost_mach (MCheck 1 []) 1 TickWaiting (Reconnecting 1) NoDriver)"
    using mstep.lost_retry [of "lost_mach MJoin 0 TickWaiting (Running 0) (DrvEnded ?j)" ?j "[]" cfg 1 "\<lparr>attempts = 1\<rparr>"]
      assms(1) nd by (simp add: lost_mach_def attempt_def driver_res_def)
  have 3: "mstep cfg (lost_mach (MCheck 1 []) 1 TickWaiting (Reconnecting 1) NoDriver)
      (lost_mach MSleep 1 TickWaiting (Reconnecting 1) NoDriver)"
    using mstep.check_ok [of "lost_mach (MCheck 1 []) 1 TickWaiting (Reconnecting 1) NoDriver" 1 "[]" cfg]
      assms(2) by (simp add: lost_mach_def)
  show ?thesis
    by (rule reachable.step [OF reachable.step [OF reachable.step [OF reachable_joining 1] 2] 3])
qed

text \<open>
  While the session waits to reconnect, one tick of the uptime task replaces the published
  \<open>Reconnecting\<close> by \<open>Running\<close>, although no driver is running.
\<close>

theorem reconnecting_overwritten:
  "\<exists>m m'. reachable \<lparr>rc_auto_reconnect = True, rc_max_attempts = None\<rparr> m \<and>
     m_pc m = MSleep \<and> m_status m = Reconnecting 1 \<and>
     (mstep \<lparr>rc_auto_reconnect = True, rc_max_attempts = None\<rparr>)\<^sup>*\<^sup>* m m' \<and>
     m_pc m' = MSleep \<and> m_status m' = Running u"
proof -
  let ?cfg = "\<lparr>rc_auto_reconnect = True, rc_max_attempts = None\<rparr>"
  let ?m = "lost_mach MSleep 1 TickWaiting (Reconnecting 1) NoDriver"
  have 1: "mstep ?cfg ?m (lost_mach MSleep 1 TickFired (Reconnecting 1) NoDriver)"
    using mstep.tick_fires [of ?m ?cfg] by (simp add: lost_mach_def)
  have 2: "mstep ?cfg (lost_mach MSleep 1 TickFired (Reconnecting 1) NoDriver)
      (lost_mach MSleep 1 TickWaiting (Running u) NoDriver)"
    using mstep.tick_sends [of "lost_mach MSleep 1 TickFired (Reconnecting 1) NoDriver" ?cfg u]
    by (simp add: lost_mach_def)
  have "(mstep ?cfg)\<^sup>*\<^sup>* ?m (lost_mach MSleep 1 TickWaiting (Running u) NoDriver)"
    using 1 2 by (meson converse_rtranclp_into_rtranclp rtranclp.rtrancl_refl)
  moreover have "reachable ?cfg ?m" by (rule reachable_sleeping) simp_all
  ultimately show ?thesis
    by (intro exI [of _ ?m] exI [of _ "lost_mach MSleep 1 TickWaiting (Running u) NoDriver"])
      (simp add: lost_mach_def)
qed

definition panicked_mach :: mach where
  "panicked_mach = top_mach\<lparr>m_pc := MPanicked\<rparr>"

lemma reachable_panicked: "reachable cfg panicked_mach"
proof -
  have "mstep cfg top_mach (top_mach\<lparr>m_pc := MPanicked\<rparr>)"
    by (rule mstep.factory_panic) (simp_all add: top_mach_def)
  from reachable.step [OF reachable_top this] show ?thesis by (simp add: panicked_mach_def)
qed

theorem panicked_session_never_ends_witness:
  "m_pc panicked_mach = MPanicked \<and> \<not> m_aborted panicked_mach \<and>
   \<not> is_terminal (m_status panicked_mach)"
proof -
  have "m_pc panicked_mach = MPanicked" by (simp add: panicked_mach_def)
  from panicked_session_never_ends
    [OF reachable_panicked [of "\<lparr>rc_auto_reconnect = True, rc_max_attempts = None\<rparr>"] this
        rtranclp.rtrancl_refl]
  show ?thesis by blast
qed


subsection \<open>After a stop\<close>

text \<open>How many of its points the main task still passes once the token is cancelled.\<close>

fun points_left :: "main_pc \<Rightarrow> nat" where
  "points_left MSpawned = 6"
| "points_left MJoin = 5"
| "points_left (MCheck n reason) = 4"
| "points_left MSleep = 3"
| "points_left MStart = 3"
| "points_left MTop = 2"
| "points_left (MFinish s) = 1"
| "points_left MDone = 0"
| "points_left MPanicked = 0"

fun steps_from :: "RunnerConfig \<Rightarrow> mach \<Rightarrow> mach list \<Rightarrow> bool" where
  "steps_from cfg m [] = True"
| "steps_from cfg m (m' # ms) = (mstep cfg m m' \<and> steps_from cfg m' ms)"

text \<open>The steps of the main task among those of both tasks: the ones that change its point.\<close>

fun main_moves :: "mach \<Rightarrow> mach list \<Rightarrow> nat" where
  "main_moves m [] = 0"
| "main_moves m (m' # ms) = (if m_pc m' \<noteq> m_pc m then 1 else 0) + main_moves m' ms"

lemma cancelled_stays: "mstep cfg m m' \<Longrightarrow> m_cancelled m \<Longrightarrow> m_cancelled m'"
  by (induction rule: mstep.induct) (simp_all add: finish_def abort_uptime_def)

lemma points_decrease:
  "mstep cfg m m' \<Longrightarrow> m_cancelled m \<Longrightarrow>
   m_pc m' = m_pc m \<or> points_left (m_pc m') < points_left (m_pc m)"
  by (induction rule: mstep.induct) (auto simp: finish_def abort_uptime_def)

lemma moves_bounded:
  "steps_from cfg m ms \<Longrightarrow> m_cancelled m \<Longrightarrow>
   m_cancelled (last (m # ms)) \<and> main_moves m ms + points_left (m_pc (last (m # ms))) \<le> points_left (m_pc m)"
proof (induction ms arbitrary: m)
  case (Cons m' ms)
  then have "m_cancelled m'" using cancelled_stays by auto
  with Cons show ?case using points_decrease [of cfg m m'] by fastforce
qed simp

text \<open>
  Between the spawn and the join there is a driver, and the token it holds is the session's.
\<close>

definition drv_inv :: "mach \<Rightarrow> bool" where
  "drv_inv m \<longleftrightarrow> (m_pc m \<in> {MSpawned, MJoin}) = (m_drv m \<noteq> NoDriver) \<and>
     (m_drv m \<noteq> NoDriver \<longrightarrow> m_drv_token m = SessionToken)"

inductive_cases drv_stepE [elim!]: "drv_step t d d'"

lemma drv_inv_step: "mstep cfg m m' \<Longrightarrow> drv_inv m \<Longrightarrow> drv_inv m'"
  by (induction rule: mstep.induct) (auto simp: drv_inv_def finish_def abort_uptime_def)

lemma reachable_drv_inv: "reachable cfg m \<Longrightarrow> drv_inv m"
proof (induction rule: reachable.induct)
  case init
  show ?case by (simp add: drv_inv_def init_mach_def)
qed (rule drv_inv_step)

lemma steps_reachable: "steps_from cfg m ms \<Longrightarrow> reachable cfg m \<Longrightarrow> reachable cfg (last (m # ms))"
proof (induction ms arbitrary: m)
  case (Cons m' ms)
  from Cons.prems have "reachable cfg m'" by (auto intro: reachable.step)
  with Cons show ?case by simp
qed simp

lemma join_progress:
  assumes "m_pc m = MJoin" and "m_drv m = DrvEnded j"
  shows "\<exists>m'. mstep cfg m m' \<and> points_left (m_pc m') < points_left (m_pc m)"
proof (cases "driver_res j")
  case (Inr u)
  then show ?thesis using mstep.driver_ok [OF assms, of cfg] assms(1) by (fastforce simp: finish_def)
next
  case (Inl e)
  show ?thesis
  proof (cases e)
    case (Fatal reason)
    with Inl mstep.driver_fatal [OF assms, of reason cfg] assms(1) show ?thesis by (fastforce simp: finish_def)
  next
    case (IoLost reason)
    with Inl have r: "driver_res j = Inl (IoLost reason)" by simp
    obtain d b where nd: "next_delay (m_backoff m) = (d, b)" by force
    show ?thesis
      using mstep.lost_stop [OF assms r, of cfg] mstep.lost_retry [OF assms r _ nd, of cfg] assms(1)
      by (cases "rc_auto_reconnect cfg") (fastforce simp: finish_def)+
  qed
qed

lemma cancelled_progress:
  assumes "m_cancelled m" and "drv_inv m" and "points_left (m_pc m) \<noteq> 0"
  shows "(\<exists>m'. mstep cfg m m' \<and> points_left (m_pc m') < points_left (m_pc m)) \<or>
    m_pc m = MJoin \<and> (m_drv m = DrvCall \<or>
      m_drv m = DrvSelect \<and> mstep cfg m (m\<lparr>m_drv := DrvEnded (Returned (Inr ()))\<rparr>))"
proof (cases "m_pc m")
  case MStart
  then show ?thesis using mstep.start [OF MStart, of cfg] by fastforce
next
  case MTop
  then show ?thesis using mstep.top_cancelled [OF MTop assms(1), of cfg] by (fastforce simp: finish_def)
next
  case MSpawned
  then show ?thesis using mstep.running [OF MSpawned, of cfg] by fastforce
next
  case MJoin
  show ?thesis
  proof (cases "m_drv m")
    case NoDriver
    with assms(2) MJoin show ?thesis by (simp add: drv_inv_def)
  next
    case DrvSelect
    with assms(1,2) have "drv_step (drv_triggered m) (m_drv m) (DrvEnded (Returned (Inr ())))"
      by (simp add: drv_triggered_def drv_inv_def drv_step.sees_cancel)
    from mstep.driver [OF this] DrvSelect MJoin show ?thesis by blast
  next
    case (DrvEnded j)
    from join_progress [OF MJoin this] show ?thesis by blast
  qed (simp add: MJoin)
next
  case (MCheck n r)
  show ?thesis
  proof (cases "\<exists>k. rc_max_attempts cfg = Some k \<and> k < n")
    case True
    then show ?thesis using mstep.check_exceeded [of m n r cfg] MCheck by (fastforce simp: finish_def)
  next
    case False
    then show ?thesis using mstep.check_ok [OF MCheck False] MCheck by fastforce
  qed
next
  case MSleep
  then show ?thesis using mstep.sleep_done [OF MSleep, of cfg] by fastforce
next
  case (MFinish s)
  then show ?thesis using mstep.send_last [OF MFinish, of cfg] by fastforce
qed (use assms(3) in simp_all)

text \<open>
  C12. What a stop guarantees. Once the token of a session is cancelled, the main task passes at most
  six more of its program points, in whatever order the tasks run: it never goes around the loop to
  start the driver again. Until it has ended there is always a next step of its own, except while it
  waits for its driver; and then either the driver is at its \<open>select!\<close>, where the token it was given
  is triggered and makes it end with \<open>Ok(())\<close>, or the driver is inside a call, which does not see
  the token: a stop waits as long as that call takes.
\<close>
theorem stopped_session_ends:
  assumes "reachable cfg m" and "m_cancelled m" and "steps_from cfg m ms" and "e = last (m # ms)"
  shows "main_moves m ms \<le> points_left (m_pc m) \<and> points_left (m_pc m) \<le> 6 \<and>
    (m_pc e = MDone \<or> m_pc e = MPanicked \<or>
     (\<exists>m'. mstep cfg e m' \<and> points_left (m_pc m') < points_left (m_pc e)) \<or>
     m_pc e = MJoin \<and> (m_drv e = DrvCall \<or>
       m_drv e = DrvSelect \<and> mstep cfg e (e\<lparr>m_drv := DrvEnded (Returned (Inr ()))\<rparr>)))"
proof -
  have b: "m_cancelled e" "main_moves m ms \<le> points_left (m_pc m)"
    using moves_bounded [OF assms(3,2)] assms(4) by auto
  have i: "drv_inv e"
    using reachable_drv_inv steps_reachable [OF assms(3,1)] assms(4) by blast
  have "points_left p \<le> 6 \<and> (points_left p = 0 \<longrightarrow> p = MDone \<or> p = MPanicked)" for p by (cases p) simp_all
  with b cancelled_progress [OF b(1) i, of cfg] show ?thesis by blast
qed

text \<open>
  While the driver is inside a call, a stopped session stays where it is: no step but one of the
  driver moves the main task, and the status stays one that is not terminal.
\<close>

lemma blocked_driver_blocks_stop:
  "mstep cfg m m' \<Longrightarrow> m_pc m = MJoin \<Longrightarrow> m_drv m = DrvCall \<Longrightarrow> \<not> is_terminal (m_status m) \<Longrightarrow>
   m_drv m' \<noteq> DrvCall \<or> (m_pc m' = MJoin \<and> \<not> is_terminal (m_status m'))"
  by (induction rule: mstep.induct) auto

text \<open>
  Stopped while the driver sends what it has read: the call returns, the driver sees the token at
  its \<open>select!\<close>, and the loop ends.
\<close>
theorem stopped_session_ends_witness:
  "\<exists>m ms. reachable \<lparr>rc_auto_reconnect = True, rc_max_attempts = None\<rparr> m \<and> m_cancelled m \<and>
     steps_from \<lparr>rc_auto_reconnect = True, rc_max_attempts = None\<rparr> m ms \<and>
     m_pc m = MJoin \<and> m_drv m = DrvCall \<and>
     m_pc (last (m # ms)) = MDone \<and> main_moves m ms = 2 \<and> main_moves m ms \<le> points_left (m_pc m)"
proof -
  let ?c = "\<lparr>rc_auto_reconnect = True, rc_max_attempts = None\<rparr>"
  let ?j = "lost_mach MJoin 0 TickWaiting (Running 0) DrvCall"
  let ?m = "?j\<lparr>m_cancelled := True\<rparr>"
  let ?s = "?m\<lparr>m_drv := DrvSelect\<rparr>"
  let ?o = "?s\<lparr>m_drv := DrvEnded (Returned (Inr ()))\<rparr>"
  let ?f = "finish Stopped (?o\<lparr>m_drv := NoDriver\<rparr>)"
  let ?d = "?f\<lparr>m_pc := MDone, m_status := Stopped\<rparr>"
  have r: "reachable ?c ?m" by (rule reachable.step [OF reachable_joining mstep.cancel])
  have 1: "mstep ?c ?m ?s" by (rule mstep.driver) (simp add: lost_mach_def drv_step.call_returns)
  have 2: "mstep ?c ?s ?o"
    by (rule mstep.driver) (simp add: lost_mach_def drv_triggered_def drv_step.sees_cancel)
  have 3: "mstep ?c ?o ?f"
    by (rule mstep.driver_ok [where j = "Returned (Inr ())"]) (simp_all add: lost_mach_def driver_res_def)
  have 4: "mstep ?c ?f ?d" by (rule mstep.send_last) (simp add: finish_def)
  have s: "steps_from ?c ?m [?s, ?o, ?f, ?d]"
    using 1 2 3 4 by simp
  have c: "m_cancelled ?m" by simp
  show ?thesis
    using stopped_session_ends [OF r c s refl] s r
    by (intro exI [of _ ?m] exI [of _ "[?s, ?o, ?f, ?d]"])
      (simp add: finish_def abort_uptime_def lost_mach_def)
qed

end
