(* ===== verification/Runner_Pipes.thy ===== *)
theory Runner_Pipes
  imports Driver "HOL-Library.Sublist"
begin

text \<open>
  The two tasks that \<open>run_loop\<close> (\<open>crates/termhub-core/src/runner.rs\<close>) puts around a driver: the bridge,
  which moves what the clients type from the hub to the driver, and the event pump, which moves the
  driver's events to the hub. Both are joined to one attempt: when the driver has ended, the bridge is
  cancelled and awaited, the pump is aborted, and the next attempt begins with new channels and tasks.
  The queue of the hub, \<open>up_rx\<close>, is kept over all attempts. The code does not await the aborted pump;
  the next attempt is taken to begin when it is gone, which it is at its next \<open>await\<close>.
\<close>

datatype bridge_pc = BrRecv | BrSend bytes | BrEnded

datatype pump_pc = PmRecv | PmSend bytes | PmEnded

datatype join_pc = AwaitDriver | AwaitBridge | PumpAborted

text \<open>
  The last five fields only record what has happened: what was typed and what the drivers took of it,
  what they emitted and what of it was handled, and the number of attempts before this one.
\<close>

record pipes =
  pp_up :: "bytes list"
  pp_in :: "bytes list"
  pp_bridge :: bridge_pc
  pp_cancel :: bool
  pp_driver :: bool
  pp_evt :: "DriverEvent list"
  pp_pump :: pump_pc
  pp_join :: join_pc
  pp_typed :: "bytes list"
  pp_taken :: "bytes list"
  pp_emitted :: "DriverEvent list"
  pp_handled :: "DriverEvent list"
  pp_before :: nat

definition pipes_start :: pipes where
  "pipes_start = \<lparr>pp_up = [], pp_in = [], pp_bridge = BrRecv, pp_cancel = False, pp_driver = True,
     pp_evt = [], pp_pump = PmRecv, pp_join = AwaitDriver,
     pp_typed = [], pp_taken = [], pp_emitted = [], pp_handled = [], pp_before = 0\<rparr>"

text \<open>The capacity of the two channels of an attempt.\<close>

abbreviation drv_capacity :: nat where
  "drv_capacity \<equiv> 256"

text \<open>Who takes the next step. A branch of a \<open>select!\<close> is a step of its own.\<close>

datatype pipe_op =
    Types bytes            \<comment> \<open>a client's input enters the queue of the hub\<close>
  | BridgeRecv | BridgeCancelled | BridgeSend
  | DriverTakes | DriverEmits DriverEvent | DriverEnds
  | PumpRecv | PumpSend | PumpGone
  | CancelBridge | AbortPump | NextAttempt

subsection \<open>The bridge\<close>

text \<open>
  \<open>drv_in_tx.send\<close> waits while the channel is full and fails when the driver, with its receiver, is gone.
  \<open>None\<close>: the step is not possible in this state.
\<close>

fun bridge_step :: "pipe_op \<Rightarrow> pipes \<Rightarrow> pipes option" where
  "bridge_step BridgeRecv c =
     (case (pp_bridge c, pp_up c) of
        (BrRecv, b # q) \<Rightarrow> Some (c\<lparr>pp_bridge := BrSend b, pp_up := q\<rparr>)
      | _ \<Rightarrow> None)"
| "bridge_step BridgeCancelled c =
     (if pp_bridge c = BrRecv \<and> pp_cancel c then Some (c\<lparr>pp_bridge := BrEnded\<rparr>) else None)"
| "bridge_step BridgeSend c =
     (case pp_bridge c of
        BrSend b \<Rightarrow>
          if \<not> pp_driver c then Some (c\<lparr>pp_bridge := BrEnded\<rparr>)
          else if length (pp_in c) < drv_capacity then Some (c\<lparr>pp_bridge := BrRecv, pp_in := pp_in c @ [b]\<rparr>)
          else None
      | _ \<Rightarrow> None)"
| "bridge_step _ c = None"

subsection \<open>The event pump\<close>

text \<open>
  It ends when the channel is empty and its sender is gone. After \<open>abort\<close> it may go on until it next
  yields (\<open>PumpGone\<close>).
\<close>

fun pump_step :: "pipe_op \<Rightarrow> pipes \<Rightarrow> pipes option" where
  "pump_step PumpRecv c =
     (case (pp_pump c, pp_evt c) of
        (PmRecv, Output b # es) \<Rightarrow> Some (c\<lparr>pp_pump := PmSend b, pp_evt := es\<rparr>)
      | (PmRecv, e # es) \<Rightarrow> Some (c\<lparr>pp_evt := es, pp_handled := pp_handled c @ [e]\<rparr>)
      | (PmRecv, []) \<Rightarrow> if pp_driver c then None else Some (c\<lparr>pp_pump := PmEnded\<rparr>)
      | _ \<Rightarrow> None)"
| "pump_step PumpSend c =
     (case pp_pump c of
        PmSend b \<Rightarrow> Some (c\<lparr>pp_pump := PmRecv, pp_handled := pp_handled c @ [Output b]\<rparr>)
      | _ \<Rightarrow> None)"
| "pump_step PumpGone c =
     (if pp_join c = PumpAborted then Some (c\<lparr>pp_pump := PmEnded, pp_evt := []\<rparr>) else None)"
| "pump_step _ c = None"

subsection \<open>One attempt after the other\<close>

text \<open>
  The driver's end drops its receiver with what is in it. The main task waits for it, cancels the
  bridge, waits for that, and aborts the pump. (Between two attempts lies a wait of at least a second, in
  which the aborted task goes.)
\<close>

fun attempt_step :: "pipe_op \<Rightarrow> pipes \<Rightarrow> pipes option" where
  "attempt_step (Types b) c = Some (c\<lparr>pp_up := pp_up c @ [b], pp_typed := pp_typed c @ [b]\<rparr>)"
| "attempt_step DriverTakes c =
     (case pp_in c of
        b # q \<Rightarrow> if pp_driver c then Some (c\<lparr>pp_in := q, pp_taken := pp_taken c @ [b]\<rparr>) else None
      | [] \<Rightarrow> None)"
| "attempt_step (DriverEmits e) c =
     (if pp_driver c \<and> length (pp_evt c) < drv_capacity
      then Some (c\<lparr>pp_evt := pp_evt c @ [e], pp_emitted := pp_emitted c @ [e]\<rparr>) else None)"
| "attempt_step DriverEnds c =
     (if pp_driver c then Some (c\<lparr>pp_driver := False, pp_in := []\<rparr>) else None)"
| "attempt_step CancelBridge c =
     (if pp_join c = AwaitDriver \<and> \<not> pp_driver c
      then Some (c\<lparr>pp_cancel := True, pp_join := AwaitBridge\<rparr>) else None)"
| "attempt_step AbortPump c =
     (if pp_join c = AwaitBridge \<and> pp_bridge c = BrEnded
      then Some (c\<lparr>pp_join := PumpAborted\<rparr>) else None)"
| "attempt_step NextAttempt c =
     (if pp_join c = PumpAborted \<and> pp_pump c = PmEnded
      then Some (c\<lparr>pp_bridge := BrRecv, pp_cancel := False, pp_driver := True, pp_evt := [],
                   pp_pump := PmRecv, pp_join := AwaitDriver, pp_before := pp_before c + 1\<rparr>)
      else None)"
| "attempt_step _ c = None"

definition pipe_step :: "pipe_op \<Rightarrow> pipes \<Rightarrow> pipes option" where
  "pipe_step x c =
     (if x \<in> {BridgeRecv, BridgeCancelled, BridgeSend} then bridge_step x c
      else if x \<in> {PumpRecv, PumpSend, PumpGone} then pump_step x c
      else attempt_step x c)"

fun pipe_run :: "pipe_op list \<Rightarrow> pipes \<Rightarrow> pipes option" where
  "pipe_run [] c = Some c"
| "pipe_run (x # xs) c = Option.bind (pipe_step x c) (pipe_run xs)"

subsection \<open>What arrives\<close>

fun in_bridge :: "bridge_pc \<Rightarrow> bytes list" where
  "in_bridge (BrSend b) = [b]"
| "in_bridge _ = []"

fun in_pump :: "pump_pc \<Rightarrow> DriverEvent list" where
  "in_pump (PmSend b) = [Output b]"
| "in_pump _ = []"

definition underway_in :: "pipes \<Rightarrow> bytes list" where
  "underway_in c = pp_taken c @ pp_in c @ in_bridge (pp_bridge c)"

definition underway_out :: "pipes \<Rightarrow> DriverEvent list" where
  "underway_out c = pp_handled c @ in_pump (pp_pump c) @ pp_evt c"

text \<open>
  Of what is not in the queue of the hub any more (\<open>f\<close>), at most 257 messages are lost in each attempt
  that has ended: the 256 of the channel and the one in the bridge. Likewise for the events.
\<close>

definition input_inv :: "pipes \<Rightarrow> bool" where
  "input_inv c \<longleftrightarrow> (\<exists>f. pp_typed c = f @ pp_up c \<and> subseq (underway_in c) f \<and>
     length f \<le> length (underway_in c) + 257 * pp_before c +
       (if pp_driver c then 0 else if pp_bridge c = BrEnded then 257 else 256))"

definition output_inv :: "pipes \<Rightarrow> bool" where
  "output_inv c \<longleftrightarrow> subseq (underway_out c) (pp_emitted c) \<and>
     length (pp_emitted c) \<le> length (underway_out c) + 257 * pp_before c +
       (if pp_pump c = PmEnded \<and> \<not> pp_driver c then 257 else 0)"

definition attempt_inv :: "pipes \<Rightarrow> bool" where
  "attempt_inv c \<longleftrightarrow> length (pp_in c) \<le> drv_capacity \<and> length (pp_evt c) \<le> drv_capacity \<and>
     (pp_driver c \<longrightarrow> pp_join c = AwaitDriver \<and> \<not> pp_cancel c \<and> pp_bridge c \<noteq> BrEnded \<and> pp_pump c \<noteq> PmEnded) \<and>
     (\<not> pp_driver c \<longrightarrow> pp_in c = []) \<and>
     (pp_join c = AwaitBridge \<longrightarrow> pp_cancel c) \<and>
     (pp_join c = PumpAborted \<longrightarrow> pp_bridge c = BrEnded) \<and>
     (pp_pump c = PmEnded \<longrightarrow> pp_evt c = [])"


text \<open>Each step as the condition under which it is possible and the state it leaves.\<close>

lemma bridge_step_iff:
  "pipe_step BridgeRecv c = Some c' \<longleftrightarrow>
     (\<exists>b q. pp_bridge c = BrRecv \<and> pp_up c = b # q \<and> c' = c\<lparr>pp_bridge := BrSend b, pp_up := q\<rparr>)"
  "pipe_step BridgeCancelled c = Some c' \<longleftrightarrow>
     pp_bridge c = BrRecv \<and> pp_cancel c \<and> c' = c\<lparr>pp_bridge := BrEnded\<rparr>"
  "pipe_step BridgeSend c = Some c' \<longleftrightarrow>
     (\<exists>b. pp_bridge c = BrSend b \<and>
       (if pp_driver c
        then length (pp_in c) < drv_capacity \<and> c' = c\<lparr>pp_bridge := BrRecv, pp_in := pp_in c @ [b]\<rparr>
        else c' = c\<lparr>pp_bridge := BrEnded\<rparr>))"
  by (auto simp: pipe_step_def split: bridge_pc.splits list.splits)

lemma pump_step_iff:
  "pipe_step PumpRecv c = Some c' \<longleftrightarrow> pp_pump c = PmRecv \<and>
     (case pp_evt c of
        [] \<Rightarrow> \<not> pp_driver c \<and> c' = c\<lparr>pp_pump := PmEnded\<rparr>
      | e # es \<Rightarrow>
          (\<exists>b. e = Output b \<and> c' = c\<lparr>pp_pump := PmSend b, pp_evt := es\<rparr>) \<or>
          (\<nexists>b. e = Output b) \<and> c' = c\<lparr>pp_evt := es, pp_handled := pp_handled c @ [e]\<rparr>)"
  "pipe_step PumpSend c = Some c' \<longleftrightarrow>
     (\<exists>b. pp_pump c = PmSend b \<and> c' = c\<lparr>pp_pump := PmRecv, pp_handled := pp_handled c @ [Output b]\<rparr>)"
  "pipe_step PumpGone c = Some c' \<longleftrightarrow>
     pp_join c = PumpAborted \<and> c' = c\<lparr>pp_pump := PmEnded, pp_evt := []\<rparr>"
  by (auto simp: pipe_step_def split: pump_pc.splits list.splits DriverEvent.splits)

lemma attempt_step_iff:
  "pipe_step (Types b) c = Some c' \<longleftrightarrow> c' = c\<lparr>pp_up := pp_up c @ [b], pp_typed := pp_typed c @ [b]\<rparr>"
  "pipe_step DriverTakes c = Some c' \<longleftrightarrow>
     (\<exists>b q. pp_in c = b # q \<and> pp_driver c \<and> c' = c\<lparr>pp_in := q, pp_taken := pp_taken c @ [b]\<rparr>)"
  "pipe_step (DriverEmits e) c = Some c' \<longleftrightarrow> pp_driver c \<and> length (pp_evt c) < drv_capacity \<and>
     c' = c\<lparr>pp_evt := pp_evt c @ [e], pp_emitted := pp_emitted c @ [e]\<rparr>"
  "pipe_step DriverEnds c = Some c' \<longleftrightarrow> pp_driver c \<and> c' = c\<lparr>pp_driver := False, pp_in := []\<rparr>"
  "pipe_step CancelBridge c = Some c' \<longleftrightarrow> pp_join c = AwaitDriver \<and> \<not> pp_driver c \<and>
     c' = c\<lparr>pp_cancel := True, pp_join := AwaitBridge\<rparr>"
  "pipe_step AbortPump c = Some c' \<longleftrightarrow> pp_join c = AwaitBridge \<and> pp_bridge c = BrEnded \<and>
     c' = c\<lparr>pp_join := PumpAborted\<rparr>"
  "pipe_step NextAttempt c = Some c' \<longleftrightarrow> pp_join c = PumpAborted \<and> pp_pump c = PmEnded \<and>
     c' = c\<lparr>pp_bridge := BrRecv, pp_cancel := False, pp_driver := True, pp_evt := [],
            pp_pump := PmRecv, pp_join := AwaitDriver, pp_before := pp_before c + 1\<rparr>"
  by (auto simp: pipe_step_def split: list.splits)

lemmas pipe_step_iff = bridge_step_iff pump_step_iff attempt_step_iff

lemma attempt_inv_step:
  assumes "pipe_step x c = Some c'" and "attempt_inv c"
  shows "attempt_inv c'"
proof (cases x)
  case PumpRecv
  with assms show ?thesis
    by (cases "pp_evt c"; cases "pp_driver c") (auto simp: pipe_step_iff attempt_inv_def)
next
  case BridgeSend
  with assms show ?thesis
    by (cases "pp_driver c") (clarsimp simp: pipe_step_iff attempt_inv_def)+
next
  case AbortPump
  with assms show ?thesis
    by (cases "pp_driver c") (clarsimp simp: pipe_step_iff attempt_inv_def)+
qed (use assms in \<open>clarsimp simp: pipe_step_iff attempt_inv_def\<close>; fail)+

lemma subseq_snoc: "subseq xs f \<Longrightarrow> subseq (xs @ [b]) (f @ [b])"
  by (simp add: list_emb_append_mono)

lemma subseq_drop_middle: "subseq (a @ b @ d) f \<Longrightarrow> subseq (a @ d) f"
  by (rule subseq_order.trans [rotated]) (auto intro: list_emb_append_mono simp: list_emb_append2)

lemma input_invI:
  assumes "pp_typed c = f @ pp_up c" and "subseq (underway_in c) f"
    and "length f \<le> length (underway_in c) + 257 * pp_before c +
       (if pp_driver c then 0 else if pp_bridge c = BrEnded then 257 else 256)"
  shows "input_inv c"
  using assms unfolding input_inv_def by blast

lemma input_inv_step:
  assumes "pipe_step x c = Some c'" and "attempt_inv c" and "input_inv c"
  shows "input_inv c'"
proof -
  obtain f where f: "pp_typed c = f @ pp_up c" "subseq (underway_in c) f"
    "length f \<le> length (underway_in c) + 257 * pp_before c +
       (if pp_driver c then 0 else if pp_bridge c = BrEnded then 257 else 256)"
    using assms(3) by (auto simp: input_inv_def)
  show ?thesis
  proof (cases x)
    case BridgeRecv
    with assms(1) obtain b q where "pp_bridge c = BrRecv" "pp_up c = b # q"
      "c' = c\<lparr>pp_bridge := BrSend b, pp_up := q\<rparr>" by (auto simp: pipe_step_iff)
    with f subseq_snoc [OF f(2), of b] show ?thesis
      by (intro input_invI [of _ "f @ [b]"]) (auto simp: underway_in_def split: if_splits)
  next
    case BridgeSend
    then obtain b where b: "pp_bridge c = BrSend b" using assms(1) by (auto simp: pipe_step_iff)
    have "subseq (pp_taken c @ pp_in c) f"
      using subseq_drop_middle [of "pp_taken c @ pp_in c" "[b]" "[]" f] f(2) b
      by (simp add: underway_in_def)
    with BridgeSend assms(1) b f show ?thesis
      by (intro input_invI [of _ f]) (auto simp: pipe_step_iff underway_in_def split: if_splits)
  next
    case DriverEnds
    have "subseq (pp_taken c @ in_bridge (pp_bridge c)) f"
      using subseq_drop_middle [of "pp_taken c" "pp_in c"] f(2) by (simp add: underway_in_def)
    moreover have "length (pp_in c) \<le> 256" using assms(2) by (simp add: attempt_inv_def)
    ultimately show ?thesis using f DriverEnds assms(1)
      by (intro input_invI [of _ f]) (auto simp: pipe_step_iff underway_in_def)
  next
    case NextAttempt
    have "\<not> pp_driver c" "pp_bridge c = BrEnded"
      using NextAttempt assms(1,2) by (auto simp: pipe_step_iff attempt_inv_def)
    with NextAttempt assms(1) f show ?thesis
      by (intro input_invI [of _ f]) (auto simp: pipe_step_iff underway_in_def)
  next
    case PumpRecv
    with assms(1) f show ?thesis
      by (cases "pp_evt c") (auto simp: pipe_step_iff underway_in_def intro!: input_invI [of _ f])
  next
    case BridgeCancelled
    with assms(1) f show ?thesis
      by (intro input_invI [of _ f]) (auto simp: pipe_step_iff underway_in_def split: if_splits)
  qed (use assms(1) f in \<open>auto simp: pipe_step_iff underway_in_def intro!: input_invI [of _ f]\<close>)
qed

lemma output_inv_step:
  assumes "pipe_step x c = Some c'" and "attempt_inv c" and "output_inv c"
  shows "output_inv c'"
proof -
  have sub: "subseq (underway_out c) (pp_emitted c)"
    and len: "length (pp_emitted c) \<le> length (underway_out c) + 257 * pp_before c +
       (if pp_pump c = PmEnded \<and> \<not> pp_driver c then 257 else 0)"
    using assms(3) by (simp_all add: output_inv_def)
  show ?thesis
  proof (cases x)
    case (DriverEmits e)
    then have c': "pp_driver c" "c' = c\<lparr>pp_evt := pp_evt c @ [e], pp_emitted := pp_emitted c @ [e]\<rparr>"
      using assms(1) by (auto simp: pipe_step_iff)
    with len subseq_snoc [OF sub, of e] show ?thesis
      by (simp add: output_inv_def underway_out_def)
  next
    case PumpGone
    then have c': "c' = c\<lparr>pp_pump := PmEnded, pp_evt := []\<rparr>" "pp_join c = PumpAborted"
      using assms(1) by (auto simp: pipe_step_iff)
    have st: "\<not> pp_driver c" "length (pp_evt c) \<le> 256" "pp_pump c = PmEnded \<longrightarrow> pp_evt c = []"
      using assms(2) c'(2) by (auto simp: attempt_inv_def)
    have "subseq (pp_handled c) (pp_emitted c)"
      using subseq_drop_middle [of "pp_handled c" "in_pump (pp_pump c) @ pp_evt c" "[]"] sub
      by (simp add: underway_out_def)
    with st len c' show ?thesis
      by (cases "pp_pump c") (simp_all add: output_inv_def underway_out_def)
  next
    case PumpRecv
    have "pp_pump c = PmRecv" using PumpRecv assms(1) by (simp add: pipe_step_iff)
    with PumpRecv assms(1) sub len show ?thesis
      by (cases "pp_evt c") (auto simp: pipe_step_iff output_inv_def underway_out_def)
  next
    case NextAttempt
    have "\<not> pp_driver c" "pp_pump c = PmEnded" "pp_evt c = []"
      using NextAttempt assms(1,2) by (auto simp: pipe_step_iff attempt_inv_def)
    with NextAttempt assms(1) sub len show ?thesis
      by (auto simp: pipe_step_iff output_inv_def underway_out_def)
  next
    case DriverEnds
    with assms(1,2) sub len show ?thesis
      by (auto simp: pipe_step_iff output_inv_def underway_out_def attempt_inv_def)
  qed (use assms(1) sub len in \<open>auto simp: pipe_step_iff output_inv_def underway_out_def split: if_splits\<close>)
qed

lemma pipe_run_inv:
  "pipe_run xs c = Some c' \<Longrightarrow> attempt_inv c \<and> input_inv c \<and> output_inv c \<Longrightarrow>
   attempt_inv c' \<and> input_inv c' \<and> output_inv c'"
proof (induction xs arbitrary: c)
  case (Cons x xs)
  then obtain d where d: "pipe_step x c = Some d" "pipe_run xs d = Some c'"
    by (auto simp: bind_eq_Some_conv)
  with Cons show ?case
    using attempt_inv_step input_inv_step output_inv_step by metis
qed simp

lemma pipes_start_inv: "attempt_inv pipes_start \<and> input_inv pipes_start \<and> output_inv pipes_start"
  by (simp add: pipes_start_def attempt_inv_def input_inv_def output_inv_def underway_in_def underway_out_def)


text \<open>
  C13. A session's two streams keep their order over reconnects. Whatever the interleaving of clients,
  bridge, driver, pump and main task and however often the driver ends: what the drivers have taken
  together is a subsequence of what was typed up to what still waits in the hub's queue (nothing
  typed while there is no driver is lost), and what the pump has handled is a subsequence of what the
  drivers emitted. Nothing is lost while the first driver runs, and at most 257 messages in
  either direction with each driver that has ended.
\<close>
theorem streams_keep_order:
  assumes "pipe_run xs pipes_start = Some c"
  shows "(\<exists>f. pp_typed c = f @ pp_up c \<and> subseq (pp_taken c) f \<and>
      length f \<le> length (pp_taken c) + length (pp_in c) + 1 + 257 * (pp_before c + (if pp_driver c then 0 else 1))) \<and>
    subseq (pp_handled c) (pp_emitted c) \<and>
    length (pp_emitted c) \<le> length (pp_handled c) + length (pp_evt c) + 1 +
      257 * (pp_before c + (if pp_driver c then 0 else 1))"
proof (intro conjI)
  note inv = pipe_run_inv [OF assms pipes_start_inv]
  have b: "length (in_bridge (pp_bridge c)) \<le> 1" "length (in_pump (pp_pump c)) \<le> 1"
    by (cases "pp_bridge c"; simp) (cases "pp_pump c"; simp)
  obtain f where f: "pp_typed c = f @ pp_up c" "subseq (underway_in c) f"
    "length f \<le> length (underway_in c) + 257 * pp_before c +
       (if pp_driver c then 0 else if pp_bridge c = BrEnded then 257 else 256)"
    using inv by (auto simp: input_inv_def)
  have "subseq (pp_taken c) f"
    using subseq_drop_middle [of "pp_taken c" "pp_in c @ in_bridge (pp_bridge c)" "[]"] f(2)
    by (simp add: underway_in_def)
  moreover have "length f \<le> length (pp_taken c) + length (pp_in c) + 1 +
      257 * (pp_before c + (if pp_driver c then 0 else 1))"
    using f(3) b(1) by (auto simp: underway_in_def split: if_splits)
  ultimately show "\<exists>f. pp_typed c = f @ pp_up c \<and> subseq (pp_taken c) f \<and>
      length f \<le> length (pp_taken c) + length (pp_in c) + 1 + 257 * (pp_before c + (if pp_driver c then 0 else 1))"
    using f(1) by blast
  have out: "subseq (underway_out c) (pp_emitted c)"
    "length (pp_emitted c) \<le> length (underway_out c) + 257 * pp_before c +
       (if pp_pump c = PmEnded \<and> \<not> pp_driver c then 257 else 0)"
    using inv by (simp_all add: output_inv_def)
  show "subseq (pp_handled c) (pp_emitted c)"
    using subseq_drop_middle [of "pp_handled c" "in_pump (pp_pump c) @ pp_evt c" "[]"] out(1)
    by (simp add: underway_out_def)
  show "length (pp_emitted c) \<le> length (pp_handled c) + length (pp_evt c) + 1 +
      257 * (pp_before c + (if pp_driver c then 0 else 1))"
    using out(2) b(2) by (auto simp: underway_out_def split: if_splits)
qed

text \<open>
  Two attempts: the first driver ends with one message in its channel and one in the bridge, which are
  lost, and with an event that is not handled any more; what is typed in between reaches the second.
\<close>

definition two_attempts :: "pipe_op list" where
  "two_attempts =
     [Types [1], Types [2], Types [3], BridgeRecv, BridgeSend, DriverTakes, BridgeRecv, BridgeSend,
      BridgeRecv, DriverEmits Connected, PumpRecv, DriverEmits (Output [9]), DriverEnds, Types [4],
      BridgeSend, CancelBridge, AbortPump, PumpGone, NextAttempt, BridgeRecv, BridgeSend, DriverTakes]"

theorem streams_keep_order_witness:
  "\<exists>c. pipe_run two_attempts pipes_start = Some c \<and> pp_taken c = [[1], [4]] \<and>
     pp_typed c = [[1], [2], [3], [4]] \<and> pp_handled c = [Connected] \<and>
     pp_emitted c = [Connected, Output [9]] \<and> subseq (pp_handled c) (pp_emitted c)"
proof -
  obtain c where c: "pipe_run two_attempts pipes_start = Some c" "pp_taken c = [[1], [4]]"
    "pp_typed c = [[1], [2], [3], [4]]" "pp_handled c = [Connected]"
    "pp_emitted c = [Connected, Output [9]]"
    by (simp add: two_attempts_def pipes_start_def pipe_step_def)
  with streams_keep_order [OF c(1)] show ?thesis by blast
qed

subsection \<open>The end of an attempt\<close>

text \<open>The steps left of the main task and the bridge once the driver has ended.\<close>

fun bridge_left :: "bridge_pc \<Rightarrow> nat" where
  "bridge_left BrRecv = 2"
| "bridge_left (BrSend b) = 1"
| "bridge_left BrEnded = 0"

fun join_left :: "join_pc \<Rightarrow> nat" where
  "join_left AwaitDriver = 2"
| "join_left AwaitBridge = 1"
| "join_left PumpAborted = 0"

definition attempt_left :: "pipes \<Rightarrow> nat" where
  "attempt_left c = bridge_left (pp_bridge c) + join_left (pp_join c)"

definition joins :: "pipe_op \<Rightarrow> bool" where
  "joins x \<longleftrightarrow> x \<in> {BridgeRecv, BridgeCancelled, BridgeSend, CancelBridge, AbortPump}"

text \<open>
  After a driver has ended, whatever else happens, at most four steps of the bridge and the main task
  remain until the pump is aborted, and until then one of them is always possible: \<open>bridge.await\<close>
  returns.
\<close>
lemma attempt_ends:
  assumes "attempt_inv c" and "\<not> pp_driver c"
  shows "attempt_left c \<le> 4" and "attempt_left c = 0 \<longrightarrow> pp_join c = PumpAborted"
    and "pipe_step x c = Some c' \<Longrightarrow> x \<noteq> NextAttempt \<Longrightarrow>
      \<not> pp_driver c' \<and> (if joins x then attempt_left c' < attempt_left c else attempt_left c' = attempt_left c)"
    and "pp_join c \<noteq> PumpAborted \<Longrightarrow> \<exists>x c'. joins x \<and> pipe_step x c = Some c'"
proof -
  show "attempt_left c \<le> 4" by (cases "pp_bridge c"; cases "pp_join c") (simp_all add: attempt_left_def)
  show "attempt_left c = 0 \<longrightarrow> pp_join c = PumpAborted"
    by (cases "pp_join c") (simp_all add: attempt_left_def)
  show "\<not> pp_driver c' \<and> (if joins x then attempt_left c' < attempt_left c else attempt_left c' = attempt_left c)"
    if "pipe_step x c = Some c'" "x \<noteq> NextAttempt"
  proof (cases x)
    case PumpRecv
    with that(1) assms(2) show ?thesis
      by (cases "pp_evt c") (auto simp: pipe_step_iff joins_def attempt_left_def)
  qed (use that assms(2) in \<open>auto simp: pipe_step_iff joins_def attempt_left_def\<close>)
  show "\<exists>x c'. joins x \<and> pipe_step x c = Some c'" if "pp_join c \<noteq> PumpAborted"
  proof (cases "pp_join c")
    case AwaitDriver
    with assms(2) show ?thesis by (intro exI [of _ CancelBridge]) (simp add: joins_def pipe_step_def)
  next
    case AwaitBridge
    then have "pp_cancel c" using assms(1) by (simp add: attempt_inv_def)
    show ?thesis
    proof (cases "pp_bridge c")
      case BrRecv
      with \<open>pp_cancel c\<close> show ?thesis
        by (intro exI [of _ BridgeCancelled]) (simp add: joins_def pipe_step_def)
    next
      case (BrSend b)
      with assms(2) show ?thesis by (intro exI [of _ BridgeSend]) (simp add: joins_def pipe_step_def)
    next
      case BrEnded
      with AwaitBridge show ?thesis by (intro exI [of _ AbortPump]) (simp add: joins_def pipe_step_def)
    qed
  qed (use that in simp)
qed

text \<open>
  The last output of a driver can be lost: what it emits before it ends is still in the channel when the
  pump is aborted, although the clients' side is open.
\<close>
lemma last_output_lost:
  "\<exists>c. pipe_run [DriverEmits (Output b), DriverEnds, CancelBridge, BridgeCancelled, AbortPump, PumpGone]
      pipes_start = Some c \<and> pp_handled c = [] \<and> pp_evt c = [] \<and> pp_pump c = PmEnded"
  by (simp add: pipes_start_def pipe_step_def)

end
