(* ===== verification/Clients.thy ===== *)
theory Clients
  imports TermHub_Prelude
begin

text \<open>
  The registry of connected clients, \<open>crates/termhub-core/src/clients.rs\<close>. A \<open>ClientRecord\<close> is
  shared between the registry and the connection's handler; its atomics and its kick token are
  fields of the one record, found by the client's id. A registry's contract is the locale
  \<open>client_registry\<close>.
\<close>

record ClientRecord =
  cr_id :: u64
  cr_remote :: string
  cr_connected_at :: int      \<comment> \<open>\<open>SystemTime\<close>, seconds from the epoch\<close>
  cr_bytes_in :: u64
  cr_bytes_out :: u64
  cr_kick :: bool             \<comment> \<open>the token has been cancelled\<close>

record ClientRegistry =
  reg_next_id :: u64
  reg_map :: "(u64, ClientRecord) hmap"

definition registry_default :: ClientRegistry where
  "registry_default = \<lparr>reg_next_id = 0, reg_map = []\<rparr>"

text \<open>\<open>g.next_id += 1\<close> wraps in the release profile, which has no overflow checks.\<close>

definition attach :: "int \<Rightarrow> string \<Rightarrow> ClientRegistry \<Rightarrow> ClientRecord \<times> ClientRegistry" where
  "attach now remote g =
     (let i = reg_next_id g + 1;
          r = \<lparr>cr_id = i, cr_remote = remote, cr_connected_at = now, cr_bytes_in = 0,
               cr_bytes_out = 0, cr_kick = False\<rparr>
      in (r, g\<lparr>reg_next_id := i, reg_map := hm_insert i r (reg_map g)\<rparr>))"

definition detach :: "u64 \<Rightarrow> ClientRegistry \<Rightarrow> ClientRegistry" where
  "detach i g = g\<lparr>reg_map := hm_remove i (reg_map g)\<rparr>"

definition kick :: "u64 \<Rightarrow> ClientRegistry \<Rightarrow> bool \<times> ClientRegistry" where
  "kick i g = (case hm_get (reg_map g) i of
     Some r \<Rightarrow> (True, g\<lparr>reg_map := hm_insert i (r\<lparr>cr_kick := True\<rparr>) (reg_map g)\<rparr>)
   | None \<Rightarrow> (False, g))"

record ClientRecordSnapshot =
  sn_id :: u64
  sn_remote :: string
  sn_connected_at :: int
  sn_bytes_in :: u64
  sn_bytes_out :: u64

definition snapshot :: "ClientRecord \<Rightarrow> ClientRecordSnapshot" where
  "snapshot r = \<lparr>sn_id = cr_id r, sn_remote = cr_remote r, sn_connected_at = cr_connected_at r,
     sn_bytes_in = cr_bytes_in r, sn_bytes_out = cr_bytes_out r\<rparr>"

definition client_list :: "ClientRegistry \<Rightarrow> ClientRecordSnapshot list" where
  "client_list g = map snapshot (hm_values (reg_map g))"

text \<open>The handler's \<open>fetch_add\<close> on the two counters of its record: wrapping additions.\<close>

definition count_in :: "u64 \<Rightarrow> nat \<Rightarrow> ClientRegistry \<Rightarrow> ClientRegistry" where
  "count_in i n g = g\<lparr>reg_map :=
     hm_modify i (\<lambda>r. r\<lparr>cr_bytes_in := cr_bytes_in r + of_nat n\<rparr>) (reg_map g)\<rparr>"

definition count_out :: "u64 \<Rightarrow> nat \<Rightarrow> ClientRegistry \<Rightarrow> ClientRegistry" where
  "count_out i n g = g\<lparr>reg_map :=
     hm_modify i (\<lambda>r. r\<lparr>cr_bytes_out := cr_bytes_out r + of_nat n\<rparr>) (reg_map g)\<rparr>"

definition reg_get :: "ClientRegistry \<Rightarrow> u64 \<Rightarrow> ClientRecord option" where
  "reg_get g i = hm_get (reg_map g) i"

definition reg_ok :: "ClientRegistry \<Rightarrow> bool" where
  "reg_ok g = (hm_ok (reg_map g) \<and>
     list_all (\<lambda>(i, r). cr_id r = i \<and> i \<le> reg_next_id g) (reg_map g))"

text \<open>Ids are left: fewer than \<open>2^64 - 1\<close> clients have connected.\<close>

definition reg_room :: "ClientRegistry \<Rightarrow> bool" where
  "reg_room g = (reg_next_id g \<noteq> - 1)"

subsection \<open>The contract\<close>

locale client_registry =
  fixes ok :: "'r \<Rightarrow> bool"
    and room :: "'r \<Rightarrow> bool"
    and view :: "'r \<Rightarrow> u64 \<Rightarrow> ClientRecord option"
    and att :: "int \<Rightarrow> string \<Rightarrow> 'r \<Rightarrow> ClientRecord \<times> 'r"
    and det :: "u64 \<Rightarrow> 'r \<Rightarrow> 'r"
    and kck :: "u64 \<Rightarrow> 'r \<Rightarrow> bool \<times> 'r"
  assumes view_attach: "att now a g = (r, g') \<Longrightarrow> view g' i = (if i = cr_id r then Some r else view g i)"
    and attach_fresh: "ok g \<Longrightarrow> room g \<Longrightarrow> att now a g = (r, g') \<Longrightarrow> view g (cr_id r) = None"
    and attach_record: "att now a g = (r, g') \<Longrightarrow> cr_remote r = a \<and> \<not> cr_kick r"
    and attach_ok: "ok g \<Longrightarrow> room g \<Longrightarrow> ok (snd (att now a g))"
    and view_detach: "view (det j g) i = (if i = j then None else view g i)"
    and detach_ok: "ok g \<Longrightarrow> ok (det j g)"
    and view_kick: "view (snd (kck j g)) i =
          (if i = j then map_option (\<lambda>r. r\<lparr>cr_kick := True\<rparr>) (view g i) else view g i)"
    and kick_result: "fst (kck j g) = (view g j \<noteq> None)"
    and kick_ok: "ok g \<Longrightarrow> ok (snd (kck j g))"
begin

lemma attach_then_detach:
  assumes "ok g" and "room g" and "att now a g = (r, g')"
  shows "view (det (cr_id r) g') = view g"
  using attach_fresh [OF assms] view_attach [OF assms(3)]
  by (auto simp: fun_eq_iff view_detach)

lemma attach_twice_distinct:
  assumes "ok g" and "room g" and "att now a g = (r, g')" and "room g'"
    and "att now' a' g' = (r', g'')"
  shows "cr_id r \<noteq> cr_id r'"
proof -
  have "ok g'" using attach_ok [OF assms(1,2), of now a] assms(3) by simp
  then have "view g' (cr_id r') = None" using assms(4,5) by (rule attach_fresh)
  moreover have "view g' (cr_id r) = Some r" using view_attach [OF assms(3)] by simp
  ultimately show ?thesis by auto
qed

lemma kick_only_target:
  "i \<noteq> j \<Longrightarrow> view (snd (kck j g)) i = view g i"
  by (simp add: view_kick)

lemma kicked_after_detach: "fst (kck j (det j g)) = False"
  by (simp add: kick_result view_detach)

end

lemma reg_ok_default [simp]: "reg_ok registry_default"
  by (simp add: reg_ok_def registry_default_def)

lemma reg_ok_get: "reg_ok g \<Longrightarrow> reg_get g i = Some r \<Longrightarrow> cr_id r = i \<and> i \<le> reg_next_id g"
  by (auto simp: reg_ok_def reg_get_def list_all_iff dest: map_of_SomeD)

lemma next_id_grows: "reg_room g \<Longrightarrow> reg_next_id g < reg_next_id g + 1"
  by (simp add: reg_room_def word_less_nat_alt unat_plus_one)

interpretation clients: client_registry reg_ok reg_room reg_get attach detach kick
proof
  fix now a g r g' i j
  show "attach now a g = (r, g') \<Longrightarrow> reg_get g' i = (if i = cr_id r then Some r else reg_get g i)"
    by (auto simp: attach_def reg_get_def Let_def hmap_simps)
  show "reg_get g (cr_id r) = None" if "reg_ok g" "reg_room g" "attach now a g = (r, g')"
  proof (rule ccontr)
    assume "reg_get g (cr_id r) \<noteq> None"
    then obtain x where "reg_get g (cr_id r) = Some x" by auto
    with that(1) have "cr_id r \<le> reg_next_id g" using reg_ok_get by blast
    moreover have "cr_id r = reg_next_id g + 1" using that(3) by (auto simp: attach_def Let_def)
    ultimately show False using next_id_grows [OF that(2)] by simp
  qed
  show "attach now a g = (r, g') \<Longrightarrow> cr_remote r = a \<and> \<not> cr_kick r"
    by (auto simp: attach_def Let_def)
  show "reg_ok (snd (attach now a g))" if ok: "reg_ok g" and room: "reg_room g"
  proof -
    have "list_all (\<lambda>(i, r). cr_id r = i \<and> i \<le> reg_next_id g + 1) (reg_map g)"
      using ok next_id_grows [OF room] by (auto simp: reg_ok_def list_all_iff)
    with ok show ?thesis
      by (auto simp: reg_ok_def attach_def Let_def intro: hm_insert_list_all)
  qed
  show "reg_get (detach j g) i = (if i = j then None else reg_get g i)"
    by (simp add: detach_def reg_get_def hmap_simps)
  show "reg_ok g \<Longrightarrow> reg_ok (detach j g)"
    by (auto simp: reg_ok_def detach_def hm_remove_list_all)
  show "reg_get (snd (kick j g)) i =
      (if i = j then map_option (\<lambda>r. r\<lparr>cr_kick := True\<rparr>) (reg_get g i) else reg_get g i)"
    by (auto simp: kick_def reg_get_def hmap_simps split: option.splits)
  show "fst (kick j g) = (reg_get g j \<noteq> None)"
    by (auto simp: kick_def reg_get_def split: option.splits)
  show "reg_ok g \<Longrightarrow> reg_ok (snd (kick j g))"
    by (auto simp: reg_ok_def kick_def intro!: hm_insert_list_all split: option.splits)
      (auto simp: list_all_iff dest: map_of_SomeD)
qed

text \<open>
  C32. A client that connects gets an id no connected client has and a record with its address and
  time, both counters at zero and not kicked; it appears in the list once, and the registry is as it
  was when it is detached. This holds until \<open>2^64 - 1\<close> clients have connected.
\<close>

theorem client_attach_lifecycle:
  assumes "reg_ok g" and "reg_room g" and "attach now a g = (r, g')"
  shows "reg_ok g' \<and> reg_get g (cr_id r) = None \<and> reg_get g' (cr_id r) = Some r \<and>
    r = \<lparr>cr_id = cr_id r, cr_remote = a, cr_connected_at = now, cr_bytes_in = 0, cr_bytes_out = 0,
      cr_kick = False\<rparr> \<and>
    length (client_list g') = Suc (length (client_list g)) \<and>
    reg_get (detach (cr_id r) g') = reg_get g"
proof -
  have fresh: "reg_get g (cr_id r) = None" by (rule clients.attach_fresh [OF assms])
  have "length (client_list g') = Suc (length (client_list g))"
    using assms(3) fresh
    by (auto simp: attach_def Let_def client_list_def hm_values_def reg_get_def
        length_hm_insert_fresh)
  moreover have "reg_ok g'" using clients.attach_ok [OF assms(1,2), of now a] assms(3) by simp
  moreover have "r = \<lparr>cr_id = cr_id r, cr_remote = a, cr_connected_at = now, cr_bytes_in = 0,
      cr_bytes_out = 0, cr_kick = False\<rparr>"
    using assms(3) by (auto simp: attach_def Let_def)
  ultimately show ?thesis
    using fresh clients.view_attach [OF assms(3)] clients.attach_then_detach [OF assms] by simp
qed

theorem client_attach_lifecycle_witness:
  "reg_get (detach 1 (snd (attach 5 ''10.0.0.7:4'' registry_default))) = reg_get registry_default"
proof -
  have "reg_room registry_default" by (simp add: reg_room_def registry_default_def)
  from client_attach_lifecycle [OF reg_ok_default this, of 5 "''10.0.0.7:4''"] show ?thesis
    by (simp add: attach_def Let_def registry_default_def)
qed

text \<open>
  Kicking reports whether the id is connected, cancels that client's token and no other's,
  and changes nothing else.
\<close>

theorem client_kick_exact:
  "fst (kick i g) = (reg_get g i \<noteq> None) \<and>
   reg_get (snd (kick i g)) =
     (\<lambda>j. if j = i then map_option (\<lambda>r. r\<lparr>cr_kick := True\<rparr>) (reg_get g i) else reg_get g j)"
  by (auto simp: fun_eq_iff clients.kick_result clients.view_kick)

end
