(* ===== verification/Session_Mgr.thy ===== *)
theory Session_Mgr
  imports TermHub_Prelude
begin

text \<open>
  The session table and its authentication, \<open>crates/termhub-core/src/session_mgr.rs\<close>. The
  fields of an entry that are shared handles in the source (hub, status channel, cancellation
  token, client registry) are references into the application's store; cloning an entry copies
  the references.
\<close>

type_synonym handle = nat

record SessionEntry =
  se_name :: string
  se_password :: string
  se_hub :: handle
  se_status :: handle
  se_cancel :: handle
  se_clients :: handle

type_synonym SessionMgr = "(string, SessionEntry) hmap"

definition name_char :: "char \<Rightarrow> bool" where
  "name_char c = (is_ascii_alphanumeric c \<or> c = CHR ''.'' \<or> c = CHR ''_'' \<or> c = CHR ''-'')"

definition normalize_name :: "string \<Rightarrow> string option" where
  "normalize_name s =
     (if s = [] then None
      else if \<not> list_all name_char s
      then None
      else Some (to_ascii_lowercase s))"

text \<open>The loop of \<open>constant_time_eq\<close>: the differences of all byte pairs are collected.\<close>

fun fold_diff :: "(byte \<times> byte) list \<Rightarrow> byte \<Rightarrow> byte" where
  "fold_diff [] diff = diff"
| "fold_diff ((x, y) # r) diff = fold_diff r (diff OR (x XOR y))"

definition constant_time_eq :: "bytes \<Rightarrow> bytes \<Rightarrow> bool" where
  "constant_time_eq a b =
     (if length a \<noteq> length b then False else fold_diff (zip a b) 0 = 0)"

definition mgr_new :: SessionMgr where
  "mgr_new = []"

text \<open>\<open>clients\<close> is the reference of the registry that \<open>register\<close> creates.\<close>

definition register :: "string \<Rightarrow> string \<Rightarrow> handle \<Rightarrow> handle \<Rightarrow> handle \<Rightarrow> handle \<Rightarrow> SessionMgr
    \<Rightarrow> string + SessionMgr" where
  "register name password hub status cancel clients g =
     (case normalize_name name of
        None \<Rightarrow> Inl ''invalid session name''
      | Some key \<Rightarrow>
          if hm_get g key \<noteq> None then Inl ''session already exists''
          else Inr (hm_insert key
            \<lparr>se_name = name, se_password = password, se_hub = hub, se_status = status,
             se_cancel = cancel, se_clients = clients\<rparr> g))"

definition unregister :: "string \<Rightarrow> SessionMgr \<Rightarrow> SessionEntry option \<times> SessionMgr" where
  "unregister name g =
     (case normalize_name name of
        None \<Rightarrow> (None, g)
      | Some key \<Rightarrow> (hm_get g key, hm_remove key g))"

definition mgr_get :: "SessionMgr \<Rightarrow> string \<Rightarrow> SessionEntry option" where
  "mgr_get g name = Option.bind (normalize_name name) (hm_get g)"

definition authenticate :: "SessionMgr \<Rightarrow> string \<Rightarrow> string \<Rightarrow> SessionEntry option" where
  "authenticate g name password =
     (case mgr_get g name of
        None \<Rightarrow> None
      | Some entry \<Rightarrow>
          if constant_time_eq (as_bytes (se_password entry)) (as_bytes password)
          then Some entry else None)"

definition mgr_list :: "SessionMgr \<Rightarrow> SessionEntry list" where
  "mgr_list g = hm_values g"

subsection \<open>The comparison\<close>

lemma fold_diff_zero: "fold_diff ps d = 0 \<longleftrightarrow> d = 0 \<and> list_all (\<lambda>(x, y). x = y) ps"
proof (induction ps d rule: fold_diff.induct)
  case (2 x y r d)
  have "d OR (x XOR y) = 0 \<longleftrightarrow> d = 0 \<and> x = y"
    by (simp add: or_eq_0_iff) (metis xor.right_neutral xor_self_eq xor.assoc)
  with 2 show ?case by auto
qed simp

lemma zip_all_eq: "length a = length b \<Longrightarrow> list_all (\<lambda>(x, y). x = y) (zip a b) \<longleftrightarrow> a = b"
  by (induction a b rule: list_induct2) auto

lemma constant_time_eq_iff: "constant_time_eq a b \<longleftrightarrow> a = b"
  by (auto simp: constant_time_eq_def fold_diff_zero zip_all_eq)

lemma as_bytes_inject [simp]: "as_bytes a = as_bytes b \<longleftrightarrow> a = b"
  by (metis bytes_string_as_bytes)

subsection \<open>The table's contract\<close>

text \<open>
  What the SSH handler and the application logic rely on: lookups see the last registration
  under any spelling of the name, and nothing else changes.
\<close>

locale session_store =
  fixes key :: "string \<Rightarrow> string option"
    and get :: "'m \<Rightarrow> string \<Rightarrow> SessionEntry option"
    and reg :: "string \<Rightarrow> string \<Rightarrow> handle \<Rightarrow> handle \<Rightarrow> handle \<Rightarrow> handle \<Rightarrow> 'm \<Rightarrow> string + 'm"
    and unreg :: "string \<Rightarrow> 'm \<Rightarrow> SessionEntry option \<times> 'm"
    and auth :: "'m \<Rightarrow> string \<Rightarrow> string \<Rightarrow> SessionEntry option"
  assumes get_invalid: "key n = None \<Longrightarrow> get m n = None"
    and get_key: "key n = key n' \<Longrightarrow> get m n = get m n'"
    and reg_ok: "reg n p h s c cl m = Inr m' \<Longrightarrow> key n \<noteq> None \<and> get m n = None \<and>
      get m' n' = (if key n' = key n then
          Some \<lparr>se_name = n, se_password = p, se_hub = h, se_status = s, se_cancel = c, se_clients = cl\<rparr>
        else get m n')"
    and reg_err: "reg n p h s c cl m = Inl e \<Longrightarrow> key n = None \<or> get m n \<noteq> None"
    and unreg_get: "get (snd (unreg n m)) n' = (if key n' = key n then None else get m n')"
    and unreg_res: "fst (unreg n m) = get m n"
    and auth_get: "auth m n p = (case get m n of
        None \<Rightarrow> None | Some e \<Rightarrow> if se_password e = p then Some e else None)"
begin

lemma auth_iff: "auth m n p = Some e \<longleftrightarrow> get m n = Some e \<and> se_password e = p"
  by (auto simp: auth_get split: option.splits)

lemma registered_authenticates:
  assumes "reg n p h s c cl m = Inr m'" and "key n' = key n"
  shows "auth m' n' q = (if q = p then get m' n' else None)"
proof -
  have "get m' n' = Some \<lparr>se_name = n, se_password = p, se_hub = h, se_status = s,
      se_cancel = c, se_clients = cl\<rparr>"
    using reg_ok [OF assms(1), of n'] assms(2) by simp
  then show ?thesis by (simp add: auth_get)
qed

lemma register_twice:
  assumes "reg n p h s c cl m = Inr m'" and "key n' = key n"
  shows "\<exists>e. reg n' p' h' s' c' cl' m' = Inl e"
proof (rule ccontr)
  assume "\<not> ?thesis"
  then obtain m'' where "reg n' p' h' s' c' cl' m' = Inr m''"
    by (cases "reg n' p' h' s' c' cl' m'") auto
  from reg_ok [OF this] have "get m' n' = None" by simp
  with reg_ok [OF assms(1), of n'] assms(2) show False by simp
qed

lemma unregistered_rejected: "key n' = key n \<Longrightarrow> auth (snd (unreg n m)) n' p = None"
  by (simp add: auth_get unreg_get)

end

lemma mgr_get_Some_key: "normalize_name n = Some k \<Longrightarrow> mgr_get g n = hm_get g k"
  by (simp add: mgr_get_def)

lemma register_Inr:
  "register n p h s c cl g = Inr g' \<longleftrightarrow> (\<exists>k. normalize_name n = Some k \<and> hm_get g k = None \<and>
     g' = hm_insert k \<lparr>se_name = n, se_password = p, se_hub = h, se_status = s,
       se_cancel = c, se_clients = cl\<rparr> g)"
  unfolding register_def by (cases "normalize_name n") auto

lemma register_Inl:
  "register n p h s c cl g = Inl e \<longleftrightarrow>
     (normalize_name n = None \<and> e = ''invalid session name'') \<or>
     (normalize_name n \<noteq> None \<and> mgr_get g n \<noteq> None \<and> e = ''session already exists'')"
  unfolding register_def mgr_get_def by (cases "normalize_name n") auto

lemma mgr_get_insert:
  "normalize_name n = Some k \<Longrightarrow>
   mgr_get (hm_insert k v g) n' = (if normalize_name n' = normalize_name n then Some v else mgr_get g n')"
  unfolding mgr_get_def by (cases "normalize_name n'") (auto simp: hm_get_insert)

lemma mgr_get_remove:
  "normalize_name n = Some k \<Longrightarrow>
   mgr_get (hm_remove k g) n' = (if normalize_name n' = normalize_name n then None else mgr_get g n')"
  unfolding mgr_get_def by (cases "normalize_name n'") (auto simp: hm_get_remove)

lemma mgr_get_invalid: "normalize_name n = None \<Longrightarrow> mgr_get g n = None"
  by (simp add: mgr_get_def)

lemma mgr_get_unregister:
  "mgr_get (snd (unregister n g)) n' =
     (if normalize_name n' = normalize_name n then None else mgr_get g n')"
  by (cases "normalize_name n") (auto simp: unregister_def mgr_get_remove mgr_get_invalid)

lemma authenticate_get:
  "authenticate g n p = (case mgr_get g n of
     None \<Rightarrow> None | Some e \<Rightarrow> if se_password e = p then Some e else None)"
  unfolding authenticate_def constant_time_eq_iff as_bytes_inject ..

interpretation mgr: session_store normalize_name mgr_get register unregister authenticate
proof
  fix n n' p e h s c cl and m m' :: SessionMgr
  show "normalize_name n = None \<Longrightarrow> mgr_get m n = None" by (rule mgr_get_invalid)
  show "normalize_name n = normalize_name n' \<Longrightarrow> mgr_get m n = mgr_get m n'"
    by (simp add: mgr_get_def)
  show "register n p h s c cl m = Inr m' \<Longrightarrow> normalize_name n \<noteq> None \<and> mgr_get m n = None \<and>
      mgr_get m' n' = (if normalize_name n' = normalize_name n then
          Some \<lparr>se_name = n, se_password = p, se_hub = h, se_status = s, se_cancel = c, se_clients = cl\<rparr>
        else mgr_get m n')"
    unfolding register_Inr by (elim exE conjE) (simp add: mgr_get_insert mgr_get_Some_key)
  show "register n p h s c cl m = Inl e \<Longrightarrow> normalize_name n = None \<or> mgr_get m n \<noteq> None"
    unfolding register_Inl by blast
  show "mgr_get (snd (unregister n m)) n' =
      (if normalize_name n' = normalize_name n then None else mgr_get m n')"
    by (rule mgr_get_unregister)
  show "fst (unregister n m) = mgr_get m n"
    by (cases "normalize_name n") (simp_all add: unregister_def mgr_get_def)
  show "authenticate m n p = (case mgr_get m n of
        None \<Rightarrow> None | Some e \<Rightarrow> if se_password e = p then Some e else None)"
    by (rule authenticate_get)
qed

subsection \<open>Names\<close>

text \<open>The keys of the table are exactly the lower-case valid names.\<close>

lemma lower_name_char: "name_char c \<Longrightarrow> name_char (ascii_lower_char c)"
  unfolding name_char_def ascii_lower_char_def is_ascii_alphanumeric_def char_code_def Let_def
  by auto

lemma normalize_name_Some:
  "normalize_name s = Some k \<longleftrightarrow> s \<noteq> [] \<and> list_all name_char s \<and> k = to_ascii_lowercase s"
  by (auto simp: normalize_name_def)

lemma normalize_name_idem: "normalize_name s = Some k \<Longrightarrow> normalize_name k = Some k"
  unfolding normalize_name_Some
  by (simp add: to_ascii_lowercase_idem)
    (auto simp: to_ascii_lowercase_def list_all_iff lower_name_char)

definition mgr_ok :: "SessionMgr \<Rightarrow> bool" where
  "mgr_ok g = (hm_ok g \<and> list_all (\<lambda>(k, e). normalize_name (se_name e) = Some k) g)"

lemma register_mgr_ok: "mgr_ok g \<Longrightarrow> register n p h s c cl g = Inr g' \<Longrightarrow> mgr_ok g'"
  by (auto simp: mgr_ok_def register_def hm_insert_list_all split: option.splits if_splits)

lemma unregister_mgr_ok: "mgr_ok g \<Longrightarrow> mgr_ok (snd (unregister n g))"
  by (auto simp: mgr_ok_def unregister_def hm_remove_list_all split: option.splits)

lemma mgr_ok_new [simp]: "mgr_ok mgr_new"
  by (simp add: mgr_ok_def mgr_new_def)

lemma mgr_ok_entry:
  "mgr_ok g \<Longrightarrow> e \<in> set (mgr_list g) \<Longrightarrow> mgr_get g (se_name e) = Some e"
  by (fastforce simp: mgr_ok_def mgr_list_def hm_values_def mgr_get_def list_all_iff hm_get_iff)

lemma mgr_get_listed: "mgr_get g n = Some e \<Longrightarrow> e \<in> set (mgr_list g)"
  by (cases "normalize_name n")
    (auto simp: mgr_get_def mgr_list_def hm_values_def dest!: map_of_SomeD intro: rev_image_eqI)

subsection \<open>Properties\<close>

text \<open>Two names are the same when they agree up to the case of their letters.\<close>

lemma name_char_lower: "name_char (ascii_lower_char c) = name_char c"
  unfolding name_char_def ascii_lower_char_def is_ascii_alphanumeric_def char_code_def Let_def
  by auto

lemma name_chars_lower: "list_all name_char (to_ascii_lowercase n) = list_all name_char n"
  by (simp add: to_ascii_lowercase_def list_all_iff name_char_lower)

lemma normalize_same_name:
  assumes "to_ascii_lowercase n' = to_ascii_lowercase n"
  shows "normalize_name n' = normalize_name n"
proof -
  have "list_all name_char n' = list_all name_char n"
    using assms name_chars_lower [of n] name_chars_lower [of n'] by simp
  moreover have "n' = [] \<longleftrightarrow> n = []"
    using assms to_ascii_lowercase_Nil_iff [of n] to_ascii_lowercase_Nil_iff [of n'] by simp
  ultimately show ?thesis using assms by (simp add: normalize_name_def)
qed

lemma mgr_get_same_name:
  assumes "mgr_ok g"
  shows "mgr_get g n = Some e \<longleftrightarrow>
    e \<in> set (mgr_list g) \<and> to_ascii_lowercase (se_name e) = to_ascii_lowercase n"
proof
  assume l: "mgr_get g n = Some e"
  then obtain k where k: "normalize_name n = Some k" "hm_get g k = Some e"
    by (auto simp: mgr_get_def bind_eq_Some_conv)
  then have "(k, e) \<in> set g" using assms hm_get_iff [of g k e] by (simp add: mgr_ok_def)
  then have "normalize_name (se_name e) = Some k" using assms by (auto simp: mgr_ok_def list_all_iff)
  with k(1) have "to_ascii_lowercase (se_name e) = to_ascii_lowercase n"
    unfolding normalize_name_Some by (elim conjE) simp
  with mgr_get_listed [OF l] show "e \<in> set (mgr_list g) \<and> to_ascii_lowercase (se_name e) = to_ascii_lowercase n" ..
next
  assume r: "e \<in> set (mgr_list g) \<and> to_ascii_lowercase (se_name e) = to_ascii_lowercase n"
  then have "mgr_get g n = mgr_get g (se_name e)"
    using normalize_same_name [of n "se_name e"] by (simp add: mgr_get_def)
  with mgr_ok_entry [OF assms] r show "mgr_get g n = Some e" by simp
qed

text \<open>
  C16. Authentication succeeds exactly when the user name is, up to the case of its letters, the name
  of a registered session and the password is that session's password byte for byte; the returned
  entry is that session's. (In a table built by registering and unregistering.)
\<close>
theorem authenticate_exact:
  assumes "mgr_ok g"
  shows "authenticate g user pass = Some e \<longleftrightarrow>
    e \<in> set (mgr_list g) \<and> to_ascii_lowercase (se_name e) = to_ascii_lowercase user \<and> se_password e = pass"
  unfolding mgr.auth_iff mgr_get_same_name [OF assms] by blast

text \<open>One session, asked for under another spelling of its name.\<close>
theorem authenticate_exact_witness:
  "\<exists>g e. register ''Echo'' ''pw'' 1 2 3 4 mgr_new = Inr g \<and> mgr_ok g \<and>
     authenticate g ''eCHO'' ''pw'' = Some e \<and> authenticate g ''eCHO'' ''PW'' \<noteq> Some e"
proof -
  let ?e = "\<lparr>se_name = ''Echo'', se_password = ''pw'', se_hub = 1, se_status = 2, se_cancel = 3,
    se_clients = 4\<rparr>"
  let ?g = "[(''echo'', ?e)]"
  have g: "register ''Echo'' ''pw'' 1 2 3 4 mgr_new = Inr ?g" by code_simp
  have ok: "mgr_ok ?g" by (rule register_mgr_ok [OF mgr_ok_new g])
  have "to_ascii_lowercase ''Echo'' = to_ascii_lowercase ''eCHO''" by code_simp
  then have "authenticate ?g ''eCHO'' ''pw'' = Some ?e" "authenticate ?g ''eCHO'' ''PW'' \<noteq> Some ?e"
    using authenticate_exact [OF ok, of "''eCHO''" _ ?e] by (simp_all add: mgr_list_def hm_values_def)
  with g ok show ?thesis by blast
qed


text \<open>
  The table never holds two sessions whose names differ only in case: from a well-formed table
  (the empty one is), any registration and unregistration keeps its keys distinct and equal to the
  lower-cased names of their entries, so each listed entry is the one its own name finds.
\<close>
theorem session_table_wellformed:
  "mgr_ok mgr_new \<and>
   (mgr_ok g \<longrightarrow>
      (\<forall>g'. register n p h s c cl g = Inr g' \<longrightarrow> mgr_ok g') \<and>
      mgr_ok (snd (unregister n g)) \<and>
      (\<forall>e \<in> set (mgr_list g). mgr_get g (se_name e) = Some e))"
  using register_mgr_ok unregister_mgr_ok mgr_ok_entry by auto

text \<open>Two sessions registered, one removed by another spelling of its name.\<close>
theorem session_table_wellformed_witness:
  "\<exists>g. register ''Echo'' ''pw'' 1 2 3 4 mgr_new = Inr g \<and> mgr_ok g \<and> length (mgr_list g) = 1 \<and>
     mgr_ok (snd (unregister ''ECHO'' g)) \<and> snd (unregister ''ECHO'' g) = []"
proof -
  let ?g = "[(''echo'', \<lparr>se_name = ''Echo'', se_password = ''pw'', se_hub = 1, se_status = 2,
    se_cancel = 3, se_clients = 4\<rparr>)]"
  have g: "register ''Echo'' ''pw'' 1 2 3 4 mgr_new = Inr ?g" by code_simp
  moreover have "length (mgr_list ?g) = 1" by code_simp
  moreover have "snd (unregister ''ECHO'' ?g) = []" by code_simp
  moreover have "mgr_ok ?g"
    using session_table_wellformed [of mgr_new "''Echo''" "''pw''" 1 2 3 4] g by blast
  moreover have "mgr_ok (snd (unregister ''ECHO'' ?g))"
    using session_table_wellformed [of ?g "''ECHO''"] \<open>mgr_ok ?g\<close> by blast
  ultimately show ?thesis by blast
qed

end
