(* ===== verification/Hub.thy ===== *)
theory Hub
  imports TermHub_Prelude "HOL-Library.Sublist"
begin

text \<open>
  The hub of a session, \<open>crates/termhub-core/src/hub.rs\<close>: one upstream, many downstream clients.
  The two kinds of channel are \<open>tokio\<close>'s and are parameters: a record of the operations the
  source calls, with their documented behaviour as the locale \<open>channels\<close>. An \<open>mpsc\<close> channel is
  observed by the messages waiting in it, a broadcast channel by what waits for each receiver and
  how many messages that receiver has missed.
\<close>

datatype recv_result = RecvOk bytes | RecvLagged nat | RecvEmpty

record ('q, 'b) chan_ops =
  mpsc_channel :: "nat \<Rightarrow> 'q"
  mpsc_send :: "'q \<Rightarrow> bytes \<Rightarrow> 'q option"
  mpsc_recv :: "'q \<Rightarrow> (bytes \<times> 'q) option"
  broadcast_channel :: "nat \<Rightarrow> 'b"
  broadcast_send :: "'b \<Rightarrow> bytes \<Rightarrow> 'b"
  broadcast_subscribe :: "'b \<Rightarrow> nat \<times> 'b"
  broadcast_recv :: "'b \<Rightarrow> nat \<Rightarrow> recv_result \<times> 'b"
  broadcast_drop :: "'b \<Rightarrow> nat \<Rightarrow> 'b"
  receiver_count :: "'b \<Rightarrow> nat"

text \<open>\<open>mpsc_send\<close> is \<open>None\<close> while the channel is full: the sender waits and tries again later.\<close>

record ('q, 'b) hub =
  out_tx :: 'b
  in_tx :: 'q
  next_id :: u64
  driver_out_tx :: 'q

definition hub_new :: "('q, 'b) chan_ops \<Rightarrow> nat \<Rightarrow> nat \<Rightarrow> ('q, 'b) hub" where
  "hub_new ops out_capacity in_capacity =
     \<lparr>out_tx = broadcast_channel ops out_capacity, in_tx = mpsc_channel ops in_capacity,
      next_id = 0, driver_out_tx = mpsc_channel ops 256\<rparr>"

definition alloc_id :: "('q, 'b) hub \<Rightarrow> u64 \<times> ('q, 'b) hub" where
  "alloc_id h = (next_id h, h\<lparr>next_id := next_id h + 1\<rparr>)"

definition subscribe_output :: "('q, 'b) chan_ops \<Rightarrow> ('q, 'b) hub \<Rightarrow> nat \<times> ('q, 'b) hub" where
  "subscribe_output ops h =
     (let (r, b) = broadcast_subscribe ops (out_tx h) in (r, h\<lparr>out_tx := b\<rparr>))"

definition send_input :: "('q, 'b) chan_ops \<Rightarrow> bytes \<Rightarrow> ('q, 'b) hub \<Rightarrow> ('q, 'b) hub option" where
  "send_input ops b h = map_option (\<lambda>q. h\<lparr>in_tx := q\<rparr>) (mpsc_send ops (in_tx h) b)"

definition subscriber_count :: "('q, 'b) chan_ops \<Rightarrow> ('q, 'b) hub \<Rightarrow> nat" where
  "subscriber_count ops h = receiver_count ops (out_tx h)"

definition broadcast_system :: "('q, 'b) chan_ops \<Rightarrow> bytes \<Rightarrow> ('q, 'b) hub \<Rightarrow> ('q, 'b) hub" where
  "broadcast_system ops b h = h\<lparr>out_tx := broadcast_send ops (out_tx h) b\<rparr>"

text \<open>The driver's \<open>up_tx.send\<close>, and one turn of the task spawned by \<open>make_forward\<close>.\<close>

definition up_send :: "('q, 'b) chan_ops \<Rightarrow> bytes \<Rightarrow> ('q, 'b) hub \<Rightarrow> ('q, 'b) hub option" where
  "up_send ops b h = map_option (\<lambda>q. h\<lparr>driver_out_tx := q\<rparr>) (mpsc_send ops (driver_out_tx h) b)"

definition make_forward :: "('q, 'b) chan_ops \<Rightarrow> ('q, 'b) hub \<Rightarrow> ('q, 'b) hub option" where
  "make_forward ops h =
     (case mpsc_recv ops (driver_out_tx h) of
        None \<Rightarrow> None
      | Some (b, q) \<Rightarrow>
          Some (h\<lparr>driver_out_tx := q, out_tx := broadcast_send ops (out_tx h) b\<rparr>))"

definition take_input :: "('q, 'b) chan_ops \<Rightarrow> ('q, 'b) hub \<Rightarrow> (bytes \<times> ('q, 'b) hub) option" where
  "take_input ops h = map_option (\<lambda>(b, q). (b, h\<lparr>in_tx := q\<rparr>)) (mpsc_recv ops (in_tx h))"

definition client_recv :: "('q, 'b) chan_ops \<Rightarrow> nat \<Rightarrow> ('q, 'b) hub \<Rightarrow> recv_result \<times> ('q, 'b) hub" where
  "client_recv ops r h =
     (let (res, b) = broadcast_recv ops (out_tx h) r in (res, h\<lparr>out_tx := b\<rparr>))"

definition client_drop :: "('q, 'b) chan_ops \<Rightarrow> nat \<Rightarrow> ('q, 'b) hub \<Rightarrow> ('q, 'b) hub" where
  "client_drop ops r h = h\<lparr>out_tx := broadcast_drop ops (out_tx h) r\<rparr>"

subsection \<open>What is handed to the broadcast channel\<close>

text \<open>
  The same channel operations, with a log beside the broadcast channel of the messages passed to
  its \<open>send\<close>. An operation of the hub run over them shows what it really broadcasts.
\<close>

definition logging :: "('q, 'b) chan_ops \<Rightarrow> ('q, 'b \<times> bytes list) chan_ops" where
  "logging ops =
     \<lparr>mpsc_channel = mpsc_channel ops, mpsc_send = mpsc_send ops, mpsc_recv = mpsc_recv ops,
      broadcast_channel = (\<lambda>n. (broadcast_channel ops n, [])),
      broadcast_send = (\<lambda>(b, l) x. (broadcast_send ops b x, l @ [x])),
      broadcast_subscribe = (\<lambda>(b, l). let (r, b') = broadcast_subscribe ops b in (r, (b', l))),
      broadcast_recv = (\<lambda>(b, l) r. let (res, b') = broadcast_recv ops b r in (res, (b', l))),
      broadcast_drop = (\<lambda>(b, l) r. (broadcast_drop ops b r, l)),
      receiver_count = (\<lambda>(b, l). receiver_count ops b)\<rparr>"

definition with_log :: "('q, 'b) hub \<Rightarrow> ('q, 'b \<times> bytes list) hub" where
  "with_log h = \<lparr>out_tx = (out_tx h, []), in_tx = in_tx h, next_id = next_id h,
     driver_out_tx = driver_out_tx h\<rparr>"

definition sent_log :: "('q, 'b \<times> bytes list) hub \<Rightarrow> bytes list" where
  "sent_log h = snd (out_tx h)"

definition without_log :: "('q, 'b \<times> bytes list) hub \<Rightarrow> ('q, 'b) hub" where
  "without_log h = \<lparr>out_tx = fst (out_tx h), in_tx = in_tx h, next_id = next_id h,
     driver_out_tx = driver_out_tx h\<rparr>"

lemmas logs = logging_def with_log_def sent_log_def without_log_def

subsection \<open>Interleavings\<close>

text \<open>
  The operations of the driver, the forwarding task, the system and the clients, in any order,
  and what can be observed of them: the bytes accepted from the driver and from clients, the bytes
  passed to the \<open>send\<close> of the broadcast channel (read off its log) and to the driver, and what each
  client receives.
\<close>

datatype hub_op =
    UpSend bytes
  | Forward
  | SystemLine bytes
  | ClientInput bytes
  | DriverTakes
  | Subscribe
  | ClientRecv nat
  | ClientDrop nat

datatype hub_obs =
    Accepted bytes
  | Forwarded bytes
  | SystemSent bytes
  | InputAccepted bytes
  | InputTaken bytes
  | Subscribed nat
  | Received nat recv_result

fun hub_step :: "('q, 'b) chan_ops \<Rightarrow> hub_op \<Rightarrow> ('q, 'b) hub \<Rightarrow> hub_obs list \<times> ('q, 'b) hub" where
  "hub_step ops (UpSend b) h =
     (case up_send ops b h of None \<Rightarrow> ([], h) | Some h' \<Rightarrow> ([Accepted b], h'))"
| "hub_step ops Forward h =
     (case make_forward (logging ops) (with_log h) of
        None \<Rightarrow> ([], h)
      | Some h' \<Rightarrow> (map Forwarded (sent_log h'), without_log h'))"
| "hub_step ops (SystemLine b) h =
     (let h' = broadcast_system (logging ops) b (with_log h)
      in (map SystemSent (sent_log h'), without_log h'))"
| "hub_step ops (ClientInput b) h =
     (case send_input ops b h of None \<Rightarrow> ([], h) | Some h' \<Rightarrow> ([InputAccepted b], h'))"
| "hub_step ops DriverTakes h =
     (case take_input ops h of None \<Rightarrow> ([], h) | Some (b, h') \<Rightarrow> ([InputTaken b], h'))"
| "hub_step ops Subscribe h = (let (r, h') = subscribe_output ops h in ([Subscribed r], h'))"
| "hub_step ops (ClientRecv r) h = (let (res, h') = client_recv ops r h in ([Received r res], h'))"
| "hub_step ops (ClientDrop r) h = ([], client_drop ops r h)"

fun hub_run :: "('q, 'b) chan_ops \<Rightarrow> hub_op list \<Rightarrow> ('q, 'b) hub \<Rightarrow> hub_obs list \<times> ('q, 'b) hub" where
  "hub_run ops [] h = ([], h)"
| "hub_run ops (x # xs) h =
     (let (o1, h1) = hub_step ops x h; (o2, h2) = hub_run ops xs h1 in (o1 @ o2, h2))"

definition accepted :: "hub_obs list \<Rightarrow> bytes list" where
  "accepted os = concat (map (\<lambda>x. case x of Accepted b \<Rightarrow> [b] | _ \<Rightarrow> []) os)"

definition forwarded_out :: "hub_obs list \<Rightarrow> bytes list" where
  "forwarded_out os = concat (map (\<lambda>x. case x of Forwarded b \<Rightarrow> [b] | _ \<Rightarrow> []) os)"

definition broadcasts :: "hub_obs list \<Rightarrow> bytes list" where
  "broadcasts os = concat (map (\<lambda>x. case x of Forwarded b \<Rightarrow> [b] | SystemSent b \<Rightarrow> [b] | _ \<Rightarrow> []) os)"

definition inputs_accepted :: "hub_obs list \<Rightarrow> bytes list" where
  "inputs_accepted os = concat (map (\<lambda>x. case x of InputAccepted b \<Rightarrow> [b] | _ \<Rightarrow> []) os)"

definition inputs_taken :: "hub_obs list \<Rightarrow> bytes list" where
  "inputs_taken os = concat (map (\<lambda>x. case x of InputTaken b \<Rightarrow> [b] | _ \<Rightarrow> []) os)"

definition received :: "nat \<Rightarrow> hub_obs list \<Rightarrow> bytes list" where
  "received r os = concat (map (\<lambda>x. case x of Received r' (RecvOk b) \<Rightarrow> if r' = r then [b] else [] | _ \<Rightarrow> []) os)"

definition reported_lost :: "nat \<Rightarrow> hub_obs list \<Rightarrow> nat" where
  "reported_lost r os = sum_list (map (\<lambda>x. case x of Received r' (RecvLagged n) \<Rightarrow> if r' = r then n else 0 | _ \<Rightarrow> 0) os)"

lemmas observed = accepted_def forwarded_out_def broadcasts_def inputs_accepted_def inputs_taken_def received_def
  reported_lost_def

lemma observed_append [simp]:
  "accepted (a @ b) = accepted a @ accepted b"
  "forwarded_out (a @ b) = forwarded_out a @ forwarded_out b"
  "broadcasts (a @ b) = broadcasts a @ broadcasts b"
  "inputs_accepted (a @ b) = inputs_accepted a @ inputs_accepted b"
  "inputs_taken (a @ b) = inputs_taken a @ inputs_taken b"
  "received r (a @ b) = received r a @ received r b"
  "reported_lost r (a @ b) = reported_lost r a + reported_lost r b"
  by (simp_all add: observed)

lemma fifo_trans: "w @ a1 = f1 @ w1 \<Longrightarrow> w1 @ a2 = f2 @ w2 \<Longrightarrow> w @ a1 @ a2 = (f1 @ f2) @ w2"
  by (metis append.assoc)

lemmas hub_ops = logs up_send_def make_forward_def send_input_def take_input_def broadcast_system_def
  subscribe_output_def client_recv_def client_drop_def

subsection \<open>The documented behaviour of the channels\<close>

locale channels =
  fixes ops :: "('q, 'b) chan_ops"
    and waiting :: "'q \<Rightarrow> bytes list"
    and capacity :: "'b \<Rightarrow> nat"
    and pending :: "'b \<Rightarrow> nat \<Rightarrow> (nat \<times> bytes list) option"
  assumes mpsc_new: "waiting (mpsc_channel ops n) = []"
    and mpsc_sent: "mpsc_send ops q x = Some q' \<Longrightarrow> waiting q' = waiting q @ [x]"
    and mpsc_received: "mpsc_recv ops q = Some (x, q') \<Longrightarrow> waiting q = x # waiting q'"
    and mpsc_empty: "mpsc_recv ops q = None \<Longrightarrow> waiting q = []"
    and bc_new: "pending (broadcast_channel ops n) r = None"
    and bc_capacity_new: "n \<le> capacity (broadcast_channel ops n)"
    and bc_capacity_pos: "0 < capacity b"
    and bc_capacity: "capacity (broadcast_send ops b x) = capacity b"
      "capacity (snd (broadcast_subscribe ops b)) = capacity b"
      "capacity (snd (broadcast_recv ops b r)) = capacity b"
      "capacity (broadcast_drop ops b r) = capacity b"
    and bc_send: "pending (broadcast_send ops b x) r =
      map_option (\<lambda>(k, ms). if length ms < capacity b then (k, ms @ [x]) else (k + 1, tl ms @ [x]))
        (pending b r)"
    and bc_subscribe: "broadcast_subscribe ops b = (r, b') \<Longrightarrow>
      pending b r = None \<and> pending b' = (pending b)(r \<mapsto> (0, []))"
    and bc_recv: "pending b r = Some (k, ms) \<Longrightarrow> broadcast_recv ops b r = (res, b') \<Longrightarrow>
      (if 0 < k then res = RecvLagged k \<and> pending b' = (pending b)(r \<mapsto> (0, ms))
       else if ms = [] then res = RecvEmpty \<and> pending b' = pending b
       else res = RecvOk (hd ms) \<and> pending b' = (pending b)(r \<mapsto> (0, tl ms)))"
    and bc_recv_gone: "pending b r = None \<Longrightarrow>
      broadcast_recv ops b r = (res, b') \<Longrightarrow> res = RecvEmpty \<and> pending b' = pending b"
    and bc_drop: "pending (broadcast_drop ops b r) = (pending b)(r := None)"
    and bc_count: "finite (dom (pending b)) \<Longrightarrow> receiver_count ops b = card (dom (pending b))"
begin

lemma driver_fifo:
  "hub_run ops xs h = (os, h') \<Longrightarrow>
   waiting (driver_out_tx h) @ accepted os = forwarded_out os @ waiting (driver_out_tx h')"
proof (induction xs arbitrary: h os)
  case (Cons x xs)
  obtain o1 h1 where s: "hub_step ops x h = (o1, h1)" by force
  obtain o2 where r: "hub_run ops xs h1 = (o2, h')" and os: "os = o1 @ o2"
    using Cons.prems s by (auto split: prod.splits)
  have "waiting (driver_out_tx h) @ accepted o1 = forwarded_out o1 @ waiting (driver_out_tx h1)"
    using s by (cases x)
      (auto simp: observed hub_ops dest: mpsc_sent mpsc_received split: option.splits prod.splits)
  from fifo_trans [OF this Cons.IH [OF r]] show ?case by (simp add: os)
qed (simp add: observed)

lemma input_fifo:
  "hub_run ops xs h = (os, h') \<Longrightarrow>
   waiting (in_tx h) @ inputs_accepted os = inputs_taken os @ waiting (in_tx h')"
proof (induction xs arbitrary: h os)
  case (Cons x xs)
  obtain o1 h1 where s: "hub_step ops x h = (o1, h1)" by force
  obtain o2 where r: "hub_run ops xs h1 = (o2, h')" and os: "os = o1 @ o2"
    using Cons.prems s by (auto split: prod.splits)
  have "waiting (in_tx h) @ inputs_accepted o1 = inputs_taken o1 @ waiting (in_tx h1)"
    using s by (cases x)
      (auto simp: observed hub_ops dest: mpsc_sent mpsc_received split: option.splits prod.splits)
  from fifo_trans [OF this Cons.IH [OF r]] show ?case by (simp add: os)
qed (simp add: observed)

text \<open>One step, seen by a receiver that is not dropped.\<close>

lemma receiver_step:
  assumes p: "pending (out_tx h) r = Some (k, ms)" and "x \<noteq> ClientDrop r"
    and s: "hub_step ops x h = (os, h')"
  shows "\<exists>k' ms'. pending (out_tx h') r = Some (k', ms') \<and>
    subseq (received r os @ ms') (ms @ broadcasts os) \<and>
    length ms + k + length (broadcasts os) = length (received r os) + reported_lost r os + k' + length ms' \<and>
    (k = 0 \<and> length ms + length (broadcasts os) \<le> capacity (out_tx h) \<longrightarrow> k' = 0 \<and> reported_lost r os = 0) \<and>
    capacity (out_tx h') = capacity (out_tx h)"
proof -
  have sub: "subseq (tl ms @ [b]) (ms @ [b])" for b
    by (cases ms) auto
  have full: "\<not> length ms < capacity (out_tx h) \<Longrightarrow> 0 < length ms"
    using bc_capacity_pos [of "out_tx h"] by linarith
  show ?thesis
  proof (cases x)
    case (UpSend b)
    with s p show ?thesis by (auto simp: observed hub_ops split: option.splits)
  next
    case Forward
    with s p sub full show ?thesis
      by (auto simp: observed hub_ops bc_send bc_capacity split: option.splits prod.splits if_splits)
  next
    case (SystemLine b)
    with s p sub full show ?thesis
      by (auto simp: observed hub_ops bc_send bc_capacity split: option.splits prod.splits if_splits)
  next
    case (ClientInput b)
    with s p show ?thesis by (auto simp: observed hub_ops split: option.splits)
  next
    case DriverTakes
    with s p show ?thesis by (auto simp: observed hub_ops split: option.splits)
  next
    case Subscribe
    then show ?thesis using s p bc_subscribe [of "out_tx h"] bc_capacity(2) [of "out_tx h"]
      by (auto simp: observed hub_ops split: prod.splits)
  next
    case (ClientDrop r')
    with s p \<open>x \<noteq> ClientDrop r\<close> show ?thesis
      by (auto simp: observed hub_ops bc_drop bc_capacity)
  next
    case (ClientRecv r')
    obtain res b' where b: "broadcast_recv ops (out_tx h) r' = (res, b')" by force
    with s ClientRecv have h': "os = [Received r' res]" "h' = h\<lparr>out_tx := b'\<rparr>"
      by (auto simp: hub_ops)
    have cap: "capacity b' = capacity (out_tx h)"
      using bc_capacity(3) [of "out_tx h" r'] b by simp
    show ?thesis
    proof (cases "r' = r")
      case True
      then show ?thesis
        using bc_recv [OF p] b cap p unfolding h'
        by (cases ms) (auto simp: observed split: if_splits)
    next
      case False
      have "pending b' r = pending (out_tx h) r"
      proof (cases "pending (out_tx h) r'")
        case None
        then show ?thesis using bc_recv_gone b by simp
      next
        case (Some km)
        obtain k2 ms2 where "km = (k2, ms2)" by force
        with Some have "pending (out_tx h) r' = Some (k2, ms2)" by simp
        from bc_recv [OF this b] False show ?thesis by (auto split: if_splits)
      qed
      then show ?thesis using p cap False unfolding h'
        by (cases res) (auto simp: observed)
    qed
  qed
qed

text \<open>A whole run, seen by a receiver that is never dropped.\<close>

lemma receiver_run:
  assumes "pending (out_tx h) r = Some (k, ms)" and "ClientDrop r \<notin> set xs"
    and "hub_run ops xs h = (os, h')"
  shows "\<exists>k' ms'. pending (out_tx h') r = Some (k', ms') \<and>
    subseq (received r os @ ms') (ms @ broadcasts os) \<and>
    length ms + k + length (broadcasts os) = length (received r os) + reported_lost r os + k' + length ms' \<and>
    (k = 0 \<and> length ms + length (broadcasts os) \<le> capacity (out_tx h) \<longrightarrow> k' = 0 \<and> reported_lost r os = 0)"
  using assms
proof (induction xs arbitrary: h os k ms)
  case Nil
  then show ?case by (simp add: observed)
next
  case (Cons x xs)
  obtain o1 h1 where s: "hub_step ops x h = (o1, h1)" by force
  obtain o2 where r2: "hub_run ops xs h1 = (o2, h')" and os: "os = o1 @ o2"
    using Cons.prems(3) s by (auto split: prod.splits)
  have "x \<noteq> ClientDrop r" and nd: "ClientDrop r \<notin> set xs" using Cons.prems(2) by auto
  from receiver_step [OF Cons.prems(1) this(1) s] obtain k1 m1 where
    p1: "pending (out_tx h1) r = Some (k1, m1)"
    and s1: "subseq (received r o1 @ m1) (ms @ broadcasts o1)"
    and c1: "length ms + k + length (broadcasts o1) = length (received r o1) + reported_lost r o1 + k1 + length m1"
    and l1: "k = 0 \<and> length ms + length (broadcasts o1) \<le> capacity (out_tx h) \<longrightarrow> k1 = 0 \<and> reported_lost r o1 = 0"
    and cap: "capacity (out_tx h1) = capacity (out_tx h)" by blast
  from Cons.IH [OF p1 nd r2] obtain k2 m2 where
    p2: "pending (out_tx h') r = Some (k2, m2)"
    and s2: "subseq (received r o2 @ m2) (m1 @ broadcasts o2)"
    and c2: "length m1 + k1 + length (broadcasts o2) = length (received r o2) + reported_lost r o2 + k2 + length m2"
    and l2: "k1 = 0 \<and> length m1 + length (broadcasts o2) \<le> capacity (out_tx h1) \<longrightarrow> k2 = 0 \<and> reported_lost r o2 = 0"
    by blast
  have "subseq (received r o1 @ received r o2 @ m2) (received r o1 @ m1 @ broadcasts o2)"
    by (rule list_emb_append_mono [OF subseq_order.order_refl s2])
  moreover have "subseq ((received r o1 @ m1) @ broadcasts o2) ((ms @ broadcasts o1) @ broadcasts o2)"
    by (rule list_emb_append_mono [OF s1 subseq_order.order_refl])
  ultimately have "subseq (received r os @ m2) (ms @ broadcasts os)"
    unfolding os by simp
  moreover have "length ms + k + length (broadcasts os) =
      length (received r os) + reported_lost r os + k2 + length m2"
    using c1 c2 by (simp add: os)
  moreover have "k2 = 0 \<and> reported_lost r os = 0"
    if "k = 0 \<and> length ms + length (broadcasts os) \<le> capacity (out_tx h)"
  proof -
    have a: "k1 = 0 \<and> reported_lost r o1 = 0" using l1 that by (simp add: os)
    then have "length m1 + length (broadcasts o2) \<le> capacity (out_tx h1)"
      using c1 that cap by (simp add: os)
    with a l2 show ?thesis by (simp add: os)
  qed
  ultimately show ?case using p2 by blast
qed

lemma subscriber_stream:
  assumes sub: "subscribe_output ops h0 = (r, h)" and nd: "ClientDrop r \<notin> set xs"
    and run: "hub_run ops xs h = (os, h')"
  shows "\<exists>k' ms'. pending (out_tx h') r = Some (k', ms') \<and>
    subseq (received r os @ ms') (broadcasts os) \<and>
    length (broadcasts os) = length (received r os) + reported_lost r os + k' + length ms' \<and>
    (reported_lost r os + k' = 0 \<longrightarrow> received r os @ ms' = broadcasts os) \<and>
    (length (broadcasts os) \<le> capacity (out_tx h) \<longrightarrow> reported_lost r os + k' = 0)"
proof -
  have "pending (out_tx h) r = Some (0, [])"
    using sub bc_subscribe [of "out_tx h0"] by (auto simp: subscribe_output_def split: prod.splits)
  from receiver_run [OF this nd run] obtain k' ms' where
    a: "pending (out_tx h') r = Some (k', ms')"
      "subseq (received r os @ ms') (broadcasts os)"
      "length (broadcasts os) = length (received r os) + reported_lost r os + k' + length ms'"
      "length (broadcasts os) \<le> capacity (out_tx h) \<longrightarrow> k' = 0 \<and> reported_lost r os = 0"
    unfolding append_Nil list.size add_0 simp_thms by blast
  have eq: "received r os @ ms' = broadcasts os" if "reported_lost r os + k' = 0"
  proof (rule subseq_same_length [OF a(2)])
    show "length (received r os @ ms') = length (broadcasts os)"
      unfolding a(3) length_append using that by linarith
  qed
  have none: "reported_lost r os + k' = 0" if "length (broadcasts os) \<le> capacity (out_tx h)"
    using mp [OF a(4) that] by linarith
  show ?thesis
    by (intro exI [of _ k'] exI [of _ ms'] conjI impI) (fact a(1) a(2) a(3) | erule eq | erule none)+
qed

end

subsection \<open>Bounded queues with these laws\<close>

text \<open>
  An \<open>mpsc\<close> channel as a capacity and the waiting messages; a broadcast channel as a capacity and,
  for each receiver, the number of messages it has missed and those that wait for it.
\<close>

type_synonym queue_chan = "nat \<times> bytes list"
type_synonym ring_chan = "nat \<times> (nat, nat \<times> bytes list) hmap"

definition ring_push :: "nat \<Rightarrow> bytes \<Rightarrow> nat \<times> bytes list \<Rightarrow> nat \<times> bytes list" where
  "ring_push cap x p =
     (let (k, ms) = p in if length ms < cap then (k, ms @ [x]) else (k + 1, tl ms @ [x]))"

definition ring_fresh :: "(nat, nat \<times> bytes list) hmap \<Rightarrow> nat" where
  "ring_fresh rs = foldr max (hm_keys rs) 0 + 1"

definition ring_recv :: "ring_chan \<Rightarrow> nat \<Rightarrow> recv_result \<times> ring_chan" where
  "ring_recv b r =
     (case hm_get (snd b) r of
        None \<Rightarrow> (RecvEmpty, b)
      | Some (k, ms) \<Rightarrow>
          if 0 < k then (RecvLagged k, (fst b, hm_insert r (0, ms) (snd b)))
          else if ms = [] then (RecvEmpty, b)
          else (RecvOk (hd ms), (fst b, hm_insert r (0, tl ms) (snd b))))"

definition bounded_chans :: "(queue_chan, ring_chan) chan_ops" where
  "bounded_chans =
     \<lparr>mpsc_channel = (\<lambda>n. (n, [])),
      mpsc_send = (\<lambda>q x. if length (snd q) < fst q then Some (fst q, snd q @ [x]) else None),
      mpsc_recv = (\<lambda>q. case snd q of [] \<Rightarrow> None | x # r \<Rightarrow> Some (x, (fst q, r))),
      broadcast_channel = (\<lambda>n. (n, [])),
      broadcast_send = (\<lambda>b x. (fst b, map (\<lambda>(r, p). (r, ring_push (Suc (fst b)) x p)) (snd b))),
      broadcast_subscribe = (\<lambda>b. (ring_fresh (snd b), (fst b, hm_insert (ring_fresh (snd b)) (0, []) (snd b)))),
      broadcast_recv = ring_recv,
      broadcast_drop = (\<lambda>b r. (fst b, hm_remove r (snd b))),
      receiver_count = (\<lambda>b. length (remdups (hm_keys (snd b))))\<rparr>"

lemma ring_fresh_new: "hm_get rs (ring_fresh rs) = None"
proof -
  have "k \<le> foldr max ks 0" if "k \<in> set ks" for k and ks :: "nat list"
    using that by (induction ks) auto
  then have "ring_fresh rs \<notin> set (hm_keys rs)" by (force simp: ring_fresh_def)
  then show ?thesis using hm_get_keys [of "ring_fresh rs" rs] by blast
qed

interpretation bounded: channels bounded_chans snd "\<lambda>b. Suc (fst b)" "\<lambda>b. hm_get (snd b)"
proof
  fix b b' :: ring_chan and r k ms res
  show "hm_get (snd b) r = Some (k, ms) \<Longrightarrow> broadcast_recv bounded_chans b r = (res, b') \<Longrightarrow>
      (if 0 < k then res = RecvLagged k \<and> hm_get (snd b') = (hm_get (snd b))(r \<mapsto> (0, ms))
       else if ms = [] then res = RecvEmpty \<and> hm_get (snd b') = hm_get (snd b)
       else res = RecvOk (hd ms) \<and> hm_get (snd b') = (hm_get (snd b))(r \<mapsto> (0, tl ms)))"
    by (auto simp: bounded_chans_def ring_recv_def fun_eq_iff hm_get_insert)
  show "hm_get (snd b) r = None \<Longrightarrow> broadcast_recv bounded_chans b r = (res, b') \<Longrightarrow>
      res = RecvEmpty \<and> hm_get (snd b') = hm_get (snd b)"
    by (auto simp: bounded_chans_def ring_recv_def)
  show "broadcast_subscribe bounded_chans b = (r, b') \<Longrightarrow>
      hm_get (snd b) r = None \<and> hm_get (snd b') = (hm_get (snd b))(r \<mapsto> (0, []))"
    by (auto simp: bounded_chans_def ring_fresh_new fun_eq_iff hm_get_insert)
  show "receiver_count bounded_chans b = card (dom (hm_get (snd b)))"
    by (simp add: bounded_chans_def hm_keys_def dom_map_of_conv_image_fst length_remdups_card_conv)
qed (auto simp: bounded_chans_def hm_get_map_values ring_push_def ring_recv_def hm_get_remove fun_eq_iff
    split: list.splits option.splits prod.splits if_splits)

subsection \<open>Properties\<close>

text \<open>
  C28. Both directions are first in, first out and lose nothing on their own: in any interleaving of
  a driver, the forwarding task, system lines and clients, over channels with the documented
  behaviour, the outputs the hub has taken from the driver are exactly, in order, those its
  forwarding task has passed to the \<open>send\<close> of the broadcast channel followed by those still
  waiting, and the inputs it has taken from all clients are exactly, in order, those handed to the
  driver followed by those still waiting.
\<close>
theorem hub_fifo:
  assumes "channels ops waiting capacity pending"
    and "hub_run ops xs (hub_new ops out_capacity in_capacity) = (os, h)"
  shows "accepted os = forwarded_out os @ waiting (driver_out_tx h) \<and>
         inputs_accepted os = inputs_taken os @ waiting (in_tx h)"
  using channels.driver_fifo [OF assms] channels.input_fifo [OF assms]
    channels.mpsc_new [OF assms(1)] by (simp add: hub_new_def)

text \<open>Two inputs and two outputs, one of each delivered so far.\<close>
theorem hub_fifo_witness:
  "\<exists>os h. hub_run bounded_chans
       [UpSend [1], UpSend [2], ClientInput [3], Forward, ClientInput [4], DriverTakes]
       (hub_new bounded_chans 1024 256) = (os, h) \<and>
     accepted os = [[1]] @ [[2]] \<and> inputs_accepted os = [[3]] @ [[4]]"
proof -
  let ?r = "hub_run bounded_chans
       [UpSend [1], UpSend [2], ClientInput [3], Forward, ClientInput [4], DriverTakes]
       (hub_new bounded_chans 1024 256)"
  have "hub_run bounded_chans
       [UpSend [1], UpSend [2], ClientInput [3], Forward, ClientInput [4], DriverTakes]
       (hub_new bounded_chans 1024 256) = (fst ?r, snd ?r)" by simp
  from hub_fifo [OF bounded.channels_axioms this]
  have "accepted (fst ?r) = forwarded_out (fst ?r) @ snd (driver_out_tx (snd ?r)) \<and>
     inputs_accepted (fst ?r) = inputs_taken (fst ?r) @ snd (in_tx (snd ?r))" .
  moreover have "forwarded_out (fst ?r) = [[1]]" "snd (driver_out_tx (snd ?r)) = [[2]]"
    "inputs_taken (fst ?r) = [[3]]" "snd (in_tx (snd ?r)) = [[4]]"
    by (simp_all add: hub_new_def hub_ops bounded_chans_def observed)
  ultimately show ?thesis by (intro exI [of _ "fst ?r"] exI [of _ "snd ?r"]) simp
qed

text \<open>
  C15. Every client sees the upstream's output in order. From its subscription on, in any
  interleaving with the driver, the system and the other clients, what a client has received,
  followed by what waits for it, is a subsequence of all that was broadcast; every message missing
  from it has been, or at its next read will be, reported to it as lost; nothing is lost while no
  more messages than the channel's capacity (at least the 1024 asked for) have been broadcast;
  and if none is lost it has received exactly what was broadcast, but for what still waits.
\<close>
theorem hub_subscriber_stream:
  assumes "channels ops waiting capacity pending"
    and "subscribe_output ops h0 = (r, h)" and "ClientDrop r \<notin> set xs"
    and "hub_run ops xs h = (os, h')"
  shows "\<exists>missed ms. pending (out_tx h') r = Some (missed, ms) \<and>
    subseq (received r os @ ms) (broadcasts os) \<and>
    length (broadcasts os) = length (received r os) + reported_lost r os + missed + length ms \<and>
    (reported_lost r os + missed = 0 \<longrightarrow> received r os @ ms = broadcasts os) \<and>
    (length (broadcasts os) \<le> capacity (out_tx h) \<longrightarrow> reported_lost r os + missed = 0)"
  by (rule channels.subscriber_stream [OF assms])

text \<open>
  A slow client behind a channel for two messages: of three it misses one, and is told so.
\<close>

definition slow_hub :: "(queue_chan, ring_chan) hub" where
  "slow_hub = hub_new bounded_chans 1 256"

theorem hub_subscriber_stream_witness:
  "\<exists>os h missed ms. hub_run bounded_chans
       [SystemLine [1], SystemLine [2], SystemLine [3], ClientRecv 1, ClientRecv 1]
       (snd (subscribe_output bounded_chans slow_hub)) = (os, h) \<and>
     broadcasts os = [[1], [2], [3]] \<and> received 1 os = [[2]] \<and> reported_lost 1 os = 1 \<and>
     hm_get (snd (out_tx h)) 1 = Some (missed, ms) \<and> subseq (received 1 os @ ms) (broadcasts os)"
proof -
  let ?h0 = "snd (subscribe_output bounded_chans slow_hub)"
  let ?xs = "[SystemLine [1], SystemLine [2], SystemLine [3], ClientRecv 1, ClientRecv 1]"
  define res where "res = hub_run bounded_chans ?xs ?h0"
  have sub: "subscribe_output bounded_chans slow_hub = (1, ?h0)"
    by (simp add: subscribe_output_def slow_hub_def hub_new_def bounded_chans_def ring_fresh_def hm_keys_def)
  have nd: "ClientDrop 1 \<notin> set ?xs" by simp
  have run: "hub_run bounded_chans ?xs ?h0 = (fst res, snd res)" by (simp add: res_def)
  from hub_subscriber_stream [OF bounded.channels_axioms sub nd run] obtain missed ms where
    m: "hm_get (snd (out_tx (snd res))) 1 = Some (missed, ms)"
      "subseq (received 1 (fst res) @ ms) (broadcasts (fst res))" by blast
  have "fst res = [SystemSent [1], SystemSent [2], SystemSent [3], Received 1 (RecvLagged 1), Received 1 (RecvOk [2])]"
    unfolding res_def
    by (simp add: subscribe_output_def slow_hub_def hub_new_def bounded_chans_def ring_fresh_def
        hm_keys_def hm_insert_def ring_recv_def ring_push_def hub_ops)
  then have "broadcasts (fst res) = [[1], [2], [3]]" "received 1 (fst res) = [[2]]"
      "reported_lost 1 (fst res) = 1"
    by (simp_all add: observed)
  with run m show ?thesis by blast
qed

end
