(* ===== verification/Secrets.thy ===== *)
theory Secrets
  imports TermHub_Prelude
begin

text \<open>
  Encryption of stored passwords, \<open>crates/termhub-core/src/secrets.rs\<close>, in both of its
  configurations. The Base64 engine of the \<open>base64\<close> crate and the two DPAPI calls of Windows
  are parameters: an encoder, a decoder that fails with a message, and two partial functions on
  byte strings. What their documentation promises is stated as locales; an encoder and decoder
  written from RFC 4648 show that the laws of Base64 can be met.
\<close>

type_synonym b64_encode = "bytes \<Rightarrow> string"
type_synonym b64_decode = "string \<Rightarrow> string + bytes"

subsection \<open>The two configurations\<close>

text \<open>\<open>#[cfg(not(target_os = "windows"))]\<close>.\<close>

definition encrypt_plain :: "b64_encode \<Rightarrow> string \<Rightarrow> string + string" where
  "encrypt_plain enc plain = Inr (''plain:'' @ enc (as_bytes plain))"

definition decrypt_plain :: "b64_decode \<Rightarrow> string \<Rightarrow> string + string" where
  "decrypt_plain dec blob_b64 =
     (let raw = (case strip_prefix ''plain:'' blob_b64 of Some r \<Rightarrow> r | None \<Rightarrow> blob_b64) in
      rbind (dec raw) from_utf8)"

text \<open>
  \<open>#[cfg(target_os = "windows")]\<close>. A \<open>CRYPT_INTEGER_BLOB\<close> names its bytes by a 32-bit length
  (\<open>len() as u32\<close> wraps) and a pointer, so the system call sees that many of them.
\<close>

definition blob :: "bytes \<Rightarrow> bytes" where
  "blob bs = take (unat (of_nat (length bs) :: u32)) bs"

definition encrypt_dpapi :: "b64_encode \<Rightarrow> (bytes \<Rightarrow> bytes option) \<Rightarrow> string \<Rightarrow> string + string" where
  "encrypt_dpapi enc protect plain =
     (case protect (blob (as_bytes plain)) of
        None \<Rightarrow> Inl ''CryptProtectData failed''
      | Some out \<Rightarrow> Inr (enc out))"

definition decrypt_dpapi :: "b64_decode \<Rightarrow> (bytes \<Rightarrow> bytes option) \<Rightarrow> string \<Rightarrow> string + string" where
  "decrypt_dpapi dec unprotect blob_b64 =
     rbind (dec blob_b64) (\<lambda>bs.
       case unprotect (blob bs) of
         None \<Rightarrow> Inl ''CryptUnprotectData failed''
       | Some out \<Rightarrow> from_utf8 out)"

lemma blob_id: "length bs < 2 ^ 32 \<Longrightarrow> blob bs = bs"
  by (simp add: blob_def unat_of_nat take_bit_eq_mod)

subsection \<open>The contracts\<close>

text \<open>
  What the code that stores passwords relies on: a password that fits is recovered from what was
  stored for it, and what is stored is text.
\<close>

locale secret_store =
  fixes encrypt :: "string \<Rightarrow> string + string"
    and decrypt :: "string \<Rightarrow> string + string"
    and fits :: "string \<Rightarrow> bool"
  assumes decrypt_encrypt:
      "utf8_valid (as_bytes p) \<Longrightarrow> fits p \<Longrightarrow> encrypt p = Inr c \<Longrightarrow> decrypt c = Inr p"
    and stored_is_text: "encrypt p = Inr c \<Longrightarrow> utf8_valid (as_bytes c)"
begin

lemma encrypt_injective:
  assumes "utf8_valid (as_bytes p)" "fits p" "utf8_valid (as_bytes q)" "fits q"
    and "encrypt p = Inr c" "encrypt q = Inr c"
  shows "p = q"
  using decrypt_encrypt [OF assms(1,2,5)] decrypt_encrypt [OF assms(3,4,6)] by simp

end

locale base64_codec =
  fixes enc :: b64_encode
    and dec :: b64_decode
  assumes dec_enc: "dec (enc bs) = Inr bs"
    and enc_ascii: "list_all (\<lambda>b. unat b < 128) (as_bytes (enc bs))"

lemma as_bytes_append [simp]: "as_bytes (a @ b) = as_bytes a @ as_bytes b"
  by (simp add: as_bytes_def)

lemma length_as_bytes [simp]: "length (as_bytes s) = length s"
  by (simp add: as_bytes_def)

sublocale base64_codec \<subseteq> plain: secret_store "encrypt_plain enc" "decrypt_plain dec" "\<lambda>_. True"
proof
  fix p c
  assume "utf8_valid (as_bytes p)" and "encrypt_plain enc p = Inr c"
  then show "decrypt_plain dec c = Inr p"
    by (auto simp: encrypt_plain_def decrypt_plain_def dec_enc from_utf8_as_bytes
        simp del: append_Cons append_Nil)
next
  fix p c
  assume "encrypt_plain enc p = Inr c"
  then have "list_all (\<lambda>b. unat b < 128) (as_bytes c)"
    using enc_ascii [of "as_bytes p"] by (auto simp: encrypt_plain_def as_bytes_def)
  then show "utf8_valid (as_bytes c)" by (rule utf8_valid_ascii)
qed

context base64_codec
begin

lemma base64_secret_store:
  "secret_store (encrypt_plain enc) (decrypt_plain dec) (\<lambda>_. True)"
  by (rule plain.secret_store_axioms)

lemma plain_recovered:
  "utf8_valid (as_bytes p) \<Longrightarrow> encrypt_plain enc p = Inr c \<Longrightarrow> decrypt_plain dec c = Inr p"
  by (rule plain.decrypt_encrypt) simp_all

end

text \<open>
  The Windows configuration meets the same contract when \<open>CryptUnprotectData\<close> undoes
  \<open>CryptProtectData\<close> and the protected blob has a 32-bit length.
\<close>

lemma dpapi_secret_store:
  assumes "base64_codec enc dec"
    and inverse: "\<And>b c. protect b = Some c \<Longrightarrow> unprotect c = Some b"
    and bounded: "\<And>b c. protect b = Some c \<Longrightarrow> length c < 2 ^ 32"
  shows "secret_store (encrypt_dpapi enc protect) (decrypt_dpapi dec unprotect)
           (\<lambda>p. length p < 2 ^ 32)"
proof
  fix p c
  assume utf8: "utf8_valid (as_bytes p)" and len: "length p < 2 ^ 32"
    and e: "encrypt_dpapi enc protect p = Inr c"
  from len have "blob (as_bytes p) = as_bytes p" by (simp add: blob_id)
  with e obtain out where out: "protect (as_bytes p) = Some out" and c: "c = enc out"
    by (auto simp: encrypt_dpapi_def split: option.splits)
  from bounded [OF out] have "blob out = out" by (rule blob_id)
  then show "decrypt_dpapi dec unprotect c = Inr p"
    using utf8 base64_codec.dec_enc [OF assms(1)] inverse [OF out]
    by (simp add: decrypt_dpapi_def c from_utf8_as_bytes)
next
  fix p c
  assume "encrypt_dpapi enc protect p = Inr c"
  then show "utf8_valid (as_bytes c)"
    using base64_codec.enc_ascii [OF assms(1)]
    by (auto simp: encrypt_dpapi_def intro: utf8_valid_ascii split: option.splits)
qed

lemmas base64_secret_store = base64_codec.base64_secret_store

subsection \<open>Base64 as RFC 4648 defines it\<close>

definition b64_alphabet :: string where
  "b64_alphabet = map char_of (([65..<91] @ [97..<123] @ [48..<58] @ [43, 47]) :: nat list)"

definition b64_char :: "nat \<Rightarrow> char" where
  "b64_char i = b64_alphabet ! i"

definition b64_val :: "char \<Rightarrow> nat option" where
  "b64_val c = map_of (zip b64_alphabet [0..<64]) c"

definition quad :: "nat \<Rightarrow> string" where
  "quad n = [b64_char (n div 262144 mod 64), b64_char (n div 4096 mod 64),
             b64_char (n div 64 mod 64), b64_char (n mod 64)]"

fun rfc_encode :: b64_encode where
  "rfc_encode [] = []"
| "rfc_encode [a] = take 2 (quad (unat a * 65536)) @ ''==''"
| "rfc_encode [a, b] = take 3 (quad (unat a * 65536 + unat b * 256)) @ ''=''"
| "rfc_encode (a # b # c # r) = quad (unat a * 65536 + unat b * 256 + unat c) @ rfc_encode r"

definition unquad :: "char \<Rightarrow> char \<Rightarrow> char \<Rightarrow> char \<Rightarrow> nat option" where
  "unquad w x y z =
     (case (b64_val w, b64_val x, b64_val y, b64_val z) of
        (Some i, Some j, Some k, Some l) \<Rightarrow> Some (i * 262144 + j * 4096 + k * 64 + l)
      | _ \<Rightarrow> None)"

text \<open>Padding stands for zero bits; bits after the last whole byte must be zero.\<close>

fun rfc_decode :: b64_decode where
  "rfc_decode [] = Inr []"
| "rfc_decode (w # x # y # z # r) =
     (if z = CHR ''='' \<and> r = [] then
        (if y = CHR ''='' then
           (case unquad w x CHR ''A'' CHR ''A'' of
              Some n \<Rightarrow> if n mod 65536 = 0 then Inr [of_nat (n div 65536)] else Inl ''Invalid last symbol''
            | None \<Rightarrow> Inl ''Invalid symbol'')
         else
           (case unquad w x y CHR ''A'' of
              Some n \<Rightarrow> if n mod 256 = 0 then Inr [of_nat (n div 65536), of_nat (n div 256 mod 256)]
                        else Inl ''Invalid last symbol''
            | None \<Rightarrow> Inl ''Invalid symbol''))
      else
        (case unquad w x y z of
           None \<Rightarrow> Inl ''Invalid symbol''
         | Some n \<Rightarrow> map_res (\<lambda>bs. of_nat (n div 65536) # of_nat (n div 256 mod 256) # of_nat (n mod 256) # bs)
             (rfc_decode r)))"
| "rfc_decode _ = Inl ''Invalid padding''"

lemma b64_alphabet_distinct: "distinct b64_alphabet"
proof -
  have "inj_on (char_of :: nat \<Rightarrow> char) {..<256}" by (auto intro!: inj_onI simp: char_of_eq_iff take_bit_nat_eq_self)
  then have "inj_on (char_of :: nat \<Rightarrow> char) (set ([65..<91] @ [97..<123] @ [48..<58] @ [43, 47]))"
    by (rule inj_on_subset) auto
  moreover have "distinct (([65..<91] @ [97..<123] @ [48..<58] @ [43, 47]) :: nat list)"
    by code_simp
  ultimately show ?thesis unfolding b64_alphabet_def distinct_map by blast
qed

lemma b64_alphabet_length: "length b64_alphabet = 64"
  by (simp add: b64_alphabet_def)

lemma b64_alphabet_chars: "c \<in> set b64_alphabet \<Longrightarrow> c \<noteq> CHR ''='' \<and> unat (of_char c :: byte) < 128"
proof -
  assume "c \<in> set b64_alphabet"
  then obtain n :: nat where "c = char_of n" "n < 128" "n \<noteq> 61"
    by (auto simp: b64_alphabet_def)
  then show ?thesis by (auto simp: char_of_eq_iff take_bit_nat_eq_self)
qed

lemma b64_val_char [simp]: "i < 64 \<Longrightarrow> b64_val (b64_char i) = Some i"
  using map_of_zip_nth [of b64_alphabet "[0..<64]" i] b64_alphabet_distinct
  by (simp add: b64_val_def b64_char_def b64_alphabet_length)

lemma b64_char_in: "i < 64 \<Longrightarrow> b64_char i \<in> set b64_alphabet"
  by (simp add: b64_char_def b64_alphabet_length)

lemma b64_char_not_pad [simp]: "i < 64 \<Longrightarrow> b64_char i \<noteq> CHR ''=''"
  and b64_char_ascii: "i < 64 \<Longrightarrow> unat (of_char (b64_char i) :: byte) < 128"
  using b64_alphabet_chars [OF b64_char_in] by auto

lemma b64_val_A: "b64_val CHR ''A'' = Some 0"
proof -
  have "CHR ''A'' = char_of (65 :: nat)" by code_simp
  then have "CHR ''A'' = b64_char 0" by (simp add: b64_char_def b64_alphabet_def)
  then show ?thesis by simp
qed

lemma sextets:
  fixes n :: nat
  assumes "n < 16777216"
  shows "n div 262144 mod 64 * 262144 + n div 4096 mod 64 * 4096 + n div 64 mod 64 * 64 + n mod 64 = n"
proof -
  have "n div 64 div 64 = n div 4096" "n div 4096 div 64 = n div 262144"
    by (simp_all flip: div_mult2_eq)
  moreover have "n div 262144 mod 64 = n div 262144"
    using assms by (simp add: less_mult_imp_div_less)
  ultimately show ?thesis
    using div_mult_mod_eq [of n 64] div_mult_mod_eq [of "n div 64" 64]
      div_mult_mod_eq [of "n div 4096" 64] by linarith
qed

lemma unquad_Some:
  "b64_val w = Some i \<Longrightarrow> b64_val x = Some j \<Longrightarrow> b64_val y = Some k \<Longrightarrow> b64_val z = Some l \<Longrightarrow>
   i * 262144 + j * 4096 + k * 64 + l = n \<Longrightarrow> unquad w x y z = Some n"
  by (simp add: unquad_def)

lemma sextet_val: "b64_val (b64_char (m mod 64)) = Some (m mod 64)"
  by (rule b64_val_char) simp

lemma unquad_quad:
  assumes "n < 16777216"
  shows "unquad (b64_char (n div 262144 mod 64)) (b64_char (n div 4096 mod 64))
     (b64_char (n div 64 mod 64)) (b64_char (n mod 64)) = Some n"
  by (rule unquad_Some [OF sextet_val sextet_val sextet_val sextet_val sextets [OF assms]])

lemma unquad_pad1:
  assumes "n < 16777216" and "n mod 64 = 0"
  shows "unquad (b64_char (n div 262144 mod 64)) (b64_char (n div 4096 mod 64))
     (b64_char (n div 64 mod 64)) CHR ''A'' = Some n"
  using sextets [OF assms(1), unfolded assms(2)]
  by (rule unquad_Some [OF sextet_val sextet_val sextet_val b64_val_A])

lemma unquad_pad2:
  assumes "n < 16777216" and "n mod 64 = 0" and "n div 64 mod 64 = 0"
  shows "unquad (b64_char (n div 262144 mod 64)) (b64_char (n div 4096 mod 64))
     CHR ''A'' CHR ''A'' = Some n"
  using sextets [OF assms(1), unfolded assms(2,3)]
  by (intro unquad_Some [OF sextet_val sextet_val b64_val_A b64_val_A]) linarith

lemma group_bytes:
  fixes a b c :: nat
  assumes "a < 256" "b < 256" "c < 256" and n: "n = a * 65536 + b * 256 + c"
  shows "n < 16777216" "n div 65536 = a" "n div 256 mod 256 = b" "n mod 256 = c"
proof -
  have n': "n = (a * 256 + b) * 256 + c" by (simp add: n)
  show "n < 16777216" using assms by linarith
  have d: "n div 256 = a * 256 + b" unfolding n' using \<open>c < 256\<close> by simp
  show "n mod 256 = c" unfolding n' using \<open>c < 256\<close>
    by (metis add.commute mod_mult_self1 mod_less)
  show "n div 256 mod 256 = b" unfolding d using \<open>b < 256\<close> by simp
  have "n div 65536 = n div 256 div 256" by (simp flip: div_mult2_eq)
  then show "n div 65536 = a" unfolding d using \<open>b < 256\<close> by simp
qed

lemma byte_lt: "unat (b::byte) < 256"
  using unsigned_less [of b] by simp

lemma take_quad:
  "take 2 (quad n) = [b64_char (n div 262144 mod 64), b64_char (n div 4096 mod 64)]"
  "take 3 (quad n) = [b64_char (n div 262144 mod 64), b64_char (n div 4096 mod 64),
     b64_char (n div 64 mod 64)]"
  by (simp_all add: quad_def)

lemma rfc_dec_enc: "rfc_decode (rfc_encode bs) = Inr bs"
proof (induction bs rule: rfc_encode.induct)
  case (2 a)
  define n where "n = unat a * 65536"
  have g: "n < 16777216" "n div 65536 = unat a"
    using group_bytes [of "unat a" 0 0 n] byte_lt [of a] by (simp_all add: n_def)
  have n64: "n = unat a * 16 * 64 * 64" by (simp add: n_def)
  then have z1: "n mod 64 = 0" by (simp only: mod_mult_self2_is_0)
  have z0: "n mod 65536 = 0" unfolding n_def by (rule mod_mult_self2_is_0)
  have "n div 64 = unat a * 16 * 64" unfolding n64 by (rule nonzero_mult_div_cancel_right) simp
  then have z2: "n div 64 mod 64 = 0" by (simp only: mod_mult_self2_is_0)
  show ?case
    unfolding rfc_encode.simps n_def [symmetric] take_quad
    using unquad_pad2 [OF g(1) z1 z2] z0 g(2) by simp
next
  case (3 a b)
  define n where "n = unat a * 65536 + unat b * 256"
  have g: "n < 16777216" "n div 65536 = unat a" "n div 256 mod 256 = unat b" "n mod 256 = 0"
    using group_bytes [of "unat a" "unat b" 0 n] byte_lt [of a] byte_lt [of b] by (simp_all add: n_def)
  have "n = (unat a * 1024 + unat b * 4) * 64" by (simp add: n_def)
  then have z: "n mod 64 = 0" by (metis mod_mult_self2_is_0)
  show ?case
    unfolding rfc_encode.simps n_def [symmetric] take_quad
    using unquad_pad1 [OF g(1) z] g by simp
next
  case (4 a b c r)
  define n where "n = unat a * 65536 + unat b * 256 + unat c"
  note g = group_bytes [OF byte_lt byte_lt byte_lt n_def]
  show ?case
    unfolding rfc_encode.simps n_def [symmetric] quad_def
    using unquad_quad [OF g(1)] g 4 by simp
qed simp

lemma quad_ascii: "list_all (\<lambda>c. unat (of_char c :: byte) < 128) (quad n)"
  using b64_char_ascii by (simp add: quad_def)

lemma rfc_enc_chars: "list_all (\<lambda>c. unat (of_char c :: byte) < 128) (rfc_encode bs)"
proof (induction bs rule: rfc_encode.induct)
  case (2 a)
  show ?case using quad_ascii [of "unat a * 65536"] unfolding rfc_encode.simps take_quad quad_def
    by simp
next
  case (3 a b)
  show ?case using quad_ascii [of "unat a * 65536 + unat b * 256"]
    unfolding rfc_encode.simps take_quad quad_def by simp
next
  case (4 a b c r)
  then show ?case using quad_ascii unfolding rfc_encode.simps by (simp only: list_all_append)
qed simp

lemma rfc_enc_ascii: "list_all (\<lambda>b. unat b < 128) (as_bytes (rfc_encode bs))"
  using rfc_enc_chars [of bs] unfolding as_bytes_def list.pred_map o_def .

interpretation rfc4648: base64_codec rfc_encode rfc_decode
  by unfold_locales (rule rfc_dec_enc, rule rfc_enc_ascii)

subsection \<open>Properties\<close>

text \<open>
  C30. A stored password is recovered. Whenever the Base64 decoder undoes the encoder (and the
  encoder writes ASCII) and the unprotect call undoes the protect call, decrypting what was
  encrypted gives the password back in both configurations, for every UTF-8 password (on Windows,
  of less than 4 GiB); encryption fails only on Windows, and only when the system call does.
\<close>
theorem stored_password_recovered:
  assumes "\<And>bs. dec (enc bs) = Inr bs"
    and "\<And>bs. list_all (\<lambda>b. unat b < 128) (as_bytes (enc bs))"
    and "\<And>b c. protect b = Some c \<Longrightarrow> unprotect c = Some b"
    and "\<And>b c. protect b = Some c \<Longrightarrow> length c < 2 ^ 32"
    and "utf8_valid (as_bytes p)" and "length p < 2 ^ 32"
  shows "rbind (encrypt_plain enc p) (decrypt_plain dec) = Inr p \<and>
    (case encrypt_dpapi enc protect p of
       Inl e \<Rightarrow> e = ''CryptProtectData failed'' \<and> protect (as_bytes p) = None
     | Inr c \<Rightarrow> decrypt_dpapi dec unprotect c = Inr p)"
proof
  have b64: "base64_codec enc dec" using assms(1,2) by (rule base64_codec.intro)
  have "decrypt_plain dec (''plain:'' @ enc (as_bytes p)) = Inr p"
    using base64_codec.plain_recovered [OF b64 assms(5)]
    by (simp add: encrypt_plain_def)
  then show "rbind (encrypt_plain enc p) (decrypt_plain dec) = Inr p"
    unfolding encrypt_plain_def by simp
  show "case encrypt_dpapi enc protect p of
       Inl e \<Rightarrow> e = ''CryptProtectData failed'' \<and> protect (as_bytes p) = None
     | Inr c \<Rightarrow> decrypt_dpapi dec unprotect c = Inr p"
  proof (cases "encrypt_dpapi enc protect p")
    case (Inl e)
    then show ?thesis using assms(6)
      by (auto simp: encrypt_dpapi_def blob_id split: option.splits)
  next
    case (Inr c)
    have "secret_store (encrypt_dpapi enc protect) (decrypt_dpapi dec unprotect) (\<lambda>p. length p < 2 ^ 32)"
      by (rule dpapi_secret_store [OF b64 assms(3,4)])
    from secret_store.decrypt_encrypt [OF this assms(5,6) Inr] Inr show ?thesis by simp
  qed
qed

definition xor_protect :: "bytes \<Rightarrow> bytes option" where
  "xor_protect bs = (if length bs < 2 ^ 32 then Some (map (\<lambda>b. b XOR 90) bs) else None)"

lemma xor_protect_inverse: "xor_protect b = Some c \<Longrightarrow> xor_protect c = Some b"
  by (auto simp: xor_protect_def xor.assoc o_def split: if_splits)

lemma xor_protect_bounded: "xor_protect b = Some c \<Longrightarrow> length c < 2 ^ 32"
  by (auto simp: xor_protect_def split: if_splits)

text \<open>With Base64 of RFC 4648 and an exclusive-or in place of the system's encryption.\<close>
theorem stored_password_recovered_witness:
  "rbind (encrypt_plain rfc_encode ''s3cret'') (decrypt_plain rfc_decode) = Inr ''s3cret'' \<and>
   (case encrypt_dpapi rfc_encode xor_protect ''s3cret'' of
      Inl e \<Rightarrow> e = ''CryptProtectData failed'' \<and> xor_protect (as_bytes ''s3cret'') = None
    | Inr c \<Rightarrow> decrypt_dpapi rfc_decode xor_protect c = Inr ''s3cret'')"
proof (rule stored_password_recovered)
  show "utf8_valid (as_bytes ''s3cret'')" by code_simp
qed (auto simp: rfc4648.dec_enc rfc4648.enc_ascii dest: xor_protect_inverse xor_protect_bounded)

end
