(* ===== verification/Persist.thy ===== *)
theory Persist
  imports Config Secrets
begin

text \<open>
  Loading and saving the configuration, \<open>crates/termhub-core/src/persist.rs\<close>. The directory is
  a map from file names to contents; the outcome of every system call is a parameter, so a run
  of \<open>save\<close> that is cut short at a call (by an error or by the end of the process) is one of
  the runs. The TOML printer and parser are parameters between documents and text.
\<close>

type_synonym directory = "(string, bytes) hmap"

definition config_toml :: string where "config_toml = ''config.toml''"
definition config_toml_tmp :: string where "config_toml_tmp = ''config.toml.tmp''"

text \<open>\<open>fs::write\<close> truncates or creates the file, then writes; a failure can come before or after.\<close>

datatype write_outcome = WriteOk | OpenFailed string | WriteFailed string nat

record save_calls =
  create_dir_err :: "string option"
  write_res :: write_outcome
  rename_err :: "string option"

subsection \<open>The program\<close>

definition default_config_dir :: "string option \<Rightarrow> string + string" where
  "default_config_dir config_dir =
     (case config_dir of Some p \<Rightarrow> Inr (p @ ''/termhub'') | None \<Rightarrow> Inl ''cannot resolve config dir'')"

fun redact_upstream :: "(string \<Rightarrow> string + string) \<Rightarrow> UpstreamSpec \<Rightarrow> string + UpstreamSpec" where
  "redact_upstream crypt (Ssh host port user password) =
     rbind (crypt password) (\<lambda>p. Inr (Ssh host port user p))"
| "redact_upstream crypt u = Inr u"

definition redact_session :: "(string \<Rightarrow> string + string) \<Rightarrow> SessionConfig \<Rightarrow> string + SessionConfig" where
  "redact_session crypt s =
     rbind (crypt (sc_password s)) (\<lambda>p.
     rbind (redact_upstream crypt (sc_upstream s)) (\<lambda>u.
     Inr (s\<lparr>sc_password := p, sc_upstream := u\<rparr>)))"

definition redact_for_save :: "(string \<Rightarrow> string + string) \<Rightarrow> Config \<Rightarrow> string + Config" where
  "redact_for_save encrypt cfg =
     rbind (map_result (redact_session encrypt) (cf_sessions cfg)) (\<lambda>ss.
     Inr (cfg\<lparr>cf_sessions := ss\<rparr>))"

definition unredact_after_load :: "(string \<Rightarrow> string + string) \<Rightarrow> Config \<Rightarrow> string + Config" where
  "unredact_after_load decrypt cfg =
     rbind (map_result (redact_session decrypt) (cf_sessions cfg)) (\<lambda>ss.
     Inr (cfg\<lparr>cf_sessions := ss\<rparr>))"

definition first_config :: Config where
  "first_config =
     \<lparr>cf_server = \<lparr>sv_listen = ''0.0.0.0:2222'', sv_host_key_path = ''host_key'',
        sv_max_clients_per_session = 16, sv_api_listen = ''127.0.0.1:2223''\<rparr>,
      cf_ui = ui_default, cf_sessions = []\<rparr>"

definition load_or_default :: "(string \<Rightarrow> string + string) \<Rightarrow> (string \<Rightarrow> string + val)
    \<Rightarrow> (serde_error \<Rightarrow> string) \<Rightarrow> string option \<Rightarrow> directory \<Rightarrow> string + Config" where
  "load_or_default decrypt parse show_err read_err dir =
     (case hm_get dir config_toml of
        None \<Rightarrow> Inr first_config
      | Some content \<Rightarrow>
          (case read_err of
             Some e \<Rightarrow> Inl e
           | None \<Rightarrow>
               rbind (from_utf8 content) (\<lambda>s.
               rbind (parse s) (\<lambda>v.
               rbind (map_err_res show_err (read_config v)) (\<lambda>cfg.
               unredact_after_load decrypt cfg)))))"

definition save :: "(string \<Rightarrow> string + string) \<Rightarrow> (val \<Rightarrow> string + string) \<Rightarrow> save_calls
    \<Rightarrow> Config \<Rightarrow> directory \<Rightarrow> (string + unit) \<times> directory" where
  "save encrypt print_pretty os cfg dir =
     (case create_dir_err os of
        Some e \<Rightarrow> (Inl e, dir)
      | None \<Rightarrow>
     (case redact_for_save encrypt cfg of
        Inl e \<Rightarrow> (Inl e, dir)
      | Inr to_write \<Rightarrow>
     (case print_pretty (config_val to_write) of
        Inl e \<Rightarrow> (Inl e, dir)
      | Inr s \<Rightarrow>
     (case write_res os of
        OpenFailed e \<Rightarrow> (Inl e, dir)
      | WriteFailed e n \<Rightarrow> (Inl e, hm_insert config_toml_tmp (take n (as_bytes s)) dir)
      | WriteOk \<Rightarrow>
          let dir1 = hm_insert config_toml_tmp (as_bytes s) dir in
          (case rename_err os of
             Some e \<Rightarrow> (Inl e, dir1)
           | None \<Rightarrow> (Inr (), hm_insert config_toml (as_bytes s) (hm_remove config_toml_tmp dir1)))))))"

subsection \<open>Redaction\<close>

fun upstream_passwords :: "UpstreamSpec \<Rightarrow> string list" where
  "upstream_passwords (Ssh host port user password) = [password]"
| "upstream_passwords u = []"

definition passwords :: "Config \<Rightarrow> string list" where
  "passwords cfg = concat (map (\<lambda>s. sc_password s # upstream_passwords (sc_upstream s)) (cf_sessions cfg))"

context secret_store
begin

lemma upstream_inverse:
  "list_all (\<lambda>p. utf8_valid (as_bytes p) \<and> fits p) (upstream_passwords u) \<Longrightarrow>
   redact_upstream encrypt u = Inr u' \<Longrightarrow> redact_upstream decrypt u' = Inr u"
  by (cases u) (auto simp: result_simps decrypt_encrypt)

lemma session_inverse:
  assumes "list_all (\<lambda>p. utf8_valid (as_bytes p) \<and> fits p)
     (sc_password s # upstream_passwords (sc_upstream s))"
    and "redact_session encrypt s = Inr s'"
  shows "redact_session decrypt s' = Inr s"
  using assms unfolding redact_session_def
  by (auto simp: result_simps decrypt_encrypt upstream_inverse)

lemma unredact_redact:
  assumes "list_all (\<lambda>p. utf8_valid (as_bytes p) \<and> fits p) (passwords cfg)"
    and "redact_for_save encrypt cfg = Inr cfg'"
  shows "unredact_after_load decrypt cfg' = Inr cfg"
proof -
  from assms(2) obtain ss where ss: "map_result (redact_session encrypt) (cf_sessions cfg) = Inr ss"
      and cfg': "cfg' = cfg\<lparr>cf_sessions := ss\<rparr>"
    by (auto simp: redact_for_save_def result_simps)
  have "map_result (redact_session decrypt) ss = Inr (cf_sessions cfg)"
  proof (rule map_result_inverse [OF ss])
    fix s s'
    assume "s \<in> set (cf_sessions cfg)" "redact_session encrypt s = Inr s'"
    then show "redact_session decrypt s' = Inr s"
      using assms(1) by (intro session_inverse) (auto simp: passwords_def list_all_iff)
  qed
  then show ?thesis by (simp add: unredact_after_load_def cfg')
qed

lemma load_saved:
  assumes pw: "list_all (\<lambda>p. utf8_valid (as_bytes p) \<and> fits p) (passwords cfg)"
    and toml: "\<And>v s. print_pretty v = Inr s \<Longrightarrow> utf8_valid (as_bytes s) \<and> (\<exists>v'. parse s = Inr v' \<and> veq v v')"
    and saved: "save encrypt print_pretty os cfg dir = (Inr (), dir')"
  shows "load_or_default decrypt parse show_err None dir' = Inr cfg"
proof -
  from saved obtain w s where w: "redact_for_save encrypt cfg = Inr w"
      and s: "print_pretty (config_val w) = Inr s"
      and dir': "dir' = hm_insert config_toml (as_bytes s)
        (hm_remove config_toml_tmp (hm_insert config_toml_tmp (as_bytes s) dir))"
    unfolding save_def
    by (auto simp: Let_def split: option.splits sum.splits write_outcome.splits)
  from toml [OF s] obtain v' where v: "utf8_valid (as_bytes s)" "parse s = Inr v'" "veq (config_val w) v'"
    by blast
  then have "read_config v' = Inr w"
    using respD [OF resp_read_config v(3)] read_config_val by simp
  then show ?thesis
    using v unredact_redact [OF pw w]
    by (simp add: load_or_default_def dir' hm_get_insert from_utf8_as_bytes)
qed

end

subsection \<open>Properties\<close>

text \<open>
  C11. The configuration file is replaced atomically. Whatever system call fails, or ends the run,
  and however much of the temporary file has been written by then, \<open>config.toml\<close> afterwards
  holds either its old content, exactly when \<open>save\<close> did not succeed, or the complete text of the
  redacted configuration, exactly when it did, with the temporary file gone; no other file
  changes.
\<close>
theorem config_file_replaced_atomically:
  "case save encrypt print_pretty os cfg dir of (r, dir') \<Rightarrow>
     (\<forall>f. f = config_toml \<or> f = config_toml_tmp \<or> hm_get dir' f = hm_get dir f) \<and>
     (case r of
        Inl e \<Rightarrow> hm_get dir' config_toml = hm_get dir config_toml
      | Inr _ \<Rightarrow> \<exists>w s. redact_for_save encrypt cfg = Inr w \<and> print_pretty (config_val w) = Inr s \<and>
          hm_get dir' config_toml = Some (as_bytes s) \<and> hm_get dir' config_toml_tmp = None)"
  unfolding save_def Let_def
  by (auto simp: hmap_simps config_toml_def config_toml_tmp_def
      split: option.splits sum.splits write_outcome.splits)

text \<open>
  C18. What is saved is loaded. When the Base64 decoder undoes the encoder and parsing the text
  printed for a document gives the document up to the order of its keys, then after a successful
  \<open>save\<close>, in any directory, the next \<open>load_or_default\<close> returns exactly the saved configuration,
  every password in clear included (configuration other than Windows).
\<close>
theorem config_saved_then_loaded:
  assumes "\<And>bs. dec (enc bs) = Inr bs"
    and "\<And>bs. list_all (\<lambda>b. unat b < 128) (as_bytes (enc bs))"
    and "\<And>v s. print_pretty v = Inr s \<Longrightarrow> utf8_valid (as_bytes s)"
    and "\<And>v s. print_pretty v = Inr s \<Longrightarrow> \<exists>v'. parse s = Inr v' \<and> veq v v'"
    and "list_all (\<lambda>p. utf8_valid (as_bytes p)) (passwords cfg)"
    and "save (encrypt_plain enc) print_pretty os cfg dir = (Inr (), dir')"
  shows "load_or_default (decrypt_plain dec) parse show_err None dir' = Inr cfg"
proof -
  have "base64_codec enc dec" using assms(1,2) by (rule base64_codec.intro)
  then have "secret_store (encrypt_plain enc) (decrypt_plain dec) (\<lambda>_. True)"
    by (rule base64_secret_store)
  then show ?thesis
    by (rule secret_store.load_saved) (use assms in auto)
qed

text \<open>
  A session behind an SSH upstream is saved, with RFC 4648 as the Base64 engine and a printer that
  knows this document's text.
\<close>

definition demo_config :: Config where
  "demo_config = first_config\<lparr>cf_sessions :=
     [\<lparr>sc_name = ''r1'', sc_password = ''pw'', sc_ssh_user = ''admin'', sc_listen = ''h:1'',
       sc_auto_reconnect = True, sc_launch_on_startup = False, sc_pty_override = None,
       sc_upstream = Ssh ''10.0.0.1'' 22 ''root'' ''secret''\<rparr>]\<rparr>"

definition demo_stored :: Config where
  "demo_stored = first_config\<lparr>cf_sessions :=
     [\<lparr>sc_name = ''r1'', sc_password = ''plain:'' @ rfc_encode (as_bytes ''pw''),
       sc_ssh_user = ''admin'', sc_listen = ''h:1'',
       sc_auto_reconnect = True, sc_launch_on_startup = False, sc_pty_override = None,
       sc_upstream = Ssh ''10.0.0.1'' 22 ''root'' (''plain:'' @ rfc_encode (as_bytes ''secret''))\<rparr>]\<rparr>"

definition demo_val :: val where
  "demo_val = config_val demo_stored"

definition demo_print :: "val \<Rightarrow> string + string" where
  "demo_print v = (if v = demo_val then Inr ''[server]'' else Inl ''unsupported'')"

definition demo_parse :: "string \<Rightarrow> string + val" where
  "demo_parse s = (if s = ''[server]'' then Inr demo_val else Inl ''expected a table'')"

lemma demo_redacted: "redact_for_save (encrypt_plain rfc_encode) demo_config = Inr demo_stored"
  by (simp add: redact_for_save_def redact_session_def demo_config_def demo_stored_def
      encrypt_plain_def)

theorem config_saved_then_loaded_witness:
  "load_or_default (decrypt_plain rfc_decode) demo_parse (\<lambda>_. ''invalid'') None
     (snd (save (encrypt_plain rfc_encode) demo_print
        \<lparr>create_dir_err = None, write_res = WriteOk, rename_err = None\<rparr> demo_config []))
   = Inr demo_config"
proof (rule config_saved_then_loaded)
  show "save (encrypt_plain rfc_encode) demo_print
      \<lparr>create_dir_err = None, write_res = WriteOk, rename_err = None\<rparr> demo_config [] =
    (Inr (), snd (save (encrypt_plain rfc_encode) demo_print
      \<lparr>create_dir_err = None, write_res = WriteOk, rename_err = None\<rparr> demo_config []))"
    by (simp add: save_def demo_redacted demo_print_def demo_val_def)
  show "list_all (\<lambda>p. utf8_valid (as_bytes p)) (passwords demo_config)" by code_simp
next
  fix v s
  assume "demo_print v = Inr s"
  then have v: "v = demo_val" "s = ''[server]''" by (auto simp: demo_print_def split: if_splits)
  have "utf8_valid (as_bytes ''[server]'')" by code_simp
  with v show "utf8_valid (as_bytes s)" by simp
  show "\<exists>v'. demo_parse s = Inr v' \<and> veq v v'"
    using v veq_refl by (simp add: demo_parse_def)
qed (rule rfc4648.dec_enc, rule rfc4648.enc_ascii)

end
