(* ===== verification/App_State.thy ===== *)
theory App_State
  imports Session Session_Mgr Clients Runner Config Persist
begin

text \<open>
  The state of the running program: \<open>AppState\<close> and \<open>RunnerEntry\<close> of
  \<open>crates/termhub-app/src/state.rs\<close>, the shared objects behind their handles (session tables,
  client registries, status channels, cancellation tokens), the tasks that have been spawned, and
  the configuration directory; and \<open>start_session\<close> of \<open>crates/termhub-core/src/session_factory.rs\<close>.
  A handle is a number, allocated once; a task is alive until it has been cancelled.
\<close>

record StartedSession =
  ss_status_rx :: handle
  ss_cancel :: handle
  ss_handle :: handle

record RunnerEntry =
  re_started :: "StartedSession option"
  re_config :: SessionConfig
  re_proxy_cancel :: "handle option"
  re_sshd_cancel :: "handle option"
  re_sshd_handle :: "handle option"
  re_session_mgr :: "handle option"

text \<open>
  A spawned task, with the token that stops it. An SSH server has its configuration
  (\<open>termhub_sshd::ServerConfig\<close>: the address, the host keys, the clients of a session) and its
  session table. A host key is a value of the type variable \<open>'key\<close>.
\<close>

datatype 'key task =
    RunnerTask (task_token: handle) UpstreamSpec RunnerConfig
  | SshdTask (task_token: handle) string "'key list" u64 handle
  | ForwardTask (task_token: handle) string string bool

record 'key app =
  runners :: "(string, RunnerEntry) hmap"
  host_keys :: "'key list"
  host_key_fpr :: string
  config_dir :: directory
  max_clients_per_session :: u64
  api_listen :: string
  next_handle :: handle
  mgrs :: "(handle, SessionMgr) hmap"
  registries :: "(handle, ClientRegistry) hmap"
  statuses :: "(handle, SessionStatus) hmap"
  cancelled :: "handle list"
  tasks :: "(handle, 'key task) hmap"

definition app_new :: "'key list \<Rightarrow> string \<Rightarrow> directory \<Rightarrow> u64 \<Rightarrow> string \<Rightarrow> 'key app" where
  "app_new keys fpr dir max_clients api =
     \<lparr>runners = [], host_keys = keys, host_key_fpr = fpr, config_dir = dir, max_clients_per_session = max_clients,
      api_listen = api, next_handle = 0, mgrs = [], registries = [], statuses = [],
      cancelled = [], tasks = []\<rparr>"

definition fresh :: "'key app \<Rightarrow> handle \<times> 'key app" where
  "fresh w = (next_handle w, w\<lparr>next_handle := next_handle w + 1\<rparr>)"

definition cancel_token :: "handle \<Rightarrow> 'key app \<Rightarrow> 'key app" where
  "cancel_token t w = w\<lparr>cancelled := t # cancelled w\<rparr>"

definition cancel_opt :: "handle option \<Rightarrow> 'key app \<Rightarrow> 'key app" where
  "cancel_opt t w = (case t of None \<Rightarrow> w | Some t \<Rightarrow> cancel_token t w)"

definition spawn :: "'key task \<Rightarrow> 'key app \<Rightarrow> handle \<times> 'key app" where
  "spawn t w = (let (h, w) = fresh w in (h, w\<lparr>tasks := hm_insert h t (tasks w)\<rparr>))"

definition alive :: "'key app \<Rightarrow> handle \<Rightarrow> bool" where
  "alive w h = (case hm_get (tasks w) h of None \<Rightarrow> False | Some t \<Rightarrow> task_token t \<notin> set (cancelled w))"

text \<open>\<open>SessionMgr::new()\<close>.\<close>

definition new_mgr :: "'key app \<Rightarrow> handle \<times> 'key app" where
  "new_mgr w = (let (m, w) = fresh w in (m, w\<lparr>mgrs := hm_insert m mgr_new (mgrs w)\<rparr>))"

definition the_mgr :: "'key app \<Rightarrow> handle \<Rightarrow> SessionMgr" where
  "the_mgr w m = (case hm_get (mgrs w) m of None \<Rightarrow> mgr_new | Some g \<Rightarrow> g)"

text \<open>
  \<open>start_session\<close>: hub, status channel and token are created, the session is registered with its
  registry, and only then the runner is spawned.
\<close>

definition start_session :: "handle \<Rightarrow> string \<Rightarrow> string \<Rightarrow> UpstreamSpec \<Rightarrow> RunnerConfig
    \<Rightarrow> 'key app \<Rightarrow> (string + StartedSession) \<times> 'key app" where
  "start_session mgr ssh_user password upstream cfg w =
     (let (hub, w) = fresh w;
          (status, w) = fresh w;
          w = w\<lparr>statuses := hm_insert status status_channel (statuses w)\<rparr>;
          (cancel, w) = fresh w;
          (clients, w) = fresh w in
      case register ssh_user password hub status cancel clients (the_mgr w mgr) of
        Inl e \<Rightarrow> (Inl e, w)
      | Inr g \<Rightarrow>
          (let w = w\<lparr>mgrs := hm_insert mgr g (mgrs w),
                     registries := hm_insert clients registry_default (registries w)\<rparr>;
               (h, w) = spawn (RunnerTask cancel upstream cfg) w in
           (Inr \<lparr>ss_status_rx = status, ss_cancel = cancel, ss_handle = h\<rparr>, w)))"

text \<open>
  \<open>termhub_sshd::start\<close>, with the host keys and the limit of the program: bind the address, then
  spawn the accept loop.
\<close>

definition sshd_start :: "string option \<Rightarrow> string \<Rightarrow> handle \<Rightarrow> handle \<Rightarrow> 'key app
    \<Rightarrow> (string + handle) \<times> 'key app" where
  "sshd_start bind_err listen mgr cancel w =
     (case bind_err of
        Some e \<Rightarrow> (Inl e, w)
      | None \<Rightarrow> (let (h, w) = spawn (SshdTask cancel listen (host_keys w) (max_clients_per_session w) mgr) w in (Inr h, w)))"

subsection \<open>Orphans\<close>

text \<open>The tokens an entry can still cancel.\<close>

definition entry_tokens :: "RunnerEntry \<Rightarrow> handle list" where
  "entry_tokens r =
     (case re_started r of None \<Rightarrow> [] | Some s \<Rightarrow> [ss_cancel s]) @
     (case re_proxy_cancel r of None \<Rightarrow> [] | Some t \<Rightarrow> [t]) @
     (case re_sshd_cancel r of None \<Rightarrow> [] | Some t \<Rightarrow> [t])"

definition owns :: "'key app \<Rightarrow> handle \<Rightarrow> bool" where
  "owns w t = (\<exists>k r. hm_get (runners w) k = Some r \<and> t \<in> set (entry_tokens r))"

text \<open>A task that has not been told to stop and that no entry can stop any more.\<close>

definition orphan :: "'key app \<Rightarrow> handle \<Rightarrow> bool" where
  "orphan w h = (\<exists>t. hm_get (tasks w) h = Some t \<and> task_token t \<notin> set (cancelled w) \<and>
     \<not> owns w (task_token t))"

text \<open>
  Well-formed states: keys are the lower-cased names, all handles are allocated, and every task
  is owned or has been told to stop.
\<close>

definition handles_ok :: "'key app \<Rightarrow> bool" where
  "handles_ok w \<longleftrightarrow>
     (\<forall>t. owns w t \<longrightarrow> t < next_handle w) \<and> (\<forall>t \<in> set (cancelled w). t < next_handle w) \<and>
     (\<forall>h t. hm_get (tasks w) h = Some t \<longrightarrow> h < next_handle w \<and> task_token t < next_handle w)"

definition keys_ok :: "'key app \<Rightarrow> bool" where
  "keys_ok w \<longleftrightarrow> (\<forall>k r. hm_get (runners w) k = Some r \<longrightarrow> k = to_ascii_lowercase (sc_name (re_config r)))"

definition app_ok :: "'key app \<Rightarrow> bool" where
  "app_ok w \<longleftrightarrow> handles_ok w \<and> keys_ok w \<and> (\<forall>h. \<not> orphan w h)"

lemma app_ok_new: "app_ok (app_new keys fpr dir m api)"
  by (simp add: app_ok_def handles_ok_def keys_ok_def orphan_def owns_def app_new_def)

subsection \<open>What starting a session leaves behind\<close>

text \<open>In a fresh table a registration fails only for its name.\<close>

lemma register_new:
  "register n p h s c cl mgr_new =
     (case normalize_name n of
        None \<Rightarrow> Inl ''invalid session name''
      | Some k \<Rightarrow> Inr [(k, \<lparr>se_name = n, se_password = p, se_hub = h, se_status = s,
          se_cancel = c, se_clients = cl\<rparr>)])"
  by (simp add: register_def mgr_new_def hm_insert_def split: option.splits)

lemma the_mgr_new [simp]: "the_mgr (snd (new_mgr w)) (fst (new_mgr w)) = mgr_new"
  by (simp add: the_mgr_def new_mgr_def fresh_def hm_get_insert)

end
