(* ===== verification/App_Logic.thy ===== *)
theory App_Logic
  imports App_State
begin

text \<open>
  The operations behind the user interface and the HTTP API,
  \<open>crates/termhub-app/src/app_logic.rs\<close>, on the state of the program. What comes from outside is in
  the record \<open>env\<close>: whether the SSH address could be bound, the outcome of saving, the status a
  stopped runner leaves behind.
\<close>

datatype AppError = NotFound string | Internal string

fun app_error_text :: "AppError \<Rightarrow> string" where
  "app_error_text (NotFound m) = m"
| "app_error_text (Internal e) = e"

record env =
  env_bind_err :: "string option"
  env_save :: "Config \<Rightarrow> directory \<Rightarrow> (string + unit) \<times> directory"
  env_final :: SessionStatus

record SessionView =
  v_name :: string
  v_ssh_user :: string
  v_listen :: string
  v_status :: SessionStatus
  v_upstream_kind :: string
  v_upstream_summary :: string
  v_upstream :: UpstreamSpec
  v_auto_reconnect :: bool
  v_client_count :: nat

record ClientView =
  cv_id :: u64
  cv_remote :: string
  cv_connected_at_secs :: u64
  cv_bytes_in :: u64
  cv_bytes_out :: u64

fun upstream_kind_label :: "UpstreamSpec \<Rightarrow> string" where
  "upstream_kind_label Loopback = ''loopback''"
| "upstream_kind_label (Serial _ _ _ _ _ _ _ _) = ''serial''"
| "upstream_kind_label (Ssh _ _ _ _) = ''ssh''"
| "upstream_kind_label (UpstreamSpec.Telnet _ _) = ''telnet''"
| "upstream_kind_label (RawTcp _ _) = ''raw_tcp''"
| "upstream_kind_label (LocalShell _ _) = ''local_shell''"
| "upstream_kind_label (HttpProxy _ _ _) = ''http_proxy''"

definition parity_letter :: "string \<Rightarrow> string" where
  "parity_letter p =
     (if p = ''none'' then ''N'' else if p = ''even'' then ''E'' else if p = ''odd'' then ''O'' else ''?'')"

fun upstream_summary :: "UpstreamSpec \<Rightarrow> string" where
  "upstream_summary Loopback = ''internal loopback''"
| "upstream_summary (Serial port baud data_bits parity stop_bits flow _ _) =
     port @ '' @ '' @ show_word baud @ '' '' @ show_word data_bits @ parity_letter parity
       @ show_word stop_bits @ '' '' @ flow"
| "upstream_summary (Ssh host port user _) = user @ ''@'' @ host @ '':'' @ show_word port"
| "upstream_summary (UpstreamSpec.Telnet host port) = host @ '':'' @ show_word port @ '' (telnet)''"
| "upstream_summary (RawTcp host port) = host @ '':'' @ show_word port @ '' (raw)''"
| "upstream_summary (LocalShell command _) = command"
| "upstream_summary (HttpProxy listen target protocol) =
     listen @ '' -> '' @ target @ '' ('' @ protocol @ '')''"

subsection \<open>Persistence\<close>

definition persisted :: "'key app \<Rightarrow> Config" where
  "persisted w =
     \<lparr>cf_server = \<lparr>sv_listen = ''0.0.0.0:2222'', sv_host_key_path = ''host_key'',
        sv_max_clients_per_session = max_clients_per_session w, sv_api_listen = api_listen w\<rparr>,
      cf_ui = ui_default, cf_sessions = map re_config (hm_values (runners w))\<rparr>"

definition persist_now :: "env \<Rightarrow> 'key app \<Rightarrow> (string + unit) \<times> 'key app" where
  "persist_now e w =
     (let (r, dir) = env_save e (persisted w) (config_dir w) in (r, w\<lparr>config_dir := dir\<rparr>))"

text \<open>The last step of every operation: \<open>persist_now(state).await?; Ok(x)\<close>.\<close>

definition persist_then :: "env \<Rightarrow> 'a \<Rightarrow> 'key app \<Rightarrow> (AppError + 'a) \<times> 'key app" where
  "persist_then e x w =
     (case persist_now e w of (Inl m, w) \<Rightarrow> (Inl (Internal m), w) | (Inr _, w) \<Rightarrow> (Inr x, w))"

subsection \<open>Queries\<close>

definition mgr_entry :: "'key app \<Rightarrow> RunnerEntry \<Rightarrow> SessionEntry option" where
  "mgr_entry w r =
     (case re_session_mgr r of
        None \<Rightarrow> None
      | Some m \<Rightarrow> mgr_get (the_mgr w m) (sc_ssh_user (re_config r)))"

definition the_registry :: "'key app \<Rightarrow> handle \<Rightarrow> ClientRegistry" where
  "the_registry w c = (case hm_get (registries w) c of None \<Rightarrow> registry_default | Some g \<Rightarrow> g)"

definition the_status :: "'key app \<Rightarrow> handle \<Rightarrow> SessionStatus" where
  "the_status w s = (case hm_get (statuses w) s of None \<Rightarrow> status_channel | Some st \<Rightarrow> st)"

definition session_view :: "'key app \<Rightarrow> RunnerEntry \<Rightarrow> SessionView" where
  "session_view w r =
     (let me = mgr_entry w r; c = re_config r in
      \<lparr>v_name = sc_name c, v_ssh_user = sc_ssh_user c, v_listen = sc_listen c,
       v_status = (case me of
          Some e \<Rightarrow> the_status w (se_status e)
        | None \<Rightarrow> if re_proxy_cancel r \<noteq> None then Running 0 else Stopped),
       v_upstream_kind = upstream_kind_label (sc_upstream c),
       v_upstream_summary = upstream_summary (sc_upstream c),
       v_upstream = sc_upstream c, v_auto_reconnect = sc_auto_reconnect c,
       v_client_count = (case me of
          Some e \<Rightarrow> length (client_list (the_registry w (se_clients e)))
        | None \<Rightarrow> 0)\<rparr>)"

definition list_sessions :: "'key app \<Rightarrow> SessionView list" where
  "list_sessions w = map (session_view w) (hm_values (runners w))"

text \<open>Seconds since the epoch as \<open>u64\<close>; a time before it counts as 0.\<close>

definition epoch_secs :: "int \<Rightarrow> u64" where
  "epoch_secs t = (if t < 0 then 0 else word_of_int t)"

definition client_view :: "ClientRecordSnapshot \<Rightarrow> ClientView" where
  "client_view s = \<lparr>cv_id = sn_id s, cv_remote = sn_remote s,
     cv_connected_at_secs = epoch_secs (sn_connected_at s),
     cv_bytes_in = sn_bytes_in s, cv_bytes_out = sn_bytes_out s\<rparr>"

definition list_clients :: "string \<Rightarrow> 'key app \<Rightarrow> ClientView list" where
  "list_clients name w =
     (case hm_get (runners w) (to_ascii_lowercase name) of
        None \<Rightarrow> []
      | Some r \<Rightarrow>
          (case mgr_entry w r of
             None \<Rightarrow> []
           | Some e \<Rightarrow> map client_view (client_list (the_registry w (se_clients e)))))"

definition kick_client :: "string \<Rightarrow> u64 \<Rightarrow> 'key app \<Rightarrow> bool \<times> 'key app" where
  "kick_client name i w =
     (case hm_get (runners w) (to_ascii_lowercase name) of
        None \<Rightarrow> (False, w)
      | Some r \<Rightarrow>
          (case mgr_entry w r of
             None \<Rightarrow> (False, w)
           | Some e \<Rightarrow>
               (let (b, g) = kick i (the_registry w (se_clients e)) in
                (b, if b then w\<lparr>registries := hm_insert (se_clients e) g (registries w)\<rparr> else w))))"

subsection \<open>Creating\<close>

definition create_proxy :: "SessionConfig \<Rightarrow> string \<Rightarrow> string \<Rightarrow> string \<Rightarrow> 'key app \<Rightarrow> handle \<times> 'key app" where
  "create_proxy cfg listen target protocol w =
     (let (cancel, w) = fresh w;
          (_, w) = spawn (ForwardTask cancel listen target (protocol = ''udp'')) w;
          (status, w) = fresh w;
          w = w\<lparr>statuses := hm_insert status status_channel (statuses w)\<rparr>;
          w = w\<lparr>runners := hm_insert (to_ascii_lowercase (sc_name cfg))
                 \<lparr>re_started = None, re_config = cfg, re_proxy_cancel = Some cancel,
                  re_sshd_cancel = None, re_sshd_handle = None, re_session_mgr = None\<rparr> (runners w)\<rparr>
      in (status, w))"

text \<open>The regular branch, up to the insertion into \<open>runners\<close>.\<close>

definition create_regular :: "string option \<Rightarrow> SessionConfig \<Rightarrow> 'key app \<Rightarrow> (string + handle) \<times> 'key app" where
  "create_regular bind_err cfg w =
     (let (mgr, w) = new_mgr w in
      case start_session mgr (sc_ssh_user cfg) (sc_password cfg) (sc_upstream cfg)
          \<lparr>rc_auto_reconnect = sc_auto_reconnect cfg, rc_max_attempts = None\<rparr> w of
        (Inl m, w) \<Rightarrow> (Inl m, w)
      | (Inr started, w) \<Rightarrow>
          (let (sshd_cancel, w) = fresh w in
           case sshd_start bind_err (sc_listen cfg) mgr sshd_cancel w of
             (Inl m, w) \<Rightarrow> (Inl m, w)
           | (Inr sshd, w) \<Rightarrow>
               (Inr (ss_status_rx started),
                w\<lparr>runners := hm_insert (to_ascii_lowercase (sc_name cfg))
                    \<lparr>re_started = Some started, re_config = cfg, re_proxy_cancel = None,
                     re_sshd_cancel = Some sshd_cancel, re_sshd_handle = Some sshd,
                     re_session_mgr = Some mgr\<rparr> (runners w)\<rparr>)))"

definition create_session :: "env \<Rightarrow> SessionConfig \<Rightarrow> 'key app \<Rightarrow> (AppError + string \<times> handle) \<times> 'key app" where
  "create_session e cfg w =
     (let cfg = cfg\<lparr>sc_launch_on_startup := True\<rparr> in
      case sc_upstream cfg of
        HttpProxy listen target protocol \<Rightarrow>
          (let (status, w) = create_proxy cfg listen target protocol w in
           persist_then e (sc_name cfg, status) w)
      | _ \<Rightarrow>
          (case create_regular (env_bind_err e) cfg w of
             (Inl m, w) \<Rightarrow> (Inl (Internal m), w)
           | (Inr status, w) \<Rightarrow> persist_then e (sc_name cfg, status) w))"

subsection \<open>Stopping\<close>

definition stop_cancel :: "string \<Rightarrow> 'key app \<Rightarrow> 'key app" where
  "stop_cancel key w =
     (case hm_get (runners w) key of
        None \<Rightarrow> w
      | Some r \<Rightarrow>
          cancel_opt (re_sshd_cancel r)
            (cancel_opt (re_proxy_cancel r) (cancel_opt (map_option ss_cancel (re_started r)) w)))"

definition await_runner :: "SessionStatus \<Rightarrow> StartedSession option \<Rightarrow> 'key app \<Rightarrow> 'key app" where
  "await_runner final st w =
     (case st of
        None \<Rightarrow> w
      | Some s \<Rightarrow> w\<lparr>tasks := hm_remove (ss_handle s) (tasks w),
                    statuses := hm_insert (ss_status_rx s) final (statuses w)\<rparr>)"

definition await_sshd :: "handle option \<Rightarrow> 'key app \<Rightarrow> 'key app" where
  "await_sshd h w = (case h of None \<Rightarrow> w | Some h \<Rightarrow> w\<lparr>tasks := hm_remove h (tasks w)\<rparr>)"

definition stop_take :: "SessionStatus \<Rightarrow> string \<Rightarrow> 'key app \<Rightarrow> 'key app" where
  "stop_take final key w =
     (case hm_get (runners w) key of
        None \<Rightarrow> w
      | Some r \<Rightarrow>
          await_sshd (re_sshd_handle r) (await_runner final (re_started r)
            (w\<lparr>runners := hm_insert key
                (r\<lparr>re_started := None, re_sshd_handle := None, re_proxy_cancel := None,
                   re_sshd_cancel := None\<rparr>) (runners w)\<rparr>)))"

definition stop_flag :: "string \<Rightarrow> 'key app \<Rightarrow> 'key app" where
  "stop_flag key w =
     w\<lparr>runners := hm_modify key
        (\<lambda>r. r\<lparr>re_config := (re_config r)\<lparr>sc_launch_on_startup := False\<rparr>\<rparr>) (runners w)\<rparr>"

definition stop_session :: "env \<Rightarrow> string \<Rightarrow> 'key app \<Rightarrow> (AppError + unit) \<times> 'key app" where
  "stop_session e name w =
     (let key = to_ascii_lowercase name in
      persist_then e () (stop_flag key (stop_take (env_final e) key (stop_cancel key w))))"

definition delete_session :: "env \<Rightarrow> string \<Rightarrow> 'key app \<Rightarrow> (AppError + unit) \<times> 'key app" where
  "delete_session e name w =
     (case stop_session e name w of
        (Inl x, w) \<Rightarrow> (Inl x, w)
      | (Inr _, w) \<Rightarrow>
          persist_then e () (w\<lparr>runners := hm_remove (to_ascii_lowercase name) (runners w)\<rparr>))"

definition restart_session :: "env \<Rightarrow> string \<Rightarrow> 'key app \<Rightarrow> (AppError + handle) \<times> 'key app" where
  "restart_session e name w =
     (case map_option re_config (hm_get (runners w) (to_ascii_lowercase name)) of
        None \<Rightarrow> (Inl (NotFound ''no such session''), w)
      | Some cfg \<Rightarrow>
          (case stop_session e name w of
             (Inl x, w) \<Rightarrow> (Inl x, w)
           | (Inr _, w) \<Rightarrow>
               (case create_session e cfg w of
                  (Inl x, w) \<Rightarrow> (Inl x, w)
                | (Inr (_, status), w) \<Rightarrow> (Inr status, w))))"

definition update_session :: "env \<Rightarrow> string \<Rightarrow> SessionConfig \<Rightarrow> 'key app \<Rightarrow> (AppError + handle) \<times> 'key app" where
  "update_session e old_name cfg w =
     (let cfg = (if sc_password cfg = [] then
                   (case hm_get (runners w) (to_ascii_lowercase old_name) of
                      Some r \<Rightarrow> cfg\<lparr>sc_password := sc_password (re_config r)\<rparr>
                    | None \<Rightarrow> cfg)
                 else cfg) in
      case stop_session e old_name w of
        (Inl x, w) \<Rightarrow> (Inl x, w)
      | (Inr _, w) \<Rightarrow>
          (case create_session e cfg w of
             (Inl x, w) \<Rightarrow> (Inl x, w)
           | (Inr (_, status), w) \<Rightarrow> (Inr status, w)))"

subsection \<open>What creating a session does to the state\<close>

lemmas allocation = fresh_def spawn_def new_mgr_def the_mgr_def start_session_def sshd_start_def

lemma create_regular_bad_user:
  assumes "normalize_name (sc_ssh_user cfg) = None"
  shows "fst (create_regular be cfg w) = Inl ''invalid session name'' \<and>
    (let w' = snd (create_regular be cfg w) in
     runners w' = runners w \<and> tasks w' = tasks w \<and> cancelled w' = cancelled w \<and>
     config_dir w' = config_dir w \<and> next_handle w' = next_handle w + 5)"
  using assms by (simp add: create_regular_def allocation hm_get_insert register_new)

definition new_runner :: "'key app \<Rightarrow> SessionConfig \<Rightarrow> 'key task" where
  "new_runner w cfg = RunnerTask (next_handle w + 3) (sc_upstream cfg)
     \<lparr>rc_auto_reconnect = sc_auto_reconnect cfg, rc_max_attempts = None\<rparr>"

definition new_sshd :: "'key app \<Rightarrow> SessionConfig \<Rightarrow> 'key task" where
  "new_sshd w cfg = SshdTask (next_handle w + 6) (sc_listen cfg) (host_keys w)
     (max_clients_per_session w) (next_handle w)"

definition new_entry :: "'key app \<Rightarrow> SessionConfig \<Rightarrow> RunnerEntry" where
  "new_entry w cfg =
     \<lparr>re_started = Some \<lparr>ss_status_rx = next_handle w + 2, ss_cancel = next_handle w + 3,
        ss_handle = next_handle w + 5\<rparr>,
      re_config = cfg, re_proxy_cancel = None, re_sshd_cancel = Some (next_handle w + 6),
      re_sshd_handle = Some (next_handle w + 7), re_session_mgr = Some (next_handle w)\<rparr>"

lemma create_regular_no_bind:
  assumes "normalize_name (sc_ssh_user cfg) = Some k"
  shows "fst (create_regular (Some m) cfg w) = Inl m \<and>
    (let w' = snd (create_regular (Some m) cfg w) in
     runners w' = runners w \<and> cancelled w' = cancelled w \<and>
     tasks w' = hm_insert (next_handle w + 5) (new_runner w cfg) (tasks w) \<and>
     config_dir w' = config_dir w \<and> next_handle w' = next_handle w + 7)"
  using assms
  by (simp add: create_regular_def allocation hm_get_insert register_new new_runner_def numeral_eq_Suc)

lemma create_regular_ok:
  assumes "normalize_name (sc_ssh_user cfg) = Some k"
  shows "fst (create_regular None cfg w) = Inr (next_handle w + 2) \<and>
    (let w' = snd (create_regular None cfg w) in
     runners w' = hm_insert (to_ascii_lowercase (sc_name cfg)) (new_entry w cfg) (runners w) \<and>
     cancelled w' = cancelled w \<and>
     tasks w' = hm_insert (next_handle w + 7) (new_sshd w cfg)
       (hm_insert (next_handle w + 5) (new_runner w cfg) (tasks w)) \<and>
     config_dir w' = config_dir w \<and> next_handle w' = next_handle w + 8)"
  using assms
  by (simp add: create_regular_def allocation hm_get_insert register_new new_runner_def new_sshd_def
      new_entry_def numeral_eq_Suc)

definition new_proxy :: "'key app \<Rightarrow> SessionConfig \<Rightarrow> RunnerEntry" where
  "new_proxy w cfg =
     \<lparr>re_started = None, re_config = cfg, re_proxy_cancel = Some (next_handle w),
      re_sshd_cancel = None, re_sshd_handle = None, re_session_mgr = None\<rparr>"

lemma create_proxy_ok:
  "fst (create_proxy cfg l t p w) = next_handle w + 2 \<and>
   (let w' = snd (create_proxy cfg l t p w) in
     runners w' = hm_insert (to_ascii_lowercase (sc_name cfg)) (new_proxy w cfg) (runners w) \<and>
     cancelled w' = cancelled w \<and>
     tasks w' = hm_insert (next_handle w + 1) (ForwardTask (next_handle w) l t (p = ''udp'')) (tasks w) \<and>
     config_dir w' = config_dir w \<and> next_handle w' = next_handle w + 3)"
  by (simp add: create_proxy_def allocation new_proxy_def)

subsection \<open>Every task stays owned\<close>

text \<open>The last step only changes the directory.\<close>

lemma persist_then_frame:
  "runners (snd (persist_then e x w)) = runners w" "tasks (snd (persist_then e x w)) = tasks w"
  "cancelled (snd (persist_then e x w)) = cancelled w"
  "next_handle (snd (persist_then e x w)) = next_handle w"
  by (auto simp: persist_then_def persist_now_def Let_def split: prod.splits sum.splits)

definition same_core :: "'key app \<Rightarrow> 'key app \<Rightarrow> bool" where
  "same_core w w' \<longleftrightarrow> runners w' = runners w \<and> tasks w' = tasks w \<and> cancelled w' = cancelled w \<and>
     next_handle w \<le> next_handle w'"

lemma same_core_app_ok:
  assumes "same_core w w'" and "app_ok w"
  shows "app_ok w'"
proof -
  have lt: "a < next_handle w \<Longrightarrow> a < next_handle w'" for a
    using assms(1) by (simp add: same_core_def)
  have own: "owns w' = owns w" "orphan w' = orphan w" "keys_ok w' = keys_ok w"
    using assms(1) by (auto simp: owns_def orphan_def keys_ok_def same_core_def fun_eq_iff)
  show ?thesis
    using assms lt unfolding app_ok_def handles_ok_def own same_core_def by metis
qed

lemma same_core_persist: "same_core w (snd (persist_then e x w))"
  by (simp add: same_core_def persist_then_frame)

lemma app_ok_persist [simp]: "app_ok w \<Longrightarrow> app_ok (snd (persist_then e x w))"
  using same_core_app_ok [OF same_core_persist] .

text \<open>An insertion over a key whose entry, if any, owns nothing.\<close>

definition free_key :: "'key app \<Rightarrow> string \<Rightarrow> bool" where
  "free_key w k \<longleftrightarrow> (\<forall>r. hm_get (runners w) k = Some r \<longrightarrow> entry_tokens r = [])"

lemma owns_insert:
  assumes "free_key w k"
    and "runners w' = hm_insert k r (runners w)"
  shows "owns w' t \<longleftrightarrow> owns w t \<or> t \<in> set (entry_tokens r)"
  using assms unfolding owns_def free_key_def
  by (auto simp: hm_get_insert) (metis emptyE list.set(1))+

lemma app_ok_create:
  assumes ok: "app_ok w" and free: "free_key w (to_ascii_lowercase (sc_name cfg))"
    and w': "runners w' = hm_insert (to_ascii_lowercase (sc_name cfg)) r (runners w)"
      "cancelled w' = cancelled w" "next_handle w \<le> next_handle w'"
    and r: "re_config r = cfg" "\<forall>t \<in> set (entry_tokens r). t < next_handle w'"
    and new: "\<And>h t. hm_get (tasks w') h = Some t \<Longrightarrow> hm_get (tasks w) h = Some t \<or>
      (h < next_handle w' \<and> task_token t \<in> set (entry_tokens r))"
  shows "app_ok w'"
proof -
  note own = owns_insert [OF free w'(1)]
  have lt: "a < next_handle w \<Longrightarrow> a < next_handle w'" for a using w'(3) by simp
  have h: "handles_ok w'"
    unfolding handles_ok_def own w'(2)
    using ok r(2) lt new unfolding app_ok_def handles_ok_def by blast
  have k: "keys_ok w'"
    using ok r(1) unfolding app_ok_def keys_ok_def w'(1) hm_get_insert by auto
  have "\<not> orphan w' h" for h
    using ok new unfolding app_ok_def orphan_def own w'(2) by blast
  with h k show ?thesis by (simp add: app_ok_def)
qed

subsection \<open>Stopping keeps every task owned or stopped\<close>

definition stopped_entry :: "RunnerEntry \<Rightarrow> RunnerEntry" where
  "stopped_entry r = r\<lparr>re_started := None, re_sshd_handle := None, re_proxy_cancel := None,
     re_sshd_cancel := None, re_config := (re_config r)\<lparr>sc_launch_on_startup := False\<rparr>\<rparr>"

lemma stopped_entry_tokens [simp]: "entry_tokens (stopped_entry r) = []"
  by (simp add: stopped_entry_def entry_tokens_def)

lemma stopped_entry_config [simp]:
  "re_config (stopped_entry r) = (re_config r)\<lparr>sc_launch_on_startup := False\<rparr>"
  by (simp add: stopped_entry_def)

definition stop_core :: "SessionStatus \<Rightarrow> string \<Rightarrow> 'key app \<Rightarrow> 'key app" where
  "stop_core final key w = stop_flag key (stop_take final key (stop_cancel key w))"

lemma cancel_opt_fields [simp]:
  "runners (cancel_opt t w) = runners w" "tasks (cancel_opt t w) = tasks w"
  "next_handle (cancel_opt t w) = next_handle w" "config_dir (cancel_opt t w) = config_dir w"
  "set (cancelled (cancel_opt t w)) = set (cancelled w) \<union> set_option t"
  by (auto simp: cancel_opt_def cancel_token_def split: option.splits)

lemma await_fields [simp]:
  "runners (await_runner f s w) = runners w" "cancelled (await_runner f s w) = cancelled w"
  "next_handle (await_runner f s w) = next_handle w" "config_dir (await_runner f s w) = config_dir w"
  "runners (await_sshd h w) = runners w" "cancelled (await_sshd h w) = cancelled w"
  "next_handle (await_sshd h w) = next_handle w" "config_dir (await_sshd h w) = config_dir w"
  by (simp_all add: await_runner_def await_sshd_def split: option.splits)

lemma await_tasks:
  "hm_get (tasks (await_runner f s w)) h = Some t \<Longrightarrow> hm_get (tasks w) h = Some t"
  "hm_get (tasks (await_sshd i w)) h = Some t \<Longrightarrow> hm_get (tasks w) h = Some t"
  by (auto simp: await_runner_def await_sshd_def hm_get_remove split: option.splits if_splits)

lemma stop_core_none: "hm_get (runners w) key = None \<Longrightarrow> stop_core final key w = w"
  by (simp add: stop_core_def stop_cancel_def stop_take_def stop_flag_def hm_modify_def)

lemma stop_core_some:
  assumes r: "hm_get (runners w) key = Some r"
  shows "hm_get (runners (stop_core final key w)) k =
      (if k = key then Some (stopped_entry r) else hm_get (runners w) k)"
    "set (cancelled (stop_core final key w)) = set (cancelled w) \<union> set (entry_tokens r)"
    "hm_get (tasks (stop_core final key w)) h = Some t \<Longrightarrow> hm_get (tasks w) h = Some t"
    "next_handle (stop_core final key w) = next_handle w"
    "config_dir (stop_core final key w) = config_dir w"
proof -
  have c: "runners (stop_cancel key w) = runners w" "tasks (stop_cancel key w) = tasks w"
    by (simp_all add: stop_cancel_def r)
  show "hm_get (runners (stop_core final key w)) k =
      (if k = key then Some (stopped_entry r) else hm_get (runners w) k)"
    by (auto simp: stop_core_def stop_flag_def stop_take_def c r hm_get_modify hm_get_insert stopped_entry_def)
  show "set (cancelled (stop_core final key w)) = set (cancelled w) \<union> set (entry_tokens r)"
    by (cases "re_started r"; cases "re_proxy_cancel r"; cases "re_sshd_cancel r")
      (simp_all add: stop_core_def stop_flag_def stop_take_def stop_cancel_def r entry_tokens_def
        insert_commute)
  show "hm_get (tasks (stop_core final key w)) h = Some t \<Longrightarrow> hm_get (tasks w) h = Some t"
    by (auto simp: stop_core_def stop_flag_def stop_take_def c r dest!: await_tasks)
  show "next_handle (stop_core final key w) = next_handle w"
    by (simp add: stop_core_def stop_flag_def stop_take_def c r stop_cancel_def)
  show "config_dir (stop_core final key w) = config_dir w"
    by (simp add: stop_core_def stop_flag_def stop_take_def c r stop_cancel_def)
qed

lemma app_ok_stop_core:
  assumes "app_ok w"
  shows "app_ok (stop_core final key w)"
proof (cases "hm_get (runners w) key")
  case None
  then show ?thesis using assms by (simp add: stop_core_none)
next
  case (Some r)
  note s = stop_core_some [OF Some]
  have own: "owns (stop_core final key w) t \<Longrightarrow> owns w t" for t
    by (auto simp: owns_def s(1) split: if_splits)
  have own_r: "t \<in> set (entry_tokens r) \<Longrightarrow> owns w t" for t
    using Some by (auto simp: owns_def)
  have lost: "owns w t \<Longrightarrow> owns (stop_core final key w) t \<or> t \<in> set (entry_tokens r)" for t
    using Some unfolding owns_def s(1) by (metis option.inject)
  have "handles_ok (stop_core final key w)"
    using assms own own_r s(3)
    unfolding app_ok_def handles_ok_def s(2,4) by blast
  moreover have "keys_ok (stop_core final key w)"
    using assms Some unfolding app_ok_def keys_ok_def s(1) by (auto split: if_splits)
  moreover have "\<not> orphan (stop_core final key w) h" for h
    using assms lost s(3) unfolding app_ok_def orphan_def s(2) by blast
  ultimately show ?thesis by (simp add: app_ok_def)
qed

lemma stop_session_core:
  "stop_session e name w = persist_then e () (stop_core (env_final e) (to_ascii_lowercase name) w)"
  by (simp add: stop_session_def stop_core_def Let_def)

lemma app_ok_stop: "app_ok w \<Longrightarrow> app_ok (snd (stop_session e name w))"
  by (simp add: stop_session_core app_ok_stop_core)

lemma free_after_stop:
  "free_key (snd (stop_session e name w)) (to_ascii_lowercase name)"
proof (cases "hm_get (runners w) (to_ascii_lowercase name)")
  case None
  then show ?thesis by (simp add: stop_session_core stop_core_none free_key_def persist_then_frame)
next
  case (Some r)
  then show ?thesis
    by (simp add: stop_session_core free_key_def persist_then_frame stop_core_some(1) [OF Some])
qed

lemma free_key_stop:
  "free_key w k \<Longrightarrow> free_key (snd (stop_session e name w)) k"
  by (cases "hm_get (runners w) (to_ascii_lowercase name)")
    (auto simp: stop_session_core stop_core_none free_key_def persist_then_frame
      stop_core_some(1) split: if_splits)

lemma app_ok_remove_free:
  assumes "app_ok w" and "free_key w k"
  shows "app_ok (w\<lparr>runners := hm_remove k (runners w)\<rparr>)"
proof -
  let ?w = "w\<lparr>runners := hm_remove k (runners w)\<rparr>"
  have own: "owns ?w = owns w"
  proof
    fix t
    have "k' \<noteq> k" if "hm_get (runners w) k' = Some r" "t \<in> set (entry_tokens r)" for k' r
      using assms(2) that by (auto simp: free_key_def)
    then show "owns ?w t = owns w t" unfolding owns_def by (auto simp: hm_get_remove)
  qed
  then have "orphan ?w = orphan w" by (simp add: orphan_def fun_eq_iff)
  with own assms(1) show ?thesis
    by (auto simp: app_ok_def handles_ok_def keys_ok_def hm_get_remove)
qed

lemma app_ok_delete:
  assumes "app_ok w"
  shows "app_ok (snd (delete_session e name w))"
proof -
  obtain r w1 where s: "stop_session e name w = (r, w1)" by force
  have ok: "app_ok w1" and free: "free_key w1 (to_ascii_lowercase name)"
    using app_ok_stop [OF assms, of e name] free_after_stop [of e name w] by (simp_all add: s)
  show ?thesis
    using ok app_ok_remove_free [OF ok free]
    by (cases r) (simp_all add: delete_session_def s)
qed

subsection \<open>Creating keeps every task owned, where it can\<close>

definition is_proxy :: "UpstreamSpec \<Rightarrow> bool" where
  "is_proxy u = (case u of HttpProxy _ _ _ \<Rightarrow> True | _ \<Rightarrow> False)"

abbreviation launched :: "SessionConfig \<Rightarrow> SessionConfig" where
  "launched cfg \<equiv> cfg\<lparr>sc_launch_on_startup := True\<rparr>"

lemma create_session_regular:
  "\<not> is_proxy (sc_upstream cfg) \<Longrightarrow>
   create_session e cfg w = (case create_regular (env_bind_err e) (launched cfg) w of
     (Inl m, w) \<Rightarrow> (Inl (Internal m), w)
   | (Inr status, w) \<Rightarrow> persist_then e (sc_name (launched cfg), status) w)"
  by (simp add: create_session_def is_proxy_def Let_def split: UpstreamSpec.splits)

lemma create_session_proxy:
  "sc_upstream cfg = HttpProxy l t p \<Longrightarrow>
   create_session e cfg w = persist_then e (sc_name cfg, next_handle w + 2)
     (snd (create_proxy (launched cfg) l t p w))"
  using create_proxy_ok [of "launched cfg" l t p w]
  by (cases "create_proxy (launched cfg) l t p w") (simp add: create_session_def)

lemma is_proxyE:
  assumes "is_proxy u"
  obtains l t p where "u = HttpProxy l t p"
  using assms by (cases u) (auto simp: is_proxy_def)

text \<open>The state a successful creation inserts its entry into, and what it inserts.\<close>

definition created_entry :: "'key app \<Rightarrow> SessionConfig \<Rightarrow> RunnerEntry" where
  "created_entry w cfg =
     (if is_proxy (sc_upstream cfg) then new_proxy w (launched cfg) else new_entry w (launched cfg))"

lemma created_entry_config [simp]: "re_config (created_entry w cfg) = launched cfg"
  by (simp add: created_entry_def new_proxy_def new_entry_def)

definition can_start :: "SessionConfig \<Rightarrow> bool" where
  "can_start cfg = (is_proxy (sc_upstream cfg) \<or> normalize_name (sc_ssh_user cfg) \<noteq> None)"

lemma create_session_started:
  assumes "can_start cfg" and "is_proxy (sc_upstream cfg) \<or> env_bind_err e = None"
  obtains w1 where
    "create_session e cfg w = persist_then e (sc_name cfg, next_handle w + 2) w1"
    "runners w1 = hm_insert (to_ascii_lowercase (sc_name cfg)) (created_entry w cfg) (runners w)"
    "cancelled w1 = cancelled w" "config_dir w1 = config_dir w"
    "next_handle w \<le> next_handle w1"
    "\<forall>t \<in> set (entry_tokens (created_entry w cfg)). t < next_handle w1"
    "\<And>h t. hm_get (tasks w1) h = Some t \<Longrightarrow> hm_get (tasks w) h = Some t \<or>
       (h < next_handle w1 \<and> task_token t \<in> set (entry_tokens (created_entry w cfg)))"
proof (cases "is_proxy (sc_upstream cfg)")
  case True
  then obtain l t p where u: "sc_upstream cfg = HttpProxy l t p" by (rule is_proxyE)
  note c = create_proxy_ok [of "launched cfg" l t p w, unfolded Let_def]
  show ?thesis
    by (rule that [OF create_session_proxy [OF u]])
      (use True c in \<open>auto simp: created_entry_def new_proxy_def entry_tokens_def hm_get_insert
        split: if_splits\<close>)
next
  case False
  then obtain k where k: "normalize_name (sc_ssh_user cfg) = Some k" and b: "env_bind_err e = None"
    using assms by (auto simp: can_start_def)
  have k': "normalize_name (sc_ssh_user (launched cfg)) = Some k" using k by simp
  note c = create_regular_ok [OF k', of w, unfolded Let_def]
  have e: "create_session e cfg w = persist_then e (sc_name cfg, next_handle w + 2)
      (snd (create_regular None (launched cfg) w))"
    using c False by (cases "create_regular None (launched cfg) w")
      (simp add: create_session_regular b)
  show ?thesis
    by (rule that [OF e])
      (use False c in \<open>auto simp: created_entry_def new_entry_def new_runner_def new_sshd_def entry_tokens_def
        hm_get_insert split: if_splits\<close>)
qed

lemma create_session_bad_user:
  assumes "\<not> can_start cfg"
  obtains w1 where "create_session e cfg w = (Inl (Internal ''invalid session name''), w1)"
    "same_core w w1" "config_dir w1 = config_dir w"
proof -
  have p: "\<not> is_proxy (sc_upstream cfg)" and k: "normalize_name (sc_ssh_user (launched cfg)) = None"
    using assms by (auto simp: can_start_def)
  note c = create_regular_bad_user [OF k, of "env_bind_err e" w, unfolded Let_def]
  obtain r w1 where cr: "create_regular (env_bind_err e) (launched cfg) w = (r, w1)" by force
  show ?thesis
    by (rule that [of w1])
      (use c cr in \<open>auto simp: create_session_regular [OF p] same_core_def\<close>)
qed

lemma app_ok_create_session:
  assumes ok: "app_ok w" and free: "free_key w (to_ascii_lowercase (sc_name cfg))"
    and bind: "is_proxy (sc_upstream cfg) \<or> env_bind_err e = None"
  shows "app_ok (snd (create_session e cfg w))"
proof (cases "can_start cfg")
  case True
  obtain w1 where c: "create_session e cfg w = persist_then e (sc_name cfg, next_handle w + 2) w1"
    and w1: "runners w1 = hm_insert (to_ascii_lowercase (sc_name cfg)) (created_entry w cfg) (runners w)"
      "cancelled w1 = cancelled w" "next_handle w \<le> next_handle w1"
    and tok: "\<forall>t \<in> set (entry_tokens (created_entry w cfg)). t < next_handle w1"
    and new: "\<And>h t. hm_get (tasks w1) h = Some t \<Longrightarrow> hm_get (tasks w) h = Some t \<or>
       (h < next_handle w1 \<and> task_token t \<in> set (entry_tokens (created_entry w cfg)))"
    using create_session_started [OF True bind, of w] by metis
  have "app_ok w1"
    by (rule app_ok_create [where cfg = "launched cfg" and r = "created_entry w cfg", OF ok])
      (use free w1 tok new in simp_all)
  then show ?thesis by (simp add: c)
next
  case False
  then obtain w1 where "create_session e cfg w = (Inl (Internal ''invalid session name''), w1)"
    "same_core w w1" using create_session_bad_user by metis
  then show ?thesis using same_core_app_ok ok by simp
qed

lemma app_ok_restart:
  assumes ok: "app_ok w" and bind: "env_bind_err e = None"
  shows "app_ok (snd (restart_session e name w))"
proof (cases "hm_get (runners w) (to_ascii_lowercase name)")
  case None
  then show ?thesis using ok by (simp add: restart_session_def)
next
  case (Some r)
  obtain x w1 where s: "stop_session e name w = (x, w1)" by force
  have ok1: "app_ok w1" using app_ok_stop [OF ok, of e name] by (simp add: s)
  have "to_ascii_lowercase (sc_name (re_config r)) = to_ascii_lowercase name"
    using ok Some by (auto simp: app_ok_def keys_ok_def)
  then have "free_key w1 (to_ascii_lowercase (sc_name (re_config r)))"
    using free_after_stop [of e name w] by (simp add: s)
  then have "app_ok (snd (create_session e (re_config r) w1))"
    using app_ok_create_session [OF ok1] bind by blast
  with ok1 show ?thesis
    by (cases x; cases "create_session e (re_config r) w1")
      (auto simp: restart_session_def Some s split: sum.splits)
qed

definition kept_password :: "string \<Rightarrow> SessionConfig \<Rightarrow> 'key app \<Rightarrow> SessionConfig" where
  "kept_password old_name cfg w =
     (case hm_get (runners w) (to_ascii_lowercase old_name) of
        Some r \<Rightarrow> if sc_password cfg = [] then cfg\<lparr>sc_password := sc_password (re_config r)\<rparr> else cfg
      | None \<Rightarrow> cfg)"

lemma update_session_core:
  "update_session e old_name cfg w =
     (case stop_session e old_name w of
        (Inl x, w') \<Rightarrow> (Inl x, w')
      | (Inr _, w') \<Rightarrow>
          (case create_session e (kept_password old_name cfg w) w' of
             (Inl x, w'') \<Rightarrow> (Inl x, w'')
           | (Inr (_, status), w'') \<Rightarrow> (Inr status, w'')))"
proof -
  have "(if sc_password cfg = [] then
           (case hm_get (runners w) (to_ascii_lowercase old_name) of
              Some r \<Rightarrow> cfg\<lparr>sc_password := sc_password (re_config r)\<rparr>
            | None \<Rightarrow> cfg)
         else cfg) = kept_password old_name cfg w"
    by (simp add: kept_password_def split: option.splits)
  then show ?thesis by (simp only: update_session_def Let_def)
qed

lemma kept_password_name [simp]: "sc_name (kept_password n cfg w) = sc_name cfg"
  by (simp add: kept_password_def split: option.splits)

lemma app_ok_update:
  assumes ok: "app_ok w" and bind: "env_bind_err e = None"
    and free: "to_ascii_lowercase (sc_name cfg) = to_ascii_lowercase old_name \<or>
      free_key w (to_ascii_lowercase (sc_name cfg))"
  shows "app_ok (snd (update_session e old_name cfg w))"
proof -
  obtain x w1 where s: "stop_session e old_name w = (x, w1)" by force
  have ok1: "app_ok w1" using app_ok_stop [OF ok, of e old_name] by (simp add: s)
  have "free_key w1 (to_ascii_lowercase (sc_name cfg))"
    using free free_after_stop [of e old_name w]
      free_key_stop [of w "to_ascii_lowercase (sc_name cfg)" e old_name] by (auto simp: s)
  then have "app_ok (snd (create_session e (kept_password old_name cfg w) w1))"
    using app_ok_create_session [OF ok1, of "kept_password old_name cfg w" e] bind by simp
  with ok1 show ?thesis
    by (cases x; cases "create_session e (kept_password old_name cfg w) w1")
      (auto simp: update_session_core s split: sum.splits)
qed

text \<open>
  C3. No task gets lost. In a well-formed state every running task (a runner, an SSH server, a
  forwarder) can be stopped through an entry of the session table or has been told to stop, and
  this is kept by stopping and deleting any name, known or not, whatever saving does; by creating
  a session, when its address can be bound, under a name that is new or whose session is stopped;
  by restarting; and by updating a session, unless it takes the name of another running one.
\<close>
theorem tasks_stay_owned:
  assumes "app_ok w"
  shows "app_ok (snd (stop_session e name w)) \<and> app_ok (snd (delete_session e name w)) \<and>
    (env_bind_err e = None \<longrightarrow>
       app_ok (snd (restart_session e name w)) \<and>
       (free_key w (to_ascii_lowercase (sc_name cfg)) \<longrightarrow> app_ok (snd (create_session e cfg w))) \<and>
       (to_ascii_lowercase (sc_name cfg) = to_ascii_lowercase name \<or>
          free_key w (to_ascii_lowercase (sc_name cfg)) \<longrightarrow>
        app_ok (snd (update_session e name cfg w))))"
  using app_ok_stop [OF assms, of e name] app_ok_delete [OF assms, of e name]
    app_ok_restart [OF assms, of e name] app_ok_create_session [OF assms, of cfg e]
    app_ok_update [OF assms, of e cfg name] by simp

text \<open>The empty state, and one session created in it.\<close>

definition demo_env :: env where
  "demo_env = \<lparr>env_bind_err = None, env_save = (\<lambda>c d. (Inr (), d)), env_final = Stopped\<rparr>"

definition demo_session :: SessionConfig where
  "demo_session = \<lparr>sc_name = ''Echo'', sc_password = ''pw'', sc_ssh_user = ''admin'',
     sc_listen = ''127.0.0.1:2222'', sc_auto_reconnect = True, sc_launch_on_startup = False,
     sc_pty_override = None, sc_upstream = Loopback\<rparr>"

definition empty_app :: "string app" where
  "empty_app = app_new [''ed25519'', ''rsa''] ''SHA256:x'' [] 16 ''127.0.0.1:2223''"

theorem tasks_stay_owned_witness:
  "app_ok (snd (create_session demo_env demo_session empty_app)) \<and>
   app_ok (snd (restart_session demo_env ''echo''
      (snd (create_session demo_env demo_session empty_app))))"
proof -
  have b: "env_bind_err demo_env = None" by (simp add: demo_env_def)
  have "app_ok empty_app" by (simp add: empty_app_def app_ok_new)
  moreover have "free_key empty_app k" for k
    by (simp add: free_key_def empty_app_def app_new_def)
  ultimately have 1: "app_ok (snd (create_session demo_env demo_session empty_app))"
    using tasks_stay_owned b by blast
  then have "app_ok (snd (restart_session demo_env ''echo''
      (snd (create_session demo_env demo_session empty_app))))"
    using tasks_stay_owned b by blast
  with 1 show ?thesis ..
qed

text \<open>
  C38. A session whose SSH address cannot be bound leaves its runner behind: creation reports the
  error and adds no entry, but the runner it has already spawned keeps running, connected to the
  upstream, and no entry of the table, so no operation, can stop it.
\<close>
theorem create_bind_failure_leaks:
  assumes "app_ok w" and "\<not> is_proxy (sc_upstream cfg)" and "normalize_name (sc_ssh_user cfg) \<noteq> None"
    and "env_bind_err e = Some m"
  shows "fst (create_session e cfg w) = Inl (Internal m) \<and>
    runners (snd (create_session e cfg w)) = runners w \<and>
    (\<exists>h tok rc. hm_get (tasks (snd (create_session e cfg w))) h =
        Some (RunnerTask tok (sc_upstream cfg) rc) \<and>
      orphan (snd (create_session e cfg w)) h)"
proof -
  obtain k where "normalize_name (sc_ssh_user (launched cfg)) = Some k" using assms(3) by auto
  note c = create_regular_no_bind [OF this, of m w, unfolded Let_def]
  obtain w1 where w1: "create_regular (Some m) (launched cfg) w = (Inl m, w1)"
    using c by (cases "create_regular (Some m) (launched cfg) w") auto
  have t: "hm_get (tasks w1) (next_handle w + 5) = Some (new_runner w (launched cfg))"
    "runners w1 = runners w" "cancelled w1 = cancelled w"
    using c by (simp_all add: w1 hm_get_insert)
  have "\<not> owns w (next_handle w + 3)" "next_handle w + 3 \<notin> set (cancelled w)"
    using assms(1) unfolding app_ok_def handles_ok_def by (metis not_add_less1)+
  then have "orphan w1 (next_handle w + 5)"
    using t unfolding orphan_def owns_def by (auto simp: new_runner_def)
  moreover have "create_session e cfg w = (Inl (Internal m), w1)"
    by (simp add: create_session_regular [OF assms(2)] assms(4) w1)
  ultimately show ?thesis using t by (auto simp: new_runner_def)
qed

theorem create_bind_failure_leaks_witness:
  "\<exists>h tok rc. hm_get (tasks (snd (create_session (demo_env\<lparr>env_bind_err := Some ''in use''\<rparr>)
       demo_session empty_app))) h = Some (RunnerTask tok Loopback rc)"
proof -
  have "sc_upstream demo_session = Loopback" by (simp add: demo_session_def)
  moreover have "normalize_name (sc_ssh_user demo_session) \<noteq> None" by code_simp
  moreover have "app_ok empty_app" by (simp add: empty_app_def app_ok_new)
  ultimately show ?thesis
    using create_bind_failure_leaks [of empty_app demo_session "demo_env\<lparr>env_bind_err := Some ''in use''\<rparr>" "''in use''"]
    by (auto simp: is_proxy_def demo_env_def)
qed

end
