(* ===== verification/App_Operations.thy ===== *)
theory App_Operations
  imports App_Logic
begin

text \<open>
  The operations of \<open>app_logic.rs\<close> as a refinement of a specification on the configured sessions,
  and what survives the end of the program.
\<close>

subsection \<open>What the operations do to the session table\<close>

lemma persist_then_Inr:
  assumes "persist_then e x w = (Inr y, w')"
  shows "y = x" "runners w' = runners w"
    "env_save e (persisted w') (config_dir w) = (Inr (), config_dir w')"
  using assms
  by (auto simp: persist_then_def persist_now_def persisted_def split: prod.splits sum.splits)

lemma persist_then_error: "fst (persist_then e x w) \<in> {Inr x} \<union> range (Inl \<circ> Internal)"
  by (auto simp: persist_then_def split: prod.splits sum.splits)

lemma create_session_Inr:
  assumes "create_session e cfg w = (Inr (n, s), w')"
  shows "n = sc_name cfg"
    "hm_get (runners w') = (hm_get (runners w))(to_ascii_lowercase (sc_name cfg) \<mapsto> created_entry w cfg)"
    "\<exists>d. env_save e (persisted w') d = (Inr (), config_dir w')"
proof -
  have start: "can_start cfg"
  proof (rule ccontr)
    assume "\<not> can_start cfg"
    then obtain w1 where "create_session e cfg w = (Inl (Internal ''invalid session name''), w1)"
      using create_session_bad_user by metis
    with assms show False by simp
  qed
  have bind: "is_proxy (sc_upstream cfg) \<or> env_bind_err e = None"
  proof (rule ccontr)
    assume "\<not> ?thesis"
    then obtain m where p: "\<not> is_proxy (sc_upstream cfg)" and m: "env_bind_err e = Some m" by auto
    obtain k where k: "normalize_name (sc_ssh_user (launched cfg)) = Some k"
      using start p by (auto simp: can_start_def)
    obtain w1 where "create_regular (Some m) (launched cfg) w = (Inl m, w1)"
      using create_regular_no_bind [OF k, of m w] by (metis prod.collapse)
    then show False using assms by (simp add: create_session_regular [OF p] m)
  qed
  obtain w1 where c: "create_session e cfg w = persist_then e (sc_name cfg, next_handle w + 2) w1"
    and r: "runners w1 = hm_insert (to_ascii_lowercase (sc_name cfg)) (created_entry w cfg) (runners w)"
    using create_session_started [OF start bind, of w] by metis
  note p = persist_then_Inr [OF assms [unfolded c]]
  show "n = sc_name cfg" using p(1) by simp
  show "hm_get (runners w') = (hm_get (runners w))(to_ascii_lowercase (sc_name cfg) \<mapsto> created_entry w cfg)"
    by (simp add: p(2) r fun_eq_iff hm_get_insert)
  show "\<exists>d. env_save e (persisted w') d = (Inr (), config_dir w')" using p(3) by blast
qed

lemma stop_session_runners:
  "hm_get (runners (snd (stop_session e name w))) =
     (hm_get (runners w))(to_ascii_lowercase name :=
        map_option stopped_entry (hm_get (runners w) (to_ascii_lowercase name)))"
  by (cases "hm_get (runners w) (to_ascii_lowercase name)")
    (auto simp: stop_session_core persist_then_frame stop_core_none stop_core_some(1) fun_eq_iff)

text \<open>An operation as the user interface and the API call it; whether it succeeded.\<close>

datatype app_op =
    CreateOp SessionConfig
  | StopOp string
  | DeleteOp string
  | RestartOp string
  | UpdateOp string SessionConfig

fun run_op :: "env \<Rightarrow> app_op \<Rightarrow> 'key app \<Rightarrow> bool \<times> 'key app" where
  "run_op e (CreateOp cfg) w = (let (r, w) = create_session e cfg w in (is_ok r, w))"
| "run_op e (StopOp name) w = (let (r, w) = stop_session e name w in (is_ok r, w))"
| "run_op e (DeleteOp name) w = (let (r, w) = delete_session e name w in (is_ok r, w))"
| "run_op e (RestartOp name) w = (let (r, w) = restart_session e name w in (is_ok r, w))"
| "run_op e (UpdateOp name cfg) w = (let (r, w) = update_session e name cfg w in (is_ok r, w))"

text \<open>The table that a successful operation leaves, seen through the configurations.\<close>

definition configs :: "'key app \<Rightarrow> string \<Rightarrow> SessionConfig option" where
  "configs w k = map_option re_config (hm_get (runners w) k)"

definition stopped_config :: "SessionConfig \<Rightarrow> SessionConfig" where
  "stopped_config c = c\<lparr>sc_launch_on_startup := False\<rparr>"

fun spec_op :: "app_op \<Rightarrow> (string \<Rightarrow> SessionConfig option) \<Rightarrow> string \<Rightarrow> SessionConfig option" where
  "spec_op (CreateOp cfg) m = m(to_ascii_lowercase (sc_name cfg) \<mapsto> launched cfg)"
| "spec_op (StopOp name) m =
     m(to_ascii_lowercase name := map_option stopped_config (m (to_ascii_lowercase name)))"
| "spec_op (DeleteOp name) m = m(to_ascii_lowercase name := None)"
| "spec_op (RestartOp name) m =
     m(to_ascii_lowercase name := map_option launched (m (to_ascii_lowercase name)))"
| "spec_op (UpdateOp name cfg) m =
     (let old = to_ascii_lowercase name;
          pw = (case m old of
                  Some c \<Rightarrow> if sc_password cfg = [] then sc_password c else sc_password cfg
                | None \<Rightarrow> sc_password cfg) in
      m(old := map_option stopped_config (m old),
        to_ascii_lowercase (sc_name cfg) \<mapsto> launched (cfg\<lparr>sc_password := pw\<rparr>)))"

lemma configs_stop:
  "configs (snd (stop_session e name w)) =
     (configs w)(to_ascii_lowercase name := map_option stopped_config (configs w (to_ascii_lowercase name)))"
  by (auto simp: configs_def stop_session_runners fun_eq_iff option.map_comp o_def stopped_config_def
      intro: option.map_cong)

lemma configs_create:
  "create_session e cfg w = (Inr x, w') \<Longrightarrow>
   configs w' = (configs w)(to_ascii_lowercase (sc_name cfg) \<mapsto> launched cfg)"
  by (cases x) (auto simp: configs_def fun_eq_iff dest: create_session_Inr(2))

lemma kept_password_spec:
  "kept_password name cfg w = cfg\<lparr>sc_password :=
     (case configs w (to_ascii_lowercase name) of
        Some c \<Rightarrow> if sc_password cfg = [] then sc_password c else sc_password cfg
      | None \<Rightarrow> sc_password cfg)\<rparr>"
  by (auto simp: kept_password_def configs_def split: option.splits)

lemma restart_Inr:
  assumes "restart_session e name w = (Inr s, w')"
  obtains r w1 n where "hm_get (runners w) (to_ascii_lowercase name) = Some r"
    "stop_session e name w = (Inr (), w1)" "create_session e (re_config r) w1 = (Inr (n, s), w')"
  using assms that
  by (auto simp: restart_session_def split: option.splits sum.splits prod.splits)

lemma update_Inr:
  assumes "update_session e name cfg w = (Inr s, w')"
  obtains w1 n where "stop_session e name w = (Inr (), w1)"
    "create_session e (kept_password name cfg w) w1 = (Inr (n, s), w')"
  using assms that
  by (auto simp: update_session_core split: sum.splits prod.splits)

lemma delete_Inr:
  assumes "delete_session e name w = (Inr (), w')"
  obtains w1 where "stop_session e name w = (Inr (), w1)"
    "persist_then e () (w1\<lparr>runners := hm_remove (to_ascii_lowercase name) (runners w1)\<rparr>) = (Inr (), w')"
  using assms that
  by (auto simp: delete_session_def split: sum.splits prod.splits)

lemma keys_ok_configs: "keys_ok w \<longleftrightarrow> (\<forall>k c. configs w k = Some c \<longrightarrow> k = to_ascii_lowercase (sc_name c))"
  by (auto simp: keys_ok_def configs_def)

lemma operations_refine:
  assumes "keys_ok w" and "run_op e op w = (True, w')"
  shows "configs w' = spec_op op (configs w) \<and> keys_ok w'"
proof -
  have "configs w' = spec_op op (configs w)"
  proof (cases op)
    case (CreateOp cfg)
    then obtain x where "create_session e cfg w = (Inr x, w')"
      using assms(2) by (auto simp: result_simps split: prod.splits)
    then show ?thesis using CreateOp by (simp add: configs_create)
  next
    case (StopOp name)
    then have "w' = snd (stop_session e name w)" using assms(2) by (auto split: prod.splits)
    then show ?thesis using StopOp by (simp add: configs_stop)
  next
    case (DeleteOp name)
    then have "delete_session e name w = (Inr (), w')"
      using assms(2) by (auto simp: result_simps split: prod.splits)
    then obtain w1 where s: "stop_session e name w = (Inr (), w1)"
      and p: "persist_then e () (w1\<lparr>runners := hm_remove (to_ascii_lowercase name) (runners w1)\<rparr>) = (Inr (), w')"
      by (rule delete_Inr)
    have "configs w1 = configs (snd (stop_session e name w))" by (simp add: s)
    then show ?thesis using DeleteOp persist_then_Inr(2) [OF p]
      by (auto simp: configs_stop fun_eq_iff) (simp_all add: configs_def hm_get_remove)
  next
    case (RestartOp name)
    then obtain x where "restart_session e name w = (Inr x, w')"
      using assms(2) by (auto simp: result_simps split: prod.splits)
    then obtain r w1 n where r: "hm_get (runners w) (to_ascii_lowercase name) = Some r"
      and s: "stop_session e name w = (Inr (), w1)"
      and c: "create_session e (re_config r) w1 = (Inr (n, x), w')" by (rule restart_Inr)
    have k: "to_ascii_lowercase (sc_name (re_config r)) = to_ascii_lowercase name"
      using assms(1) r by (auto simp: keys_ok_def)
    have "configs w1 = configs (snd (stop_session e name w))" by (simp add: s)
    then show ?thesis using RestartOp configs_create [OF c] r
      by (simp add: configs_stop k) (simp add: configs_def)
  next
    case (UpdateOp name cfg)
    then obtain x where "update_session e name cfg w = (Inr x, w')"
      using assms(2) by (auto simp: result_simps split: prod.splits)
    then obtain w1 n where s: "stop_session e name w = (Inr (), w1)"
      and c: "create_session e (kept_password name cfg w) w1 = (Inr (n, x), w')" by (rule update_Inr)
    have "configs w1 = configs (snd (stop_session e name w))" by (simp add: s)
    then show ?thesis using UpdateOp configs_create [OF c]
      by (simp add: configs_stop kept_password_spec Let_def)
  qed
  moreover have "keys_ok w'"
    using assms(1) unfolding keys_ok_configs calculation
    by (cases op) (auto simp: Let_def stopped_config_def split: if_splits option.splits)
  ultimately show ?thesis ..
qed

text \<open>
  C1. A successful operation does to the table exactly what its specification says: creating sets
  the entry of the lower-cased name to the configuration, marked to be launched, whatever was
  there before; stopping only marks the entry not to be launched; deleting removes the entry;
  restarting, of a known name, marks it launched again; updating marks the old entry stopped, and
  sets the entry of the new name to the new configuration, with the old password where the new one
  is empty. All other entries stay, and the keys stay the lower-cased names.
\<close>
theorem operations_refine_spec:
  assumes "keys_ok w" and "run_op e op w = (True, w')"
  shows "configs w' = spec_op op (configs w) \<and> keys_ok w'"
  using assms by (rule operations_refine)

lemma demo_persist: "persist_then demo_env x w = (Inr x, w)"
  by (simp add: persist_then_def persist_now_def demo_env_def)

lemma demo_create: "can_start cfg \<Longrightarrow> fst (run_op demo_env (CreateOp cfg) w)"
  by (rule create_session_started [of cfg demo_env w])
    (auto simp: demo_persist demo_env_def [THEN arg_cong [of _ _ env_bind_err]])

lemma demo_stop: "stop_session demo_env name w = (Inr (), stop_core Stopped (to_ascii_lowercase name) w)"
  by (simp add: stop_session_core demo_persist) (simp add: demo_env_def)

lemma demo_update:
  assumes "can_start (kept_password name cfg w)"
  shows "fst (run_op demo_env (UpdateOp name cfg) w)"
proof -
  let ?w = "stop_core Stopped (to_ascii_lowercase name) w"
  obtain x w' where c: "create_session demo_env (kept_password name cfg w) ?w = (x, w')" by force
  have "is_ok x" using demo_create [OF assms, of ?w] c by simp
  then show ?thesis using c
    by (auto simp: update_session_core demo_stop result_simps)
qed

lemma demo_lower: "to_ascii_lowercase ''Echo'' = ''echo''" "to_ascii_lowercase ''ECHO'' = ''echo''"
  "to_ascii_lowercase ''echo'' = ''echo''" "to_ascii_lowercase ''new'' = ''new''"
  by code_simp+

lemma demo_user: "can_start (demo_session\<lparr>sc_name := n, sc_password := p\<rparr>)"
proof -
  have "normalize_name ''admin'' = Some ''admin''" by code_simp
  then show ?thesis by (simp add: can_start_def demo_session_def)
qed

text \<open>A session created, stopped by another spelling of its name, and renamed.\<close>
theorem operations_refine_spec_witness:
  "\<exists>w1 w2 w3. run_op demo_env (CreateOp demo_session) empty_app = (True, w1) \<and>
     run_op demo_env (StopOp ''ECHO'') w1 = (True, w2) \<and>
     run_op demo_env (UpdateOp ''echo'' (demo_session\<lparr>sc_name := ''new'', sc_password := []\<rparr>)) w2 = (True, w3) \<and>
     configs w2 ''echo'' = Some demo_session \<and>
     configs w3 ''echo'' = Some demo_session \<and>
     configs w3 ''new'' = Some (demo_session\<lparr>sc_name := ''new'', sc_launch_on_startup := True\<rparr>)"
proof -
  let ?new = "demo_session\<lparr>sc_name := ''new'', sc_password := []\<rparr>"
  have d: "can_start demo_session" using demo_user [of "''pw''" "''Echo''"] by (simp add: demo_session_def)
  obtain w1 where 1: "run_op demo_env (CreateOp demo_session) empty_app = (True, w1)"
    using demo_create [OF d, of empty_app] by (metis prod.collapse)
  obtain w2 where 2: "run_op demo_env (StopOp ''ECHO'') w1 = (True, w2)" by (simp add: demo_stop)
  have "can_start (kept_password ''echo'' ?new w2)"
    unfolding kept_password_spec using demo_user by simp
  then obtain w3 where 3: "run_op demo_env (UpdateOp ''echo'' ?new) w2 = (True, w3)"
    using demo_update by (metis prod.collapse)
  have k0: "keys_ok empty_app" by (simp add: keys_ok_def empty_app_def app_new_def)
  have c0: "configs empty_app k = None" for k by (simp add: configs_def empty_app_def app_new_def)
  have c1: "configs w1 = spec_op (CreateOp demo_session) (configs empty_app)" and k1: "keys_ok w1"
    using operations_refine_spec [OF k0 1] by auto
  have c2: "configs w2 = spec_op (StopOp ''ECHO'') (configs w1)" and k2: "keys_ok w2"
    using operations_refine_spec [OF k1 2] by auto
  have c3: "configs w3 = spec_op (UpdateOp ''echo'' ?new) (configs w2)"
    using operations_refine_spec [OF k2 3] by auto
  have n: "sc_name demo_session = ''Echo''" by (simp add: demo_session_def)
  have e2: "configs w2 ''echo'' = Some demo_session"
    by (simp add: c2 c1 n demo_lower stopped_config_def) (simp add: demo_session_def)
  have "configs w3 ''echo'' = Some demo_session"
    "configs w3 ''new'' = Some (demo_session\<lparr>sc_name := ''new'', sc_launch_on_startup := True\<rparr>)"
    by (simp_all add: c3 Let_def demo_lower e2 stopped_config_def) (simp_all add: demo_session_def)
  with 1 2 3 e2 show ?thesis by blast
qed

subsection \<open>What survives the end of the program\<close>

text \<open>Every successful operation ends with saving the table it leaves.\<close>

definition saved :: "env \<Rightarrow> 'key app \<Rightarrow> bool" where
  "saved e w = (\<exists>d. env_save e (persisted w) d = (Inr (), config_dir w))"

lemma persist_saved: "persist_then e x w = (Inr y, w') \<Longrightarrow> saved e w'"
  unfolding saved_def by (rule exI, erule persist_then_Inr(3))

lemma run_op_saved: "run_op e op w = (True, w') \<Longrightarrow> saved e w'"
proof (cases op)
  case (CreateOp cfg)
  assume "run_op e op w = (True, w')"
  with CreateOp obtain x where "create_session e cfg w = (Inr x, w')"
    by (auto simp: result_simps split: prod.splits)
  then show ?thesis using create_session_Inr(3) by (cases x) (auto simp: saved_def)
next
  case (StopOp name)
  assume "run_op e op w = (True, w')"
  with StopOp have "stop_session e name w = (Inr (), w')"
    by (auto simp: result_simps split: prod.splits)
  then show ?thesis by (auto simp: stop_session_core dest: persist_saved)
next
  case (DeleteOp name)
  assume "run_op e op w = (True, w')"
  with DeleteOp have "delete_session e name w = (Inr (), w')"
    by (auto simp: result_simps split: prod.splits)
  then show ?thesis by (rule delete_Inr) (rule persist_saved)
next
  case (RestartOp name)
  assume "run_op e op w = (True, w')"
  with RestartOp obtain x where "restart_session e name w = (Inr x, w')"
    by (auto simp: result_simps split: prod.splits)
  then show ?thesis
    by (rule restart_Inr) (auto simp: saved_def dest: create_session_Inr(3))
next
  case (UpdateOp name cfg)
  assume "run_op e op w = (True, w')"
  with UpdateOp obtain x where "update_session e name cfg w = (Inr x, w')"
    by (auto simp: result_simps split: prod.splits)
  then show ?thesis
    by (rule update_Inr) (auto simp: saved_def dest: create_session_Inr(3))
qed

subsection \<open>The table stays a map\<close>

lemma hm_ok_stop_core: "hm_ok (runners w) \<Longrightarrow> hm_ok (runners (stop_core f key w))"
  by (cases "hm_get (runners w) key")
    (simp_all add: stop_core_none stop_core_def stop_flag_def stop_take_def stop_cancel_def)

lemma hm_ok_create: "hm_ok (runners w) \<Longrightarrow> hm_ok (runners (snd (create_session e cfg w)))"
proof (cases "can_start cfg")
  case False
  assume ok: "hm_ok (runners w)"
  obtain w1 where "create_session e cfg w = (Inl (Internal ''invalid session name''), w1)"
    "same_core w w1" using create_session_bad_user [OF False] by metis
  then show ?thesis using ok by (simp add: same_core_def)
next
  case True
  assume ok: "hm_ok (runners w)"
  show ?thesis
  proof (cases "is_proxy (sc_upstream cfg) \<or> env_bind_err e = None")
    case start: True
    obtain w1 where "create_session e cfg w = persist_then e (sc_name cfg, next_handle w + 2) w1"
      "runners w1 = hm_insert (to_ascii_lowercase (sc_name cfg)) (created_entry w cfg) (runners w)"
      using create_session_started [OF True start, of w] by metis
    then show ?thesis using ok by (simp add: persist_then_frame)
  next
    case False
    then obtain m where p: "\<not> is_proxy (sc_upstream cfg)" and m: "env_bind_err e = Some m" by auto
    obtain k where k: "normalize_name (sc_ssh_user (launched cfg)) = Some k"
      using True p by (auto simp: can_start_def)
    obtain w1 where "create_regular (Some m) (launched cfg) w = (Inl m, w1)" "runners w1 = runners w"
      using create_regular_no_bind [OF k, of m w] by (metis prod.collapse)
    then show ?thesis using ok by (simp add: create_session_regular [OF p] m)
  qed
qed

lemma hm_ok_stop: "hm_ok (runners w) \<Longrightarrow> hm_ok (runners (snd (stop_session e name w)))"
  by (simp add: stop_session_core persist_then_frame hm_ok_stop_core)

lemma hm_ok_run_op:
  fixes w :: "'key app"
  assumes "hm_ok (runners w)"
  shows "hm_ok (runners (snd (run_op e op w)))"
proof -
  have stop: "stop_session e n w = (x, w1) \<Longrightarrow> hm_ok (runners w1)" for n x w1
    using hm_ok_stop [OF assms, of e n] by simp
  have create: "create_session e c w1 = (x, w2) \<Longrightarrow> hm_ok (runners w1) \<Longrightarrow> hm_ok (runners w2)"
    for c x and w1 w2 :: "'key app" using hm_ok_create [of w1 e c] by simp
  show ?thesis
  proof (cases op)
    case (DeleteOp n)
    have p: "persist_then e () w1 = (y, w2) \<Longrightarrow> runners w2 = runners w1" for w1 y w2
      using persist_then_frame(1) [of e "()" w1] by simp
    obtain x w1 where s: "stop_session e n w = (x, w1)" by force
    from stop [OF this] show ?thesis using DeleteOp
      by (cases x) (auto simp: delete_session_def s dest!: p split: prod.splits)
  next
    case (RestartOp n)
    then show ?thesis using stop create assms
      by (auto simp: restart_session_def split: option.splits prod.splits sum.splits)
  next
    case (UpdateOp n c)
    then show ?thesis using stop create assms
      by (auto simp: update_session_core split: prod.splits sum.splits)
  qed (use stop create assms in \<open>auto split: prod.splits\<close>)
qed

end
