(* ===== verification/App_Main.thy ===== *)
theory App_Main
  imports App_Operations
begin

text \<open>
  The start of the program, \<open>crates/termhub-app/src/main.rs\<close>: the sessions of the stored
  configuration are put into the table, and those marked to be launched are started; the first
  that cannot be started ends the program.
\<close>

definition idle_entry :: "SessionConfig \<Rightarrow> RunnerEntry" where
  "idle_entry s = \<lparr>re_started = None, re_config = s, re_proxy_cancel = None, re_sshd_cancel = None,
     re_sshd_handle = None, re_session_mgr = None\<rparr>"

definition start_proxy :: "SessionConfig \<Rightarrow> string \<Rightarrow> string \<Rightarrow> string \<Rightarrow> 'key app \<Rightarrow> 'key app" where
  "start_proxy s listen target protocol w =
     (let (cancel, w) = fresh w;
          (_, w) = spawn (ForwardTask cancel listen target (protocol = ''udp'')) w in
      w\<lparr>runners := hm_insert (to_ascii_lowercase (sc_name s))
          ((idle_entry s)\<lparr>re_proxy_cancel := Some cancel\<rparr>) (runners w)\<rparr>)"

text \<open>
  One turn of the loop; \<open>bind\<close> tells which addresses cannot be bound. The statements of the last
  branch are those of \<open>create_session\<close> (\<^const>\<open>create_regular\<close>).
\<close>

definition start_one :: "(string \<Rightarrow> string option) \<Rightarrow> SessionConfig \<Rightarrow> 'key app \<Rightarrow> (string + unit) \<times> 'key app" where
  "start_one bind s w =
     (if \<not> sc_launch_on_startup s then
        (Inr (), w\<lparr>runners := hm_insert (to_ascii_lowercase (sc_name s)) (idle_entry s) (runners w)\<rparr>)
      else
        (case sc_upstream s of
           HttpProxy listen target protocol \<Rightarrow> (Inr (), start_proxy s listen target protocol w)
         | _ \<Rightarrow>
             (case create_regular (bind (sc_listen s)) s w of
                (Inl e, w) \<Rightarrow> (Inl e, w)
              | (Inr _, w) \<Rightarrow> (Inr (), w))))"

fun start_all :: "(string \<Rightarrow> string option) \<Rightarrow> SessionConfig list \<Rightarrow> 'key app \<Rightarrow> (string + unit) \<times> 'key app" where
  "start_all bind [] w = (Inr (), w)"
| "start_all bind (s # ss) w =
     (case start_one bind s w of
        (Inl e, w) \<Rightarrow> (Inl e, w)
      | (Inr _, w) \<Rightarrow> start_all bind ss w)"

text \<open>
  The session for a serial line named by the environment: \<open>TERMHUB_DEV_SERIAL\<close>, and
  \<open>TERMHUB_DEV_BAUD\<close> where it is set and a number.
\<close>

definition dev_config :: "string \<Rightarrow> u32 option \<Rightarrow> SessionConfig" where
  "dev_config port baud =
     \<lparr>sc_name = ''com'', sc_password = ''pass'', sc_ssh_user = ''admin'',
      sc_listen = ''0.0.0.0:2223'', sc_auto_reconnect = True, sc_launch_on_startup = True,
      sc_pty_override = None,
      sc_upstream = Serial port (case baud of Some b \<Rightarrow> b | None \<Rightarrow> 115200) 8 ''none'' 1 ''none''
        ''as_is'' ''as_is''\<rparr>"

text \<open>
  \<open>AppState\<close> is made after the loop in the code; it is made first here, since the loop uses the same
  host keys and limit and nothing else of it.
\<close>

definition startup :: "(string \<Rightarrow> string option) \<Rightarrow> 'key list \<Rightarrow> string \<Rightarrow> (string \<times> u32 option) option
    \<Rightarrow> directory \<Rightarrow> Config \<Rightarrow> (string + unit) \<times> 'key app" where
  "startup bind keys fpr dev dir stored =
     (let w = app_new keys fpr dir (sv_max_clients_per_session (cf_server stored))
                (sv_api_listen (cf_server stored)) in
      case start_all bind (cf_sessions stored) w of
        (Inl e, w) \<Rightarrow> (Inl e, w)
      | (Inr _, w) \<Rightarrow>
          (case dev of
             None \<Rightarrow> (Inr (), w)
           | Some (port, baud) \<Rightarrow> start_one bind (dev_config port baud) w))"

subsection \<open>What the start does\<close>

lemma start_one_regular:
  "sc_launch_on_startup s \<Longrightarrow> \<not> is_proxy (sc_upstream s) \<Longrightarrow>
   start_one bind s w = (case create_regular (bind (sc_listen s)) s w of
     (Inl e, w) \<Rightarrow> (Inl e, w) | (Inr _, w) \<Rightarrow> (Inr (), w))"
  by (simp add: start_one_def is_proxy_def split: UpstreamSpec.splits)

text \<open>
  A session runs: its runner task has been spawned with the session's upstream and reconnect
  setting, its SSH server with the session's address and the program's host keys and limit, both
  on the entry's own tokens, which are not cancelled, and the server's session table knows the
  SSH user with the session's password and the runner's token and status channel. A port forward
  runs: its task has been spawned with its addresses and protocol, on the entry's token.
\<close>

definition live_task :: "'key app \<Rightarrow> handle \<Rightarrow> 'key task \<Rightarrow> bool" where
  "live_task w h t \<longleftrightarrow> hm_get (tasks w) h = Some t \<and> task_token t \<notin> set (cancelled w)"

definition runner_runs :: "'key app \<Rightarrow> RunnerEntry \<Rightarrow> bool" where
  "runner_runs w r \<longleftrightarrow> (\<exists>st m e. re_started r = Some st \<and> re_session_mgr r = Some m \<and>
     live_task w (ss_handle st) (RunnerTask (ss_cancel st) (sc_upstream (re_config r))
       \<lparr>rc_auto_reconnect = sc_auto_reconnect (re_config r), rc_max_attempts = None\<rparr>) \<and>
     mgr_get (the_mgr w m) (sc_ssh_user (re_config r)) = Some e \<and>
     se_password e = sc_password (re_config r) \<and> se_cancel e = ss_cancel st \<and>
     se_status e = ss_status_rx st)"

definition sshd_runs :: "'key app \<Rightarrow> RunnerEntry \<Rightarrow> bool" where
  "sshd_runs w r \<longleftrightarrow> (\<exists>t h m. re_sshd_cancel r = Some t \<and> re_sshd_handle r = Some h \<and>
     re_session_mgr r = Some m \<and>
     live_task w h (SshdTask t (sc_listen (re_config r)) (host_keys w) (max_clients_per_session w) m))"

definition forward_runs :: "'key app \<Rightarrow> RunnerEntry \<Rightarrow> string \<Rightarrow> string \<Rightarrow> bool \<Rightarrow> bool" where
  "forward_runs w r listen target udp \<longleftrightarrow> (\<exists>t h. re_proxy_cancel r = Some t \<and>
     live_task w h (ForwardTask t listen target udp))"

definition session_runs :: "'key app \<Rightarrow> RunnerEntry \<Rightarrow> bool" where
  "session_runs w r =
     (case sc_upstream (re_config r) of
        HttpProxy listen target protocol \<Rightarrow> forward_runs w r listen target (protocol = ''udp'')
      | _ \<Rightarrow> runner_runs w r \<and> sshd_runs w r)"

text \<open>The sessions marked to be launched run; the others have nothing that could be stopped.\<close>

definition launched_exactly :: "'key app \<Rightarrow> bool" where
  "launched_exactly w \<longleftrightarrow> (\<forall>k r. hm_get (runners w) k = Some r \<longrightarrow>
     (if sc_launch_on_startup (re_config r) then session_runs w r else entry_tokens r = []))"

text \<open>Starting a session leaves what already runs alone.\<close>

definition extends :: "'key app \<Rightarrow> 'key app \<Rightarrow> bool" where
  "extends w w' \<longleftrightarrow> cancelled w' = cancelled w \<and> host_keys w' = host_keys w \<and>
     max_clients_per_session w' = max_clients_per_session w \<and>
     (\<forall>h t. hm_get (tasks w) h = Some t \<longrightarrow> hm_get (tasks w') h = Some t) \<and>
     (\<forall>m g. hm_get (mgrs w) m = Some g \<longrightarrow> hm_get (mgrs w') m = Some g)"

lemma extends_live: "extends w w' \<Longrightarrow> live_task w h t \<Longrightarrow> live_task w' h t"
  by (simp add: extends_def live_task_def)

lemma extends_mgr:
  "extends w w' \<Longrightarrow> mgr_get (the_mgr w m) n = Some e \<Longrightarrow> mgr_get (the_mgr w' m) n = Some e"
  by (cases "hm_get (mgrs w) m") (auto simp: extends_def the_mgr_def mgr_get_def mgr_new_def)

lemma extends_runs:
  assumes "extends w w'" and "session_runs w r"
  shows "session_runs w' r"
proof -
  have "runner_runs w r \<Longrightarrow> runner_runs w' r"
    unfolding runner_runs_def using extends_live [OF assms(1)] extends_mgr [OF assms(1)] by blast
  moreover have "sshd_runs w r \<Longrightarrow> sshd_runs w' r"
    unfolding sshd_runs_def using extends_live [OF assms(1)] assms(1) unfolding extends_def
    by metis
  moreover have "forward_runs w r l t u \<Longrightarrow> forward_runs w' r l t u" for l t u
    unfolding forward_runs_def using extends_live [OF assms(1)] by blast
  ultimately show ?thesis using assms(2) by (auto simp: session_runs_def split: UpstreamSpec.splits)
qed

text \<open>The handles of session tables are allocated.\<close>

definition mgrs_ok :: "'key app \<Rightarrow> bool" where
  "mgrs_ok w \<longleftrightarrow> (\<forall>m g. hm_get (mgrs w) m = Some g \<longrightarrow> m < next_handle w)"

lemma new_handle_extends:
  assumes "handles_ok w" and "mgrs_ok w"
  shows "next_handle w \<le> h \<Longrightarrow> hm_get (tasks w) h = None"
    and "next_handle w \<le> m \<Longrightarrow> hm_get (mgrs w) m = None"
  using assms by (meson handles_ok_def mgrs_ok_def not_less option.exhaust)+

lemma create_regular_mgrs:
  assumes "normalize_name (sc_ssh_user cfg) = Some k"
  shows "let w' = snd (create_regular None cfg w) in
    mgrs w' = hm_insert (next_handle w) [(k, \<lparr>se_name = sc_ssh_user cfg, se_password = sc_password cfg,
        se_hub = next_handle w + 1, se_status = next_handle w + 2, se_cancel = next_handle w + 3,
        se_clients = next_handle w + 4\<rparr>)] (hm_insert (next_handle w) mgr_new (mgrs w)) \<and>
    host_keys w' = host_keys w \<and> max_clients_per_session w' = max_clients_per_session w"
  using assms
  by (simp add: create_regular_def allocation hm_get_insert register_new numeral_eq_Suc)

lemma create_regular_runs:
  assumes user: "normalize_name (sc_ssh_user s) = Some k" and "\<not> is_proxy (sc_upstream s)"
    and ok: "handles_ok w" "mgrs_ok w"
  defines "w' \<equiv> snd (create_regular None s w)"
  shows "extends w w' \<and> mgrs_ok w' \<and> session_runs w' (new_entry w s)"
proof -
  note c = create_regular_ok [OF user, of w, unfolded Let_def, folded w'_def]
    and m = create_regular_mgrs [OF user, of w, unfolded Let_def, folded w'_def]
  note new = new_handle_extends [OF ok]
  have tok: "t \<notin> set (cancelled w)" if "next_handle w \<le> t" for t
    using ok(1) that by (auto simp: handles_ok_def)
  have e: "extends w w'"
    using new(1) [of "next_handle w + 7"] new(1) [of "next_handle w + 5"] new(2) [of "next_handle w"]
    by (auto simp: extends_def c m hm_get_insert)
  have mo: "mgrs_ok w'"
    using ok(2) by (auto simp: mgrs_ok_def c m hm_get_insert intro: less_trans split: if_splits)
  have g: "mgr_get (the_mgr w' (next_handle w)) (sc_ssh_user s) =
     Some \<lparr>se_name = sc_ssh_user s, se_password = sc_password s,
        se_hub = next_handle w + 1, se_status = next_handle w + 2, se_cancel = next_handle w + 3,
        se_clients = next_handle w + 4\<rparr>"
    using user by (simp add: the_mgr_def m hm_get_insert mgr_get_Some_key)
  have "live_task w' (next_handle w + 5) (new_runner w s)" "live_task w' (next_handle w + 7) (new_sshd w s)"
    using tok by (simp_all add: live_task_def c hm_get_insert new_runner_def new_sshd_def)
  then have "runner_runs w' (new_entry w s)" "sshd_runs w' (new_entry w s)"
    by (simp_all add: runner_runs_def sshd_runs_def new_entry_def g new_runner_def new_sshd_def m)
  with e mo assms(2) show ?thesis
    by (simp add: session_runs_def is_proxy_def new_entry_def split: UpstreamSpec.splits)
qed

lemma start_proxy_runs:
  assumes u: "sc_upstream s = HttpProxy l t p" and ok: "handles_ok w" "mgrs_ok w"
  defines "w' \<equiv> start_proxy s l t p w"
  shows "extends w w' \<and> mgrs_ok w' \<and>
    session_runs w' ((idle_entry s)\<lparr>re_proxy_cancel := Some (next_handle w)\<rparr>)"
proof -
  note new = new_handle_extends [OF ok]
  have "extends w w'"
    using new(1) [of "next_handle w + 1"]
    by (auto simp: extends_def w'_def start_proxy_def allocation hm_get_insert)
  moreover have "mgrs_ok w'"
    using ok(2) by (auto simp: mgrs_ok_def w'_def start_proxy_def allocation intro: less_SucI)
  moreover have "live_task w' (next_handle w + 1) (ForwardTask (next_handle w) l t (p = ''udp''))"
    using ok(1) by (auto simp: live_task_def w'_def start_proxy_def allocation hm_get_insert handles_ok_def)
  ultimately show ?thesis by (auto simp: session_runs_def forward_runs_def idle_entry_def u)
qed

text \<open>A stored session can be started, whatever has been started before it.\<close>

definition startable :: "(string \<Rightarrow> string option) \<Rightarrow> SessionConfig \<Rightarrow> bool" where
  "startable bind s = (\<not> sc_launch_on_startup s \<or> is_proxy (sc_upstream s) \<or>
     normalize_name (sc_ssh_user s) \<noteq> None \<and> bind (sc_listen s) = None)"

lemma start_one_startable: "(fst (start_one bind s w) = Inr ()) = startable bind s"
proof (cases "sc_launch_on_startup s \<and> \<not> is_proxy (sc_upstream s)")
  case True
  then have reg: "start_one bind s w = (case create_regular (bind (sc_listen s)) s w of
     (Inl e, w) \<Rightarrow> (Inl e, w) | (Inr _, w) \<Rightarrow> (Inr (), w))" by (simp add: start_one_regular)
  show ?thesis
  proof (cases "normalize_name (sc_ssh_user s)")
    case None
    with create_regular_bad_user [OF None, of "bind (sc_listen s)" w] True show ?thesis
      by (auto simp: reg startable_def split: prod.splits sum.splits)
  next
    case (Some k)
    show ?thesis
    proof (cases "bind (sc_listen s)")
      case None
      with create_regular_ok [OF Some, of w] Some True show ?thesis
        by (auto simp: reg startable_def split: prod.splits sum.splits)
    next
      case (Some a)
      with create_regular_no_bind [of s k a w] \<open>normalize_name (sc_ssh_user s) = Some k\<close> True show ?thesis
        by (auto simp: reg startable_def split: prod.splits sum.splits)
    qed
  qed
next
  case False
  then show ?thesis
    by (auto simp: start_one_def startable_def is_proxy_def split: UpstreamSpec.splits)
qed

text \<open>When one session has been started: the table has its entry, and the session runs, or is idle.\<close>

lemma start_one_Inr:
  assumes "start_one bind s w = (Inr (), w')" and ok: "app_ok w" and mo: "mgrs_ok w"
    and free: "free_key w (to_ascii_lowercase (sc_name s))"
  shows "\<exists>r. app_ok w' \<and> mgrs_ok w' \<and> extends w w' \<and> re_config r = s \<and>
    hm_get (runners w') = (hm_get (runners w))(to_ascii_lowercase (sc_name s) \<mapsto> r) \<and>
    (if sc_launch_on_startup s then session_runs w' r else entry_tokens r = [])"
proof -
  have h: "handles_ok w" using ok by (simp add: app_ok_def)
  have fin: ?thesis
    if w': "runners w' = hm_insert (to_ascii_lowercase (sc_name s)) r (runners w)"
      "cancelled w' = cancelled w" "next_handle w \<le> next_handle w'"
      and r: "re_config r = s" "\<forall>t \<in> set (entry_tokens r). t < next_handle w'"
      and new: "\<And>h t. hm_get (tasks w') h = Some t \<Longrightarrow> hm_get (tasks w) h = Some t \<or>
        (h < next_handle w' \<and> task_token t \<in> set (entry_tokens r))"
      and runs: "extends w w'" "mgrs_ok w'"
        "if sc_launch_on_startup s then session_runs w' r else entry_tokens r = []" for r
  proof (intro exI conjI)
    show "app_ok w'" by (rule app_ok_create [OF ok free w' r new])
    show "hm_get (runners w') = (hm_get (runners w))(to_ascii_lowercase (sc_name s) \<mapsto> r)"
      by (simp add: fun_eq_iff w'(1) hm_get_insert)
  qed (fact runs r(1))+
  show ?thesis
  proof (cases "sc_launch_on_startup s")
    case False
    then have w': "w' = w\<lparr>runners := hm_insert (to_ascii_lowercase (sc_name s)) (idle_entry s) (runners w)\<rparr>"
      using assms(1) by (simp add: start_one_def)
    show ?thesis
      by (rule fin [of "idle_entry s"])
        (use False mo in \<open>simp_all add: w' idle_entry_def entry_tokens_def extends_def mgrs_ok_def\<close>)
  next
    case launch: True
    show ?thesis
    proof (cases "is_proxy (sc_upstream s)")
      case True
      then obtain l t p where u: "sc_upstream s = HttpProxy l t p" by (rule is_proxyE)
      then have w': "w' = start_proxy s l t p w" using assms(1) launch by (simp add: start_one_def)
      note run = start_proxy_runs [OF u h mo, folded w']
      show ?thesis
        by (rule fin [of "(idle_entry s)\<lparr>re_proxy_cancel := Some (next_handle w)\<rparr>"])
          (use launch run in \<open>auto simp: w' start_proxy_def allocation idle_entry_def entry_tokens_def
             hm_get_insert split: if_splits\<close>)
    next
      case False
      have "startable bind s" using start_one_startable [of bind s w] assms(1) by simp
      then obtain k where k: "normalize_name (sc_ssh_user s) = Some k" and bind: "bind (sc_listen s) = None"
        using launch False by (auto simp: startable_def)
      note c = create_regular_ok [OF k, of w, unfolded Let_def]
      have w': "w' = snd (create_regular None s w)"
        using assms(1) by (auto simp: start_one_regular [OF launch False] bind split: prod.splits sum.splits)
      note run = create_regular_runs [OF k False h mo, folded w']
      show ?thesis
        by (rule fin [of "new_entry w s"])
          (use launch c run in \<open>auto simp: w' new_entry_def new_runner_def new_sshd_def entry_tokens_def
             hm_get_insert split: if_splits\<close>)
    qed
  qed
qed

definition table_of :: "SessionConfig list \<Rightarrow> string \<Rightarrow> SessionConfig option" where
  "table_of ss = map_of (map (\<lambda>s. (to_ascii_lowercase (sc_name s), s)) ss)"

lemma start_all_startable: "(fst (start_all bind ss w) = Inr ()) = list_all (startable bind) ss"
proof (induction ss arbitrary: w)
  case (Cons s ss)
  obtain x w1 where s1: "start_one bind s w = (x, w1)" by force
  show ?case
    using start_one_startable [of bind s w] Cons.IH [of w1] by (cases x) (auto simp: s1)
qed simp

lemma launched_extends:
  assumes "extends w w'" and "launched_exactly w"
    and "hm_get (runners w') = (hm_get (runners w))(k \<mapsto> r)"
    and "if sc_launch_on_startup (re_config r) then session_runs w' r else entry_tokens r = []"
  shows "launched_exactly w'"
  unfolding launched_exactly_def
proof (intro allI impI)
  fix k' r'
  assume "hm_get (runners w') k' = Some r'"
  then have "k' = k \<and> r' = r \<or> hm_get (runners w) k' = Some r'"
    using assms(3) by (auto split: if_splits)
  then show "if sc_launch_on_startup (re_config r') then session_runs w' r' else entry_tokens r' = []"
    using assms(2,4) extends_runs [OF assms(1), of r'] by (auto simp: launched_exactly_def)
qed

lemma start_all_Inr:
  assumes "start_all bind ss w = (Inr (), w')" and "app_ok w" and "mgrs_ok w" and "launched_exactly w"
    and "distinct (map (to_ascii_lowercase \<circ> sc_name) ss)"
    and "\<forall>s \<in> set ss. hm_get (runners w) (to_ascii_lowercase (sc_name s)) = None"
  shows "app_ok w' \<and> launched_exactly w' \<and> configs w' = configs w ++ table_of ss"
  using assms
proof (induction ss arbitrary: w)
  case Nil
  then show ?case by (simp add: table_of_def)
next
  case (Cons s ss)
  let ?k = "to_ascii_lowercase (sc_name s)"
  obtain w1 where s1: "start_one bind s w = (Inr (), w1)" and rest: "start_all bind ss w1 = (Inr (), w')"
    using Cons.prems(1) by (auto split: prod.splits sum.splits)
  have free: "free_key w ?k"
    using Cons.prems(6) by (simp add: free_key_def)
  from start_one_Inr [OF s1 Cons.prems(2,3) free] obtain r where ok: "app_ok w1" "mgrs_ok w1"
    and e: "extends w w1" and c: "re_config r = s"
    and r: "hm_get (runners w1) = (hm_get (runners w))(?k \<mapsto> r)"
    and l: "if sc_launch_on_startup s then session_runs w1 r else entry_tokens r = []" by blast
  have le: "launched_exactly w1"
    by (rule launched_extends [OF e Cons.prems(4) r]) (use l c in simp)
  have cf: "configs w1 = (configs w)(?k \<mapsto> s)"
    by (simp add: configs_def fun_eq_iff r c)
  have new: "?k \<notin> dom (table_of ss)"
    using Cons.prems(5) by (auto simp: table_of_def dom_map_of_conv_image_fst)
  have other: "(to_ascii_lowercase \<circ> sc_name) s \<notin> (to_ascii_lowercase \<circ> sc_name) ` set ss"
    and dist: "distinct (map (to_ascii_lowercase \<circ> sc_name) ss)"
    using Cons.prems(5) unfolding list.map distinct.simps set_map by blast+
  have "\<forall>s' \<in> set ss. hm_get (runners w1) (to_ascii_lowercase (sc_name s')) = None"
  proof
    fix s'
    assume s': "s' \<in> set ss"
    then have "(to_ascii_lowercase \<circ> sc_name) s' \<in> (to_ascii_lowercase \<circ> sc_name) ` set ss"
      by (rule imageI)
    then have "to_ascii_lowercase (sc_name s') \<noteq> ?k"
      using other by (metis comp_apply)
    moreover have "hm_get (runners w) (to_ascii_lowercase (sc_name s')) = None"
      using Cons.prems(6) s' by simp
    ultimately show "hm_get (runners w1) (to_ascii_lowercase (sc_name s')) = None"
      unfolding r by simp
  qed
  then have "app_ok w' \<and> launched_exactly w' \<and> configs w' = configs w1 ++ table_of ss"
    by (rule Cons.IH [OF rest ok le dist])
  moreover have "table_of (s # ss) = (table_of ss)(?k \<mapsto> s)"
    by (simp add: table_of_def fun_eq_iff)
  ultimately show ?case
    by (simp only: cf map_add_upd map_add_upd_left [OF new])
qed

lemma startup_no_dev:
  "startup bind keys fpr None dir stored = start_all bind (cf_sessions stored)
     (app_new keys fpr dir (sv_max_clients_per_session (cf_server stored)) (sv_api_listen (cf_server stored)))"
  by (auto simp: startup_def Let_def split: prod.splits sum.splits)

lemma startup_restores:
  assumes "distinct (map (to_ascii_lowercase \<circ> sc_name) (cf_sessions stored))"
    and "startup bind keys fpr None dir stored = (x, w)"
  shows "if list_all (startable bind) (cf_sessions stored)
    then x = Inr () \<and> configs w = table_of (cf_sessions stored) \<and> launched_exactly w \<and> app_ok w
    else x \<noteq> Inr ()"
proof -
  let ?w = "app_new keys fpr dir (sv_max_clients_per_session (cf_server stored)) (sv_api_listen (cf_server stored))"
  have s: "start_all bind (cf_sessions stored) ?w = (x, w)"
    using assms(2) by (simp add: startup_no_dev)
  have none: "hm_get (runners ?w) k = None" "hm_get (mgrs ?w) k' = None" for k k' by (simp_all add: app_new_def)
  have "configs ?w = Map.empty" by (simp add: configs_def none fun_eq_iff)
  then show ?thesis
    using start_all_startable [of bind "cf_sessions stored" ?w]
      start_all_Inr [of bind "cf_sessions stored" ?w w, OF _ app_ok_new _ _ assms(1)] s none
    by (auto simp: launched_exactly_def mgrs_ok_def)
qed

text \<open>
  C29. The start restores the stored sessions. With no serial line named by the environment and no
  two stored names that agree up to case, the program starts if and only if every session marked
  to be launched is a port forward or has a valid SSH user and an address that can be bound. Then
  its table holds exactly the stored sessions under their lower-cased names; those marked to be
  launched run, with their upstream, their reconnect setting, their user and password and the
  program's host keys, on tokens that are not cancelled; the others have nothing that runs; and
  every task is owned by its entry.
\<close>
theorem startup_restores_sessions:
  assumes "distinct (map (to_ascii_lowercase \<circ> sc_name) (cf_sessions stored))"
    and "startup bind keys fpr None dir stored = (x, w)"
  shows "if list_all (startable bind) (cf_sessions stored)
    then x = Inr () \<and> configs w = table_of (cf_sessions stored) \<and> launched_exactly w \<and> app_ok w
    else x \<noteq> Inr ()"
  using assms by (rule startup_restores)

text \<open>A launched session, a port forward and one that is not launched.\<close>

definition three_sessions :: "SessionConfig list" where
  "three_sessions = [launched demo_session,
     (launched demo_session)\<lparr>sc_name := ''web'', sc_upstream := HttpProxy ''h:1'' ''h:2'' ''udp''\<rparr>,
     demo_session\<lparr>sc_name := ''idle''\<rparr>]"

theorem startup_restores_sessions_witness:
  "\<exists>w. startup (\<lambda>_. None) [''ed25519''] ''SHA256:x'' None []
       (first_config\<lparr>cf_sessions := three_sessions\<rparr>) = (Inr (), w) \<and>
     configs w = table_of three_sessions \<and> launched_exactly w \<and> app_ok w"
proof -
  let ?c = "first_config\<lparr>cf_sessions := three_sessions\<rparr>"
  let ?r = "startup (\<lambda>_. None) [''ed25519''] ''SHA256:x'' None [] ?c"
  have user: "normalize_name ''admin'' \<noteq> None" by code_simp
  have names: "to_ascii_lowercase ''Echo'' = ''echo''" "to_ascii_lowercase ''web'' = ''web''"
    "to_ascii_lowercase ''idle'' = ''idle''" by code_simp+
  have d: "distinct (map (to_ascii_lowercase \<circ> sc_name) (cf_sessions ?c))"
    by (simp add: three_sessions_def demo_session_def names)
  have "list_all (startable (\<lambda>_. None)) (cf_sessions ?c)"
    using user by (simp add: three_sessions_def startable_def demo_session_def)
  with startup_restores_sessions [OF d, of "\<lambda>_. None" "[''ed25519'']" "''SHA256:x''" "[]" "fst ?r" "snd ?r"]
  show ?thesis by (intro exI [of _ "snd ?r"]) (cases ?r, simp)
qed

lemma table_of_persisted:
  assumes "keys_ok w" and "hm_ok (runners w)"
  shows "table_of (cf_sessions (persisted w)) = configs w"
    "distinct (map (to_ascii_lowercase \<circ> sc_name) (cf_sessions (persisted w)))"
proof -
  have key: "to_ascii_lowercase (sc_name (re_config r)) = k" if "(k, r) \<in> set (runners w)" for k r
    using assms that hm_get_iff [OF assms(2), of k r] by (simp add: keys_ok_def)
  have eq: "map (\<lambda>s. (to_ascii_lowercase (sc_name s), s)) (map re_config (hm_values (runners w))) =
      map (\<lambda>(k, r). (k, re_config r)) (runners w)"
    using key by (auto simp: hm_values_def)
  show "table_of (cf_sessions (persisted w)) = configs w"
  proof
    fix k
    have "table_of (cf_sessions (persisted w)) k = map_of (map (\<lambda>(k, r). (k, re_config r)) (runners w)) k"
      unfolding table_of_def persisted_def by (simp only: eq Config.select_convs)
    then show "table_of (cf_sessions (persisted w)) k = configs w k"
      by (simp add: configs_def hm_get_map_values)
  qed
  have "map (to_ascii_lowercase \<circ> sc_name) (map re_config (hm_values (runners w))) = map fst (runners w)"
    using key by (auto simp: hm_values_def)
  then show "distinct (map (to_ascii_lowercase \<circ> sc_name) (cf_sessions (persisted w)))"
    using assms(2) by (simp add: persisted_def hm_ok_def)
qed

text \<open>
  C2. What an operation leaves survives the end of the program. After any successful operation
  (creating, stopping, deleting, restarting, updating a session) the configuration file is such
  that the next start, with no serial line named by the environment, loads it; it starts if and only
  if every session marked to be launched is a port forward or has a valid SSH user and an address
  that can be bound. Then it has the same sessions under the same keys, with all their fields,
  passwords included, and runs exactly those that were last created, updated or restarted and not
  stopped since: the tasks of those have been spawned with their settings on tokens that are not
  cancelled. (Base64 decodes what it encodes, parsing the printed TOML gives the document up to the
  order of keys, passwords are UTF-8; systems other than Windows.)
\<close>
theorem operations_survive_restart:
  assumes "\<And>bs. dec (enc bs) = Inr bs"
    and "\<And>bs. list_all (\<lambda>b. unat b < 128) (as_bytes (enc bs))"
    and "\<And>v s. print_pretty v = Inr s \<Longrightarrow> utf8_valid (as_bytes s)"
    and "\<And>v s. print_pretty v = Inr s \<Longrightarrow> \<exists>v'. parse s = Inr v' \<and> veq v v'"
    and "env_save e = save (encrypt_plain enc) print_pretty os"
    and "keys_ok w" and "hm_ok (runners w)"
    and "run_op e op w = (True, w')"
    and "list_all (\<lambda>p. utf8_valid (as_bytes p)) (passwords (persisted w'))"
  shows "\<exists>stored. load_or_default (decrypt_plain dec) parse show_err None (config_dir w') = Inr stored \<and>
    (\<forall>bind keys fpr x w''. startup bind keys fpr None (config_dir w') stored = (x, w'') \<longrightarrow>
       (if list_all (startable bind) (cf_sessions stored)
        then x = Inr () \<and> configs w'' = spec_op op (configs w) \<and> launched_exactly w'' \<and> app_ok w''
        else x \<noteq> Inr ()))"
proof -
  have b64: "base64_codec enc dec" using assms(1,2) by (rule base64_codec.intro)
  obtain d where s: "save (encrypt_plain enc) print_pretty os (persisted w') d = (Inr (), config_dir w')"
    using run_op_saved [OF assms(8)] assms(5) by (auto simp: saved_def)
  have load: "load_or_default (decrypt_plain dec) parse show_err None (config_dir w') = Inr (persisted w')"
    by (rule secret_store.load_saved [OF base64_secret_store [OF b64] _ _ s]) (use assms(3,4,9) in auto)
  have ref: "configs w' = spec_op op (configs w)" and keys: "keys_ok w'"
    using operations_refine [OF assms(6,8)] by auto
  have hm: "hm_ok (runners w')" using hm_ok_run_op [OF assms(7), of e op] assms(8) by simp
  note t = table_of_persisted [OF keys hm]
  show ?thesis
  proof (intro exI [of _ "persisted w'"] conjI allI impI load)
    fix bind keys fpr x w''
    assume "startup bind keys fpr None (config_dir w') (persisted w') = (x, w'')"
    from startup_restores [OF t(2) this] t(1) ref
    show "if list_all (startable bind) (cf_sessions (persisted w'))
      then x = Inr () \<and> configs w'' = spec_op op (configs w) \<and> launched_exactly w'' \<and> app_ok w''
      else x \<noteq> Inr ()" by simp
  qed
qed

text \<open>
  A program with a session and a port forward is told to stop the session, with RFC 4648 as the
  Base64 engine and a printer that knows the text of the document that is saved: at the next start
  the forward runs and the session does not.
\<close>

definition web_session :: SessionConfig where
  "web_session = (launched demo_session)\<lparr>sc_name := ''web'', sc_upstream := HttpProxy ''h:1'' ''h:2'' ''tcp''\<rparr>"

definition two_app :: "string app" where
  "two_app = empty_app\<lparr>runners := [(''echo'', idle_entry (launched demo_session)), (''web'', idle_entry web_session)]\<rparr>"

definition stopped_app :: "string app" where
  "stopped_app = empty_app\<lparr>runners := [(''echo'', idle_entry demo_session), (''web'', idle_entry web_session)]\<rparr>"

definition two_stored :: Config where
  "two_stored = (persisted empty_app)\<lparr>cf_sessions :=
     [demo_session\<lparr>sc_password := ''plain:'' @ rfc_encode (as_bytes ''pw'')\<rparr>,
      web_session\<lparr>sc_password := ''plain:'' @ rfc_encode (as_bytes ''pw'')\<rparr>]\<rparr>"

definition two_print :: "val \<Rightarrow> string + string" where
  "two_print v = (if v = config_val two_stored then Inr ''[[sessions]]'' else Inl ''unsupported'')"

definition two_parse :: "string \<Rightarrow> string + val" where
  "two_parse s = (if s = ''[[sessions]]'' then Inr (config_val two_stored) else Inl ''expected'')"

definition saving_env :: env where
  "saving_env = demo_env\<lparr>env_save := save (encrypt_plain rfc_encode) two_print
     \<lparr>create_dir_err = None, write_res = WriteOk, rename_err = None\<rparr>\<rparr>"

lemma two_stopped: "stop_core f ''echo'' two_app = stopped_app"
  by (simp add: stop_core_def stop_flag_def stop_take_def stop_cancel_def two_app_def stopped_app_def
      idle_entry_def cancel_opt_def await_runner_def await_sshd_def hm_insert_def hm_modify_def demo_session_def)

lemma two_persisted: "persisted stopped_app = (persisted empty_app)\<lparr>cf_sessions := [demo_session, web_session]\<rparr>"
  by (simp add: persisted_def hm_values_def idle_entry_def stopped_app_def)

lemma two_redacted: "redact_for_save (encrypt_plain rfc_encode) (persisted stopped_app) = Inr two_stored"
  by (simp add: two_persisted redact_for_save_def redact_session_def two_stored_def encrypt_plain_def
      demo_session_def web_session_def)

lemma two_saves: "fst (env_save saving_env (persisted stopped_app) d) = Inr ()"
  by (simp add: saving_env_def save_def two_redacted two_print_def Let_def)

lemma two_op:
  obtains w' where "run_op saving_env (StopOp ''Echo'') two_app = (True, w')"
    "persisted w' = (persisted empty_app)\<lparr>cf_sessions := [demo_session, web_session]\<rparr>"
proof -
  obtain x w' where p: "persist_then saving_env () stopped_app = (x, w')" by force
  have s: "stop_session saving_env ''Echo'' two_app = (x, w')"
    by (simp add: stop_session_core demo_lower two_stopped p)
  obtain r d where sv: "env_save saving_env (persisted stopped_app) (config_dir stopped_app) = (r, d)" by force
  have "r = Inr ()" using two_saves [of "config_dir stopped_app"] sv by simp
  then have x: "x = Inr ()" "w' = stopped_app\<lparr>config_dir := d\<rparr>"
    using p unfolding persist_then_def persist_now_def sv by simp_all
  have "persisted w' = persisted stopped_app" unfolding x(2) by (simp add: persisted_def)
  then show ?thesis using s x(1) by (intro that [of w']) (simp_all add: two_persisted del: fun_upd_apply)
qed

theorem operations_survive_restart_witness:
  "\<exists>w' stored. run_op saving_env (StopOp ''Echo'') two_app = (True, w') \<and>
     load_or_default (decrypt_plain rfc_decode) two_parse (\<lambda>_. ''invalid'') None (config_dir w') = Inr stored \<and>
     (\<forall>bind keys fpr x (w'' :: string app). startup bind keys fpr None (config_dir w') stored = (x, w'') \<longrightarrow>
       (if list_all (startable bind) (cf_sessions stored)
        then x = Inr () \<and> configs w'' = spec_op (StopOp ''Echo'') (configs two_app) \<and>
          launched_exactly w'' \<and> app_ok w''
        else x \<noteq> Inr ()))"
proof -
  obtain w' where op: "run_op saving_env (StopOp ''Echo'') two_app = (True, w')"
    and p: "persisted w' = (persisted empty_app)\<lparr>cf_sessions := [demo_session, web_session]\<rparr>" by (rule two_op)
  have "as_bytes ''pw'' = [112, 119]" by code_simp
  then have utf: "list_all (\<lambda>p. utf8_valid (as_bytes p)) (passwords (persisted w'))"
    by (simp add: p passwords_def demo_session_def web_session_def)
  have text_ok: "utf8_valid (as_bytes s)" "\<exists>v'. two_parse s = Inr v' \<and> veq v v'" if "two_print v = Inr s" for v s
  proof -
    have v: "v = config_val two_stored" "s = ''[[sessions]]''"
      using that by (auto simp: two_print_def split: if_splits)
    have "utf8_valid (as_bytes ''[[sessions]]'')" by code_simp
    then show "utf8_valid (as_bytes s)" by (simp add: v)
    show "\<exists>v'. two_parse s = Inr v' \<and> veq v v'" using veq_refl by (simp add: v two_parse_def)
  qed
  have low: "to_ascii_lowercase ''web'' = ''web''" by code_simp
  have keys: "keys_ok two_app"
    using demo_lower(1) low
    by (auto simp: keys_ok_def two_app_def idle_entry_def demo_session_def web_session_def split: if_splits)
  have hm: "hm_ok (runners two_app)" by (simp add: two_app_def hm_ok_def)
  have env: "env_save saving_env = save (encrypt_plain rfc_encode) two_print
     \<lparr>create_dir_err = None, write_res = WriteOk, rename_err = None\<rparr>"
    by (simp add: saving_env_def)
  have "\<exists>stored. load_or_default (decrypt_plain rfc_decode) two_parse (\<lambda>_. ''invalid'') None (config_dir w') = Inr stored \<and>
     (\<forall>bind keys fpr x (w'' :: string app). startup bind keys fpr None (config_dir w') stored = (x, w'') \<longrightarrow>
       (if list_all (startable bind) (cf_sessions stored)
        then x = Inr () \<and> configs w'' = spec_op (StopOp ''Echo'') (configs two_app) \<and>
          launched_exactly w'' \<and> app_ok w''
        else x \<noteq> Inr ()))"
    by (rule operations_survive_restart [where enc = rfc_encode and dec = rfc_decode and
          print_pretty = two_print and parse = two_parse, OF rfc4648.dec_enc rfc4648.enc_ascii
          text_ok(1) text_ok(2) env keys hm op utf])
  with op show ?thesis by blast
qed

end
