(* ===== verification/Sshd.thy ===== *)
theory Sshd
  imports Session_Mgr Clients
begin

text \<open>
  The SSH server's side of a client, \<open>crates/termhub-sshd/src/handler.rs\<close>: the handler of one
  connection with its requests, and the task that forwards the hub's output to it. The world
  around it is the session table, the client registries, the forward tasks and what was sent to
  the hubs. The protocol itself is \<open>russh\<close>'s: its requests are the operations here, what the
  handler answers is a list of replies. A hub's receivers are those of the forward tasks (nothing
  else subscribes); an aborted task keeps its receiver until the runtime has dropped it.
\<close>

datatype reply =
    ChannelSuccess nat
  | ReplyData nat bytes
  | ExitStatus nat nat
  | CloseChannel nat

record fwd_task =
  ft_hub :: handle
  ft_client :: u64
  ft_registry :: handle
  ft_channel :: nat
  ft_is_exec :: bool
  ft_aborted :: bool

record world =
  w_mgr :: SessionMgr
  w_registries :: "(handle, ClientRegistry) hmap"
  w_tasks :: "(nat, fwd_task) hmap"
  w_next_task :: nat
  w_inputs :: "(handle \<times> bytes) list"

record ClientHandler =
  ch_max_clients :: nat
  ch_peer :: string
  ch_user :: "string option"
  ch_entry :: "SessionEntry option"
  ch_forward_task :: "nat option"
  ch_client_rec :: "u64 option"
  ch_is_exec :: bool

definition handler_new :: "nat \<Rightarrow> string \<Rightarrow> ClientHandler" where
  "handler_new max_clients peer =
     \<lparr>ch_max_clients = max_clients, ch_peer = peer, ch_user = None, ch_entry = None,
      ch_forward_task = None, ch_client_rec = None, ch_is_exec = False\<rparr>"

definition registry_of :: "world \<Rightarrow> handle \<Rightarrow> ClientRegistry" where
  "registry_of w c = (case hm_get (w_registries w) c of None \<Rightarrow> registry_default | Some g \<Rightarrow> g)"

definition set_registry :: "handle \<Rightarrow> ClientRegistry \<Rightarrow> world \<Rightarrow> world" where
  "set_registry c g w = w\<lparr>w_registries := hm_insert c g (w_registries w)\<rparr>"

definition subscribers :: "world \<Rightarrow> handle \<Rightarrow> nat" where
  "subscribers w hub = length (filter (\<lambda>t. ft_hub t = hub) (hm_values (w_tasks w)))"

definition send_to_hub :: "handle \<Rightarrow> bytes \<Rightarrow> world \<Rightarrow> world" where
  "send_to_hub hub b w = w\<lparr>w_inputs := w_inputs w @ [(hub, b)]\<rparr>"

definition abort_task :: "nat option \<Rightarrow> world \<Rightarrow> world" where
  "abort_task t w =
     (case t of None \<Rightarrow> w | Some t \<Rightarrow> w\<lparr>w_tasks := hm_modify t (\<lambda>f. f\<lparr>ft_aborted := True\<rparr>) (w_tasks w)\<rparr>)"

subsection \<open>Requests\<close>

definition auth_password :: "string \<Rightarrow> string \<Rightarrow> ClientHandler \<Rightarrow> world \<Rightarrow> bool \<times> ClientHandler" where
  "auth_password user password h w =
     (case authenticate (w_mgr w) user password of
        Some entry \<Rightarrow> (True, h\<lparr>ch_user := Some user, ch_entry := Some entry\<rparr>)
      | None \<Rightarrow> (False, h))"

definition full_line :: bytes where
  "full_line = as_bytes ''*** termhub: session is full'' @ [13, 10]"

text \<open>
  \<open>start_shell_or_exec\<close> in two parts: the checks, up to the first \<open>await\<close>, and what follows. Other
  connections may run between them.
\<close>

definition start_check :: "nat \<Rightarrow> ClientHandler \<Rightarrow> world \<Rightarrow> reply list + SessionEntry" where
  "start_check channel h w =
     (case ch_entry h of
        None \<Rightarrow> Inl [CloseChannel channel]
      | Some entry \<Rightarrow>
          if ch_max_clients h \<le> subscribers w (se_hub entry)
          then Inl [ReplyData channel full_line, CloseChannel channel]
          else Inr entry)"

definition start_enter :: "int \<Rightarrow> nat \<Rightarrow> SessionEntry \<Rightarrow> bytes option \<Rightarrow> bool \<Rightarrow> ClientHandler \<Rightarrow> world
    \<Rightarrow> reply list \<times> ClientHandler \<times> world" where
  "start_enter now channel entry initial_input is_exec h w =
     (let c = se_clients entry;
          (rec, g) = attach now (ch_peer h) (registry_of w c);
          w = set_registry c g w;
          h = h\<lparr>ch_client_rec := Some (cr_id rec), ch_is_exec := is_exec\<rparr>;
          w = (case initial_input of
                 None \<Rightarrow> w
               | Some b \<Rightarrow>
                   set_registry c (count_in (cr_id rec) (length b) g) (send_to_hub (se_hub entry) b w));
          t = w_next_task w;
          w = w\<lparr>w_next_task := t + 1,
                w_tasks := hm_insert t \<lparr>ft_hub = se_hub entry, ft_client = cr_id rec, ft_registry = c,
                  ft_channel = channel, ft_is_exec = is_exec, ft_aborted = False\<rparr> (w_tasks w)\<rparr>
      in ([ChannelSuccess channel], h\<lparr>ch_forward_task := Some t\<rparr>, w))"

definition start_shell_or_exec :: "int \<Rightarrow> nat \<Rightarrow> bytes option \<Rightarrow> bool \<Rightarrow> ClientHandler \<Rightarrow> world
    \<Rightarrow> reply list \<times> ClientHandler \<times> world" where
  "start_shell_or_exec now channel initial_input is_exec h w =
     (case start_check channel h w of
        Inl rs \<Rightarrow> (rs, h, w)
      | Inr entry \<Rightarrow> start_enter now channel entry initial_input is_exec h w)"

text \<open>The command of an \<open>exec\<close> request as it is typed into the upstream.\<close>

definition exec_input :: "bytes \<Rightarrow> bytes option" where
  "exec_input data =
     (if data = [] then None
      else Some
        (if last data \<noteq> 10 then
           (if last data \<noteq> 13 then data @ [13] else data) @ [10]
         else data))"

definition shell_request :: "int \<Rightarrow> nat \<Rightarrow> ClientHandler \<Rightarrow> world \<Rightarrow> reply list \<times> ClientHandler \<times> world" where
  "shell_request now channel h w = start_shell_or_exec now channel None False h w"

definition exec_request :: "int \<Rightarrow> nat \<Rightarrow> bytes \<Rightarrow> ClientHandler \<Rightarrow> world
    \<Rightarrow> reply list \<times> ClientHandler \<times> world" where
  "exec_request now channel data h w = start_shell_or_exec now channel (exec_input data) True h w"

definition pty_request :: "nat \<Rightarrow> reply list" where
  "pty_request channel = [ChannelSuccess channel]"

definition client_data :: "bytes \<Rightarrow> ClientHandler \<Rightarrow> world \<Rightarrow> world" where
  "client_data data h w =
     (case ch_entry h of
        None \<Rightarrow> w
      | Some entry \<Rightarrow>
          (let w = send_to_hub (se_hub entry) data w in
           (case ch_client_rec h of
              None \<Rightarrow> w
            | Some i \<Rightarrow>
                set_registry (se_clients entry)
                  (count_in i (length data) (registry_of w (se_clients entry))) w)))"

definition detach_client :: "ClientHandler \<Rightarrow> world \<Rightarrow> world" where
  "detach_client h w =
     (case (ch_client_rec h, ch_entry h) of
        (Some i, Some entry) \<Rightarrow>
          set_registry (se_clients entry) (detach i (registry_of w (se_clients entry))) w
      | _ \<Rightarrow> w)"

definition channel_close :: "ClientHandler \<Rightarrow> world \<Rightarrow> ClientHandler \<times> world" where
  "channel_close h w =
     (h\<lparr>ch_forward_task := None, ch_client_rec := None\<rparr>,
      detach_client h (abort_task (ch_forward_task h) w))"

definition channel_eof :: "nat \<Rightarrow> ClientHandler \<Rightarrow> world \<Rightarrow> reply list \<times> ClientHandler \<times> world" where
  "channel_eof channel h w =
     (if ch_is_exec h then
        (let (h, w) = channel_close h w in ([ExitStatus channel 0, CloseChannel channel], h, w))
      else ([], h, w))"

definition handler_drop :: "ClientHandler \<Rightarrow> world \<Rightarrow> world" where
  "handler_drop h w = abort_task (ch_forward_task h) w"

text \<open>The runtime drops a finished or aborted task, and with it its receiver.\<close>

definition reap :: "nat \<Rightarrow> world \<Rightarrow> world" where
  "reap t w = w\<lparr>w_tasks := hm_remove t (w_tasks w)\<rparr>"

subsection \<open>The forward task\<close>

text \<open>What one turn of its \<open>select!\<close> sees; \<open>Got b ok\<close>: a message, and whether it could be sent on.\<close>

datatype fwd_event = Kicked | SilenceElapsed | Got bytes bool | Lagged nat | HubClosed

definition kicked_line :: bytes where
  "kicked_line = as_bytes ''*** termhub: kicked by host'' @ [13, 10]"

definition lagged_line :: bytes where
  "lagged_line = [27] @ as_bytes ''[33m*** termhub: client lagged, output truncated'' @ [27]
     @ as_bytes ''[0m'' @ [13, 10]"

definition exit_and_close :: "nat \<Rightarrow> reply list" where
  "exit_and_close channel = [ExitStatus channel 0, CloseChannel channel]"

text \<open>One turn: the replies, the bytes counted as sent, and whether the loop goes on.\<close>

fun forward_turn :: "bool \<Rightarrow> nat \<Rightarrow> fwd_event \<Rightarrow> reply list \<times> nat \<times> bool" where
  "forward_turn is_exec channel Kicked =
     (if is_exec then exit_and_close channel
      else [ReplyData channel kicked_line, CloseChannel channel], 0, False)"
| "forward_turn is_exec channel SilenceElapsed =
     (if is_exec then exit_and_close channel else [], 0, False)"
| "forward_turn is_exec channel (Got b ok) = ([ReplyData channel b], length b, ok)"
| "forward_turn is_exec channel (Lagged n) = ([ReplyData channel lagged_line], 0, True)"
| "forward_turn is_exec channel HubClosed =
     (if is_exec then exit_and_close channel else [], 0, False)"

fun forward_loop :: "bool \<Rightarrow> nat \<Rightarrow> fwd_event list \<Rightarrow> reply list \<times> nat \<times> bool" where
  "forward_loop is_exec channel [] = ([], 0, True)"
| "forward_loop is_exec channel (e # es) =
     (let (rs, n, go) = forward_turn is_exec channel e in
      if go then (let (rs', n', go') = forward_loop is_exec channel es in (rs @ rs', n + n', go'))
      else (rs, n, False))"

subsection \<open>A connection\<close>

datatype request =
    AuthPassword string string
  | PtyRequest nat
  | ShellRequest int nat
  | ExecRequest int nat bytes
  | ClientData bytes
  | ChannelEof nat
  | ChannelClose

fun serve :: "request \<Rightarrow> ClientHandler \<Rightarrow> world \<Rightarrow> reply list \<times> ClientHandler \<times> world" where
  "serve (AuthPassword u p) h w = ([], snd (auth_password u p h w), w)"
| "serve (PtyRequest c) h w = (pty_request c, h, w)"
| "serve (ShellRequest now c) h w = shell_request now c h w"
| "serve (ExecRequest now c d) h w = exec_request now c d h w"
| "serve (ClientData d) h w = ([], h, client_data d h w)"
| "serve (ChannelEof c) h w = channel_eof c h w"
| "serve ChannelClose h w = ([], channel_close h w)"

fun serve_all :: "request list \<Rightarrow> ClientHandler \<Rightarrow> world \<Rightarrow> reply list \<times> ClientHandler \<times> world" where
  "serve_all [] h w = ([], h, w)"
| "serve_all (r # rs) h w =
     (let (x, h, w) = serve r h w; (y, h, w) = serve_all rs h w in (x @ y, h, w))"

definition refused_auth :: "world \<Rightarrow> request \<Rightarrow> bool" where
  "refused_auth w r = (case r of AuthPassword u p \<Rightarrow> authenticate (w_mgr w) u p = None | _ \<Rightarrow> True)"

definition harmless :: "reply \<Rightarrow> bool" where
  "harmless r = (case r of ReplyData _ _ \<Rightarrow> False | _ \<Rightarrow> True)"

text \<open>A handler that has not been let in: no entry, hence no task and no record.\<close>

definition outside :: "ClientHandler \<Rightarrow> bool" where
  "outside h = (ch_entry h = None \<and> ch_forward_task h = None \<and> ch_client_rec h = None \<and> \<not> ch_is_exec h)"

lemma serve_outside:
  assumes "outside h" and "refused_auth w r"
  shows "\<exists>rs h'. serve r h w = (rs, h', w) \<and> outside h' \<and> list_all harmless rs"
  using assms
  by (cases r) (auto simp: outside_def refused_auth_def auth_password_def pty_request_def
      shell_request_def exec_request_def start_shell_or_exec_def start_check_def client_data_def
      channel_eof_def channel_close_def detach_client_def abort_task_def harmless_def)

lemma serve_all_outside:
  assumes "outside h" and "list_all (refused_auth w) rs"
  shows "\<exists>out h'. serve_all rs h w = (out, h', w) \<and> outside h' \<and> list_all harmless out"
  using assms
proof (induction rs arbitrary: h)
  case Nil
  then show ?case by simp
next
  case (Cons r rs)
  then obtain o1 h1 where 1: "serve r h w = (o1, h1, w)" "outside h1" "list_all harmless o1"
    using serve_outside [of h w r] by auto
  from Cons.IH [OF 1(2)] Cons.prems obtain o2 h2 where
    2: "serve_all rs h1 w = (o2, h2, w)" "outside h2" "list_all harmless o2" by auto
  from 1 2 show ?case by simp
qed

text \<open>
  C4. Nothing happens without the password. Whatever requests a connection makes, in any order and
  number, while each of its authentication attempts is refused, it gets no byte of the session's
  output, sends no byte to the upstream, is never listed as a client and never takes a place, and
  the rest of the world is left exactly as it was.
\<close>
theorem unauthenticated_has_no_effect:
  assumes "list_all (refused_auth w) rs"
  shows "\<exists>out h. serve_all rs (handler_new m peer) w = (out, h, w) \<and> ch_entry h = None \<and>
    list_all harmless out"
  using serve_all_outside [of "handler_new m peer" w rs] assms
  by (auto simp: outside_def handler_new_def)

definition demo_world :: world where
  "demo_world = \<lparr>w_mgr = [(''admin'', \<lparr>se_name = ''admin'', se_password = ''pw'', se_hub = 0,
       se_status = 1, se_cancel = 2, se_clients = 3\<rparr>)],
     w_registries = [(3, registry_default)], w_tasks = [], w_next_task = 0, w_inputs = []\<rparr>"

lemma demo_auth:
  "authenticate (w_mgr demo_world) ''admin'' p =
     (if p = ''pw'' then Some \<lparr>se_name = ''admin'', se_password = ''pw'', se_hub = 0,
       se_status = 1, se_cancel = 2, se_clients = 3\<rparr> else None)"
proof -
  have "normalize_name ''admin'' = Some ''admin''" by code_simp
  then show ?thesis by (auto simp: authenticate_get mgr_get_def demo_world_def)
qed

text \<open>A wrong password, then a shell, a command and some typing.\<close>
theorem unauthenticated_has_no_effect_witness:
  "\<exists>out h. serve_all [AuthPassword ''admin'' ''guess'', ShellRequest 0 1, ExecRequest 0 1 [108, 115],
       ClientData [120]] (handler_new 16 ''1.2.3.4:5'') demo_world = (out, h, demo_world) \<and>
     ch_entry h = None \<and> list_all harmless out"
  by (rule unauthenticated_has_no_effect) (simp add: refused_auth_def demo_auth)

text \<open>
  A command is typed as exactly one finished line: it is not changed when it already ends in a
  line feed, gets the line feed when it ends in a carriage return, and both otherwise; an empty
  command types nothing. Doing it twice changes nothing.
\<close>
theorem exec_input_line:
  "(exec_input data = None \<longleftrightarrow> data = []) \<and>
   exec_input (p @ [10]) = Some (p @ [10]) \<and>
   exec_input (p @ [13]) = Some (p @ [13, 10]) \<and>
   (b \<in> {10, 13} \<or> exec_input (p @ [b]) = Some (p @ [b, 13, 10])) \<and>
   (case exec_input data of None \<Rightarrow> True | Some v \<Rightarrow> exec_input v = Some v \<and> last v = 10)"
  by (auto simp: exec_input_def)

subsection \<open>The limit on clients\<close>

definition tasks_ok :: "world \<Rightarrow> bool" where
  "tasks_ok w \<longleftrightarrow> (\<forall>t. w_next_task w \<le> t \<longrightarrow> hm_get (w_tasks w) t = None)"

lemma filter_values_insert_fresh:
  "hm_get m k = None \<Longrightarrow>
   length (filter P (hm_values (hm_insert k v m))) =
     length (filter P (hm_values m)) + (if P v then 1 else 0)"
  by (induction m) (auto simp: hm_insert_def hm_values_def split: if_splits)

lemma filter_values_modify:
  assumes "\<And>v. P (f v) = P v"
  shows "length (filter P (hm_values (hm_modify k f m))) = length (filter P (hm_values m))"
proof (cases "hm_get m k")
  case (Some v)
  then have "length (filter P (hm_values (hm_insert k (f v) m))) = length (filter P (hm_values m))"
    using assms by (induction m) (auto simp: hm_insert_def hm_values_def split: if_splits)
  with Some show ?thesis by (simp add: hm_modify_def)
qed (simp add: hm_modify_def)

lemma subscribers_abort [simp]: "subscribers (abort_task t w) hub = subscribers w hub"
  by (simp add: abort_task_def subscribers_def filter_values_modify split: option.splits)

lemma tasks_ok_abort [simp]: "tasks_ok w \<Longrightarrow> tasks_ok (abort_task t w)"
  by (auto simp: abort_task_def tasks_ok_def hm_get_modify split: option.splits)

lemma subscribers_frame [simp]:
  "subscribers (set_registry c g w) hub = subscribers w hub"
  "subscribers (send_to_hub i b w) hub = subscribers w hub"
  "subscribers (detach_client h w) hub = subscribers w hub"
  "tasks_ok (set_registry c g w) = tasks_ok w" "tasks_ok (send_to_hub i b w) = tasks_ok w"
  "tasks_ok (detach_client h w) = tasks_ok w"
  by (simp_all add: subscribers_def set_registry_def send_to_hub_def tasks_ok_def detach_client_def
      split: option.splits)

lemma client_data_frame [simp]:
  "subscribers (client_data d h w) hub = subscribers w hub"
  "tasks_ok (client_data d h w) = tasks_ok w"
  by (simp_all add: client_data_def Let_def split: option.splits)

lemma start_enter_tasks:
  assumes "tasks_ok w"
  shows "subscribers (snd (snd (start_enter now c e b x h w))) hub =
      subscribers w hub + (if hub = se_hub e then 1 else 0)"
    and "tasks_ok (snd (snd (start_enter now c e b x h w)))"
    and "ch_max_clients (fst (snd (start_enter now c e b x h w))) = ch_max_clients h"
    and "ch_entry (fst (snd (start_enter now c e b x h w))) = ch_entry h"
proof -
  obtain r g where a: "attach now (ch_peer h) (registry_of w (se_clients e)) = (r, g)" by force
  have free: "hm_get (w_tasks w) (w_next_task w) = None" using assms by (simp add: tasks_ok_def)
  show "subscribers (snd (snd (start_enter now c e b x h w))) hub =
      subscribers w hub + (if hub = se_hub e then 1 else 0)"
    using free by (cases b)
      (auto simp: start_enter_def a Let_def subscribers_def set_registry_def send_to_hub_def
        filter_values_insert_fresh)
  show "tasks_ok (snd (snd (start_enter now c e b x h w)))"
    using assms by (cases b)
      (auto simp: start_enter_def a Let_def tasks_ok_def set_registry_def send_to_hub_def hm_get_insert)
  show "ch_max_clients (fst (snd (start_enter now c e b x h w))) = ch_max_clients h"
    by (simp add: start_enter_def a Let_def)
  show "ch_entry (fst (snd (start_enter now c e b x h w))) = ch_entry h"
    by (simp add: start_enter_def a Let_def)
qed

definition within :: "nat \<Rightarrow> world \<Rightarrow> bool" where
  "within m w = (\<forall>hub. subscribers w hub \<le> m)"

lemma serve_within:
  assumes "tasks_ok w" and "within m w" and "ch_max_clients h = m" and "serve r h w = (out, h', w')"
  shows "tasks_ok w' \<and> within m w' \<and> ch_max_clients h' = m"
proof -
  have start: "tasks_ok w2 \<and> within m w2 \<and> ch_max_clients h2 = m"
    if s: "start_shell_or_exec now c b x h w = (rs, h2, w2)" for now c b x rs h2 w2
  proof (cases "start_check c h w")
    case (Inl a)
    then show ?thesis using assms(1-3) s by (simp add: start_shell_or_exec_def)
  next
    case (Inr e)
    then have "subscribers w (se_hub e) < m"
      using assms(3) by (auto simp: start_check_def split: option.splits if_splits)
    then show ?thesis
      using start_enter_tasks [OF assms(1), of now c e b x h] Inr s assms(2,3)
      by (auto simp: start_shell_or_exec_def within_def Suc_le_eq)
  qed
  have "ch_max_clients (snd (auth_password u p h w)) = ch_max_clients h" for u p
    by (simp add: auth_password_def split: option.splits)
  then show ?thesis
    using assms start
    by (cases r) (auto simp: shell_request_def exec_request_def channel_eof_def
        channel_close_def within_def split: option.splits if_splits)
qed

text \<open>Many connections, each request served without interruption; tasks end in between.\<close>

datatype server_event = Serve nat request | Dropped nat | Reaped nat

fun server_run :: "server_event list \<Rightarrow> (nat \<Rightarrow> ClientHandler) \<Rightarrow> world \<Rightarrow> world" where
  "server_run [] hs w = w"
| "server_run (Serve i r # es) hs w =
     (let (_, h, w) = serve r (hs i) w in server_run es (hs(i := h)) w)"
| "server_run (Dropped i # es) hs w = server_run es hs (handler_drop (hs i) w)"
| "server_run (Reaped t # es) hs w = server_run es hs (reap t w)"

lemma filter_values_remove: "length (filter P (hm_values (hm_remove k m))) \<le> length (filter P (hm_values m))"
  by (induction m) (auto simp: hm_remove_def hm_values_def)

lemma server_run_within:
  assumes "tasks_ok w" and "within m w" and "\<And>i. ch_max_clients (hs i) = m"
  shows "within m (server_run es hs w)"
  using assms
proof (induction es hs w rule: server_run.induct)
  case (2 i r es hs w)
  obtain out h w1 where s: "serve r (hs i) w = (out, h, w1)" by (metis prod_cases3)
  have "tasks_ok w1 \<and> within m w1 \<and> ch_max_clients h = m"
    by (rule serve_within [OF "2.prems"(1,2,3) s])
  then have "within m (server_run es (hs(i := h)) w1)"
    using "2.prems"(3) by (intro "2.IH" [OF s [symmetric] refl]) auto
  then show ?case by (simp add: s)
next
  case (3 i es hs w)
  then show ?case by (simp add: handler_drop_def within_def)
next
  case (4 t es hs w)
  have "within m (reap t w)" "tasks_ok (reap t w)"
    using "4.prems"(1,2) filter_values_remove [of _ t "w_tasks w"]
    by (auto simp: within_def reap_def subscribers_def tasks_ok_def hm_get_remove intro: order.trans)
  then show ?case using 4 by simp
qed simp

text \<open>
  C25. The limit on clients holds while requests are served one at a time: however many connections
  make whatever requests in whatever order, with connections and tasks ending in between, no
  session ever has more receivers of its output than the configured number.
\<close>
theorem client_limit_kept:
  assumes "w_tasks w = []"
  shows "subscribers (server_run es (\<lambda>i. handler_new m (peer i)) w) hub \<le> m"
  using server_run_within [of w m "\<lambda>i. handler_new m (peer i)" es] assms
  by (simp add: within_def tasks_ok_def subscribers_def hm_values_def handler_new_def)

text \<open>Two clients on a session for one: the second is turned away.\<close>
theorem client_limit_kept_witness:
  "subscribers (server_run [Serve 0 (AuthPassword ''admin'' ''pw''), Serve 1 (AuthPassword ''admin'' ''pw''),
      Serve 0 (ShellRequest 0 1), Serve 1 (ShellRequest 0 1)]
      (\<lambda>i. handler_new 1 ''1.2.3.4:5'') demo_world) 0 \<le> 1"
  by (rule client_limit_kept) (simp add: demo_world_def)

text \<open>
  C39. Two requests served at the same time can exceed the limit. The number of receivers is
  compared first and the new receiver exists only after the registry has been locked and the
  command sent: when two connections of a session with one free place both compare before either
  has gone on, both pass, and the session has one receiver too many.
\<close>
theorem client_limit_can_be_exceeded:
  assumes "tasks_ok w" and "subscribers w (se_hub e) = n"
    and "ch_max_clients h1 = Suc n" and "ch_max_clients h2 = Suc n"
    and "ch_entry h1 = Some e" and "ch_entry h2 = Some e"
  shows "start_check c1 h1 w = Inr e \<and> start_check c2 h2 w = Inr e \<and>
    (let w1 = snd (snd (start_enter now1 c1 e b1 x1 h1 w));
         w2 = snd (snd (start_enter now2 c2 e b2 x2 h2 w1)) in
     subscribers w2 (se_hub e) = Suc (ch_max_clients h1))"
proof -
  note a = start_enter_tasks [OF assms(1), of now1 c1 e b1 x1 h1]
  note b = start_enter_tasks [OF a(2), of now2 c2 e b2 x2 h2]
  show ?thesis
    using assms by (simp add: start_check_def Let_def a(1) b(1))
qed

theorem client_limit_can_be_exceeded_witness:
  "\<exists>e. ch_entry (snd (auth_password ''admin'' ''pw'' (handler_new 1 ''a'') demo_world)) = Some e \<and>
    (let h1 = snd (auth_password ''admin'' ''pw'' (handler_new 1 ''a'') demo_world);
         h2 = snd (auth_password ''admin'' ''pw'' (handler_new 1 ''b'') demo_world);
         w1 = snd (snd (start_enter 0 0 e None False h1 demo_world));
         w2 = snd (snd (start_enter 0 0 e None False h2 w1)) in
     start_check 0 h2 demo_world = Inr e \<and> subscribers w2 (se_hub e) = 2)"
proof -
  let ?e = "\<lparr>se_name = ''admin'', se_password = ''pw'', se_hub = 0, se_status = 1, se_cancel = 2,
    se_clients = 3\<rparr>"
  let ?h1 = "snd (auth_password ''admin'' ''pw'' (handler_new 1 ''a'') demo_world)"
  let ?h2 = "snd (auth_password ''admin'' ''pw'' (handler_new 1 ''b'') demo_world)"
  have e: "ch_entry ?h1 = Some ?e" "ch_entry ?h2 = Some ?e" "ch_max_clients ?h1 = Suc 0"
    "ch_max_clients ?h2 = Suc 0"
    by (simp_all add: auth_password_def demo_auth handler_new_def)
  have w: "tasks_ok demo_world" "subscribers demo_world (se_hub ?e) = 0"
    by (simp_all add: tasks_ok_def subscribers_def demo_world_def hm_values_def)
  show ?thesis
    using client_limit_can_be_exceeded [OF w e(3,4,1,2), of 0 0 0 None False 0 None False] e
    by (intro exI [of _ ?e]) (simp add: Let_def)
qed

subsection \<open>The client's record\<close>

lemma registry_of_set [simp]: "registry_of (set_registry c g w) c' = (if c' = c then g else registry_of w c')"
  by (simp add: registry_of_def set_registry_def hm_get_insert)

lemma registry_of_frame [simp]:
  "registry_of (send_to_hub i b w) c = registry_of w c"
  "registry_of (abort_task t w) c = registry_of w c"
  "registry_of (w\<lparr>w_next_task := n, w_tasks := ts\<rparr>) c = registry_of w c"
  by (simp_all add: registry_of_def send_to_hub_def abort_task_def split: option.splits)

lemma start_registry:
  assumes "start_check channel h w = Inr e" and a: "attach now (ch_peer h) (registry_of w (se_clients e)) = (r, g)"
    and s: "start_shell_or_exec now channel initial is_exec h w = (rs, h1, w1)"
  shows "ch_client_rec h1 = Some (cr_id r)" "ch_entry h1 = Some e"
    "ch_forward_task h1 = Some (w_next_task w)"
    "hm_get (w_tasks w1) (w_next_task w) = Some \<lparr>ft_hub = se_hub e, ft_client = cr_id r,
       ft_registry = se_clients e, ft_channel = channel, ft_is_exec = is_exec, ft_aborted = False\<rparr>"
    "registry_of w1 (se_clients e) =
       (case initial of None \<Rightarrow> g | Some b \<Rightarrow> count_in (cr_id r) (length b) g)"
    "rs = [ChannelSuccess channel]"
proof -
  have e: "ch_entry h = Some e" using assms(1) by (auto simp: start_check_def split: option.splits if_splits)
  have se: "start_enter now channel e initial is_exec h w = (rs, h1, w1)"
    using s assms(1) by (simp add: start_shell_or_exec_def)
  note d = se [unfolded start_enter_def Let_def a prod.case]
  show "ch_client_rec h1 = Some (cr_id r)" using d by auto
  show "ch_entry h1 = Some e" using d e by auto
  show "ch_forward_task h1 = Some (w_next_task w)"
    using d by (cases initial) (auto simp: set_registry_def send_to_hub_def)
  show "hm_get (w_tasks w1) (w_next_task w) = Some \<lparr>ft_hub = se_hub e, ft_client = cr_id r,
       ft_registry = se_clients e, ft_channel = channel, ft_is_exec = is_exec, ft_aborted = False\<rparr>"
    using d by (cases initial) (auto simp: set_registry_def send_to_hub_def hm_get_insert)
  show "registry_of w1 (se_clients e) =
       (case initial of None \<Rightarrow> g | Some b \<Rightarrow> count_in (cr_id r) (length b) g)"
    using d by (cases initial) auto
  show "rs = [ChannelSuccess channel]" using d by auto
qed

lemma count_in_get:
  "reg_get (count_in i n g) j =
     (if j = i then map_option (\<lambda>r. r\<lparr>cr_bytes_in := cr_bytes_in r + of_nat n\<rparr>) (reg_get g i) else reg_get g j)"
  by (simp add: reg_get_def count_in_def hm_get_modify)

lemma started_record:
  assumes chk: "start_check channel h w = Inr e"
    and ok: "reg_ok (registry_of w (se_clients e))" and room: "reg_room (registry_of w (se_clients e))"
    and s: "start_shell_or_exec now channel initial is_exec h w = (rs, h1, w1)"
  obtains r g where "attach now (ch_peer h) (registry_of w (se_clients e)) = (r, g)"
    "ch_client_rec h1 = Some (cr_id r)" "ch_entry h1 = Some e"
    "reg_get (registry_of w (se_clients e)) (cr_id r) = None"
    "\<exists>r'. reg_get (registry_of w1 (se_clients e)) (cr_id r) = Some r' \<and> cr_remote r' = ch_peer h \<and>
       cr_connected_at r' = now \<and>
       cr_bytes_in r' = of_nat (case initial of None \<Rightarrow> 0 | Some b \<Rightarrow> length b)"
    "\<And>i. i \<noteq> cr_id r \<Longrightarrow> reg_get (registry_of w1 (se_clients e)) i = reg_get (registry_of w (se_clients e)) i"
proof -
  obtain r g where a: "attach now (ch_peer h) (registry_of w (se_clients e)) = (r, g)" by force
  note st = start_registry [OF chk a s]
  have fresh: "reg_get (registry_of w (se_clients e)) (cr_id r) = None"
    by (rule clients.attach_fresh [OF ok room a])
  have view: "reg_get g i = (if i = cr_id r then Some r else reg_get (registry_of w (se_clients e)) i)" for i
    by (rule clients.view_attach [OF a])
  have r: "cr_remote r = ch_peer h" "cr_connected_at r = now" "cr_bytes_in r = 0"
    using a by (auto simp: attach_def Let_def)
  show ?thesis
    by (rule that [OF a st(1,2) fresh]) (cases initial; simp add: st(5) count_in_get view r)+
qed

lemma record_listed:
  assumes "start_check channel h w = Inr e"
    and "reg_ok (registry_of w (se_clients e))" and "reg_room (registry_of w (se_clients e))"
    and "start_shell_or_exec now channel initial is_exec h w = (rs, h1, w1)"
  shows "\<exists>i r. ch_client_rec h1 = Some i \<and> reg_get (registry_of w (se_clients e)) i = None \<and>
      reg_get (registry_of w1 (se_clients e)) = (reg_get (registry_of w (se_clients e)))(i \<mapsto> r) \<and>
      cr_remote r = ch_peer h \<and> cr_connected_at r = now \<and>
      cr_bytes_in r = of_nat (case initial of None \<Rightarrow> 0 | Some b \<Rightarrow> length b)"
proof (rule started_record [OF assms])
  fix r g
  assume r: "ch_client_rec h1 = Some (cr_id r)"
      "reg_get (registry_of w (se_clients e)) (cr_id r) = None"
    and ex: "\<exists>r'. reg_get (registry_of w1 (se_clients e)) (cr_id r) = Some r' \<and> cr_remote r' = ch_peer h \<and>
      cr_connected_at r' = now \<and>
      cr_bytes_in r' = of_nat (case initial of None \<Rightarrow> 0 | Some b \<Rightarrow> length b)"
    and others: "\<And>i. i \<noteq> cr_id r \<Longrightarrow>
      reg_get (registry_of w1 (se_clients e)) i = reg_get (registry_of w (se_clients e)) i"
  from ex obtain r' where r': "reg_get (registry_of w1 (se_clients e)) (cr_id r) = Some r'"
      "cr_remote r' = ch_peer h" "cr_connected_at r' = now"
      "cr_bytes_in r' = of_nat (case initial of None \<Rightarrow> 0 | Some b \<Rightarrow> length b)" by blast
  have "reg_get (registry_of w1 (se_clients e)) = (reg_get (registry_of w (se_clients e)))(cr_id r \<mapsto> r')"
    using r'(1) others by (auto simp: fun_eq_iff)
  with r r' show ?thesis by blast
qed

lemma close_detaches:
  assumes "ch_client_rec h = Some i" and "ch_entry h = Some e" and "ch_forward_task h = Some t"
    and "hm_get (w_tasks w) t = Some f"
  shows "\<exists>w2. channel_close h w = (h\<lparr>ch_forward_task := None, ch_client_rec := None\<rparr>, w2) \<and>
    reg_get (registry_of w2 (se_clients e)) = (reg_get (registry_of w (se_clients e)))(i := None) \<and>
    hm_get (w_tasks w2) t = Some (f\<lparr>ft_aborted := True\<rparr>)"
  using assms
  by (auto simp: channel_close_def detach_client_def clients.view_detach fun_eq_iff set_registry_def
      abort_task_def hm_get_modify registry_of_def hm_get_insert)

lemma start_task:
  assumes "start_check channel h w = Inr e"
    and "start_shell_or_exec now channel initial is_exec h w = (rs, h1, w1)"
  shows "ch_entry h1 = Some e" "\<exists>t f. ch_forward_task h1 = Some t \<and> hm_get (w_tasks w1) t = Some f"
proof -
  obtain r g where a: "attach now (ch_peer h) (registry_of w (se_clients e)) = (r, g)" by force
  note st = start_registry [OF assms(1) a assms(2)]
  show "ch_entry h1 = Some e" by (rule st(2))
  show "\<exists>t f. ch_forward_task h1 = Some t \<and> hm_get (w_tasks w1) t = Some f" using st(3,4) by blast
qed

definition demo_entry :: SessionEntry where
  "demo_entry = \<lparr>se_name = ''admin'', se_password = ''pw'', se_hub = 0, se_status = 1, se_cancel = 2,
     se_clients = 3\<rparr>"

definition demo_client :: ClientHandler where
  "demo_client = snd (auth_password ''admin'' ''pw'' (handler_new 16 ''1.2.3.4:5'') demo_world)"

lemma demo_registry: "registry_of demo_world (se_clients demo_entry) = registry_default"
  by (simp add: registry_of_def demo_world_def demo_entry_def)

lemma demo_registry_ok:
  "reg_ok (registry_of demo_world (se_clients demo_entry))"
  "reg_room (registry_of demo_world (se_clients demo_entry))"
  unfolding demo_registry by (rule reg_ok_default) (simp add: reg_room_def registry_default_def)

lemma demo_check: "start_check 0 demo_client demo_world = Inr demo_entry"
proof -
  have "subscribers demo_world 0 = 0" by (simp add: subscribers_def demo_world_def hm_values_def)
  then show ?thesis
    by (simp add: start_check_def demo_client_def auth_password_def demo_auth handler_new_def demo_entry_def)
qed

text \<open>
  C24. A client is listed exactly while its channel is open. A shell or command that gets past the
  checks lists one new client under an id nobody has, with the peer's address, the time and the
  bytes of the command, and changes no other client's record; when its channel closes, the
  registry is again what it was before, the forward task has been told to stop, and the handler
  holds neither.
\<close>
theorem client_listed_while_open:
  assumes "start_check channel h w = Inr e"
    and "reg_ok (registry_of w (se_clients e))" and "reg_room (registry_of w (se_clients e))"
    and "start_shell_or_exec now channel initial is_exec h w = (rs, h1, w1)"
    and "channel_close h1 w1 = (h2, w2)"
  shows "(\<exists>i r. ch_client_rec h1 = Some i \<and> reg_get (registry_of w (se_clients e)) i = None \<and>
      reg_get (registry_of w1 (se_clients e)) = (reg_get (registry_of w (se_clients e)))(i \<mapsto> r) \<and>
      cr_remote r = ch_peer h \<and> cr_connected_at r = now \<and>
      cr_bytes_in r = of_nat (case initial of None \<Rightarrow> 0 | Some b \<Rightarrow> length b)) \<and>
    reg_get (registry_of w2 (se_clients e)) = reg_get (registry_of w (se_clients e)) \<and>
    h2 = h1\<lparr>ch_forward_task := None, ch_client_rec := None\<rparr> \<and>
    (\<exists>t f. ch_forward_task h1 = Some t \<and> hm_get (w_tasks w2) t = Some f \<and> ft_aborted f)"
proof -
  obtain i r where 1: "ch_client_rec h1 = Some i" "reg_get (registry_of w (se_clients e)) i = None"
      "reg_get (registry_of w1 (se_clients e)) = (reg_get (registry_of w (se_clients e)))(i \<mapsto> r)"
      "cr_remote r = ch_peer h" "cr_connected_at r = now"
      "cr_bytes_in r = of_nat (case initial of None \<Rightarrow> 0 | Some b \<Rightarrow> length b)"
    using record_listed [OF assms(1-4)] by blast
  obtain t f where t: "ch_forward_task h1 = Some t" "hm_get (w_tasks w1) t = Some f"
    using start_task(2) [OF assms(1,4)] by blast
  have 2: "h2 = h1\<lparr>ch_forward_task := None, ch_client_rec := None\<rparr>"
      "reg_get (registry_of w2 (se_clients e)) = (reg_get (registry_of w1 (se_clients e)))(i := None)"
      "hm_get (w_tasks w2) t = Some (f\<lparr>ft_aborted := True\<rparr>)"
    using close_detaches [OF 1(1) start_task(1) [OF assms(1,4)] t] assms(5) by auto
  have "reg_get (registry_of w2 (se_clients e)) = reg_get (registry_of w (se_clients e))"
    unfolding 2(2) 1(3) using 1(2) by (simp add: fun_eq_iff)
  then show ?thesis using 1 2(1,3) t(1) by auto
qed

text \<open>The command \<open>ls\<close> on an open table, and its channel closed again.\<close>
theorem client_listed_while_open_witness:
  "let (rs, h1, w1) = exec_request 7 0 [108, 115] demo_client demo_world;
       (h2, w2) = channel_close h1 w1 in
   reg_get (registry_of w1 3) 1 \<noteq> None \<and> reg_get (registry_of w2 3) = reg_get registry_default \<and>
   ch_client_rec h2 = None"
proof -
  obtain rs h1 w1 where s: "start_shell_or_exec 7 0 (exec_input [108, 115]) True demo_client demo_world = (rs, h1, w1)"
    by (metis prod_cases3)
  obtain h2 w2 where c: "channel_close h1 w1 = (h2, w2)" by force
  note g = demo_registry and chk = demo_check and ok = demo_registry_ok
  have one: "ch_client_rec h1 = Some 1"
    using start_registry(1) [OF chk _ s] by (simp add: g) (simp add: attach_def registry_default_def Let_def)
  show ?thesis
    using client_listed_while_open [OF chk ok s c] one g
    by (auto simp: exec_request_def s c Let_def demo_entry_def)
qed

text \<open>
  C40. A connection that ends without a close of its channel leaves its client listed. Dropping the
  handler aborts the forward task, but only the requests \<open>channel_eof\<close> and \<open>channel_close\<close> take
  the record out of the registry: a dropped connection stays in the list of clients.
\<close>
theorem dropped_client_stays_listed:
  assumes "start_check channel h w = Inr e"
    and "reg_ok (registry_of w (se_clients e))" and "reg_room (registry_of w (se_clients e))"
    and "start_shell_or_exec now channel initial is_exec h w = (rs, h1, w1)"
  shows "\<exists>i t f. ch_client_rec h1 = Some i \<and>
    reg_get (registry_of (handler_drop h1 w1) (se_clients e)) i \<noteq> None \<and>
    ch_forward_task h1 = Some t \<and> hm_get (w_tasks (handler_drop h1 w1)) t = Some f \<and> ft_aborted f"
proof -
  obtain i r where 1: "ch_client_rec h1 = Some i"
      "reg_get (registry_of w1 (se_clients e)) = (reg_get (registry_of w (se_clients e)))(i \<mapsto> r)"
    using record_listed [OF assms] by blast
  obtain t f where t: "ch_forward_task h1 = Some t" "hm_get (w_tasks w1) t = Some f"
    using start_task(2) [OF assms(1,4)] by blast
  from 1 t show ?thesis
    by (auto simp: handler_drop_def) (auto simp: abort_task_def hm_get_modify)
qed

theorem dropped_client_stays_listed_witness:
  "\<exists>h1 w1 i. exec_request 7 0 [108, 115] demo_client demo_world =
      ([ChannelSuccess 0], h1, w1) \<and>
    reg_get (registry_of (handler_drop h1 w1) 3) i \<noteq> None"
proof -
  obtain rs h1 w1 where s: "start_shell_or_exec 7 0 (exec_input [108, 115]) True demo_client demo_world = (rs, h1, w1)"
    by (metis prod_cases3)
  note g = demo_registry and chk = demo_check and ok = demo_registry_ok
  obtain r g' where a: "attach 7 (ch_peer demo_client) (registry_of demo_world (se_clients demo_entry)) = (r, g')" by force
  show ?thesis
    using dropped_client_stays_listed [OF chk ok s] start_registry(6) [OF chk a s]
    by (auto simp: exec_request_def s demo_entry_def)
qed

end
