(* ===== verification/Sshd_Server.thy ===== *)
theory Sshd_Server
  imports Sshd
begin

text \<open>
  The SSH server of a session, \<open>crates/termhub-sshd/src/server.rs\<close>: binding, and the accept loop that
  makes a handler for each connection. The defaults of \<open>russh\<close>'s own configuration are an argument,
  and its protocol on an accepted connection is not part of the source.
\<close>

record 'key sshd_config =
  sshd_listen :: string
  sshd_host_keys :: "'key list"
  sshd_max_clients :: nat

subsection \<open>The configuration of the protocol\<close>

text \<open>The names of \<open>russh\<close> for key exchanges and for signatures with a host key.\<close>

datatype kex_name =
    CURVE25519
  | CURVE25519_PRE_RFC_8731
  | ECDH_SHA2_NISTP256
  | DH_G16_SHA512
  | DH_G14_SHA256
  | DH_G14_SHA1
  | EXTENSION_SUPPORT_AS_CLIENT
  | EXTENSION_SUPPORT_AS_SERVER
  | EXTENSION_OPENSSH_STRICT_KEX_AS_CLIENT
  | EXTENSION_OPENSSH_STRICT_KEX_AS_SERVER

datatype key_name =
    ED25519
  | ECDSA_SHA2_NISTP256
  | ECDSA_SHA2_NISTP521
  | RSA_SHA2_512
  | RSA_SHA2_256
  | SSH_RSA

text \<open>\<open>'l\<close> are the lists of the library that are taken over, \<open>'d\<close> its other settings.\<close>

record ('key, 'l, 'd) russh_config =
  ru_keys :: "'key list"
  ru_kex :: "kex_name list"
  ru_key :: "key_name list"
  ru_cipher :: 'l
  ru_mac :: 'l
  ru_compression :: 'l
  ru_rest :: 'd

definition russh_cfg :: "('key, 'l, 'd) russh_config \<Rightarrow> 'key sshd_config \<Rightarrow> ('key, 'l, 'd) russh_config" where
  "russh_cfg dflt cfg =
     \<lparr>ru_keys = sshd_host_keys cfg,
      ru_kex =
        [CURVE25519, CURVE25519_PRE_RFC_8731, ECDH_SHA2_NISTP256, DH_G16_SHA512, DH_G14_SHA256, DH_G14_SHA1,
         EXTENSION_SUPPORT_AS_CLIENT, EXTENSION_SUPPORT_AS_SERVER,
         EXTENSION_OPENSSH_STRICT_KEX_AS_CLIENT, EXTENSION_OPENSSH_STRICT_KEX_AS_SERVER],
      ru_key = [ED25519, ECDSA_SHA2_NISTP256, ECDSA_SHA2_NISTP521, RSA_SHA2_512, RSA_SHA2_256, SSH_RSA],
      ru_cipher = ru_cipher dflt, ru_mac = ru_mac dflt, ru_compression = ru_compression dflt,
      ru_rest = ru_rest dflt\<rparr>"

subsection \<open>Connections\<close>

text \<open>\<open>new_client\<close> is given the peer's address where it is known.\<close>

definition new_client :: "'key sshd_config \<Rightarrow> string option \<Rightarrow> ClientHandler" where
  "new_client cfg peer_addr =
     handler_new (sshd_max_clients cfg) (case peer_addr of Some p \<Rightarrow> p | None \<Rightarrow> ''?'')"

datatype accept_step = AcceptCancelled | AcceptGot "string + string"

text \<open>The handlers of the accepted connections, and whether the loop has ended.\<close>

fun accept_loop :: "'key sshd_config \<Rightarrow> accept_step list \<Rightarrow> ClientHandler list \<times> bool" where
  "accept_loop cfg [] = ([], False)"
| "accept_loop cfg (AcceptCancelled # xs) = ([], True)"
| "accept_loop cfg (AcceptGot (Inl e) # xs) = accept_loop cfg xs"
| "accept_loop cfg (AcceptGot (Inr peer) # xs) =
     (let (hs, ended) = accept_loop cfg xs in (new_client cfg (Some peer) # hs, ended))"

text \<open>
  \<open>start\<close>: the results of \<open>bind\<close> and \<open>local_addr\<close>; the loop is spawned only after both, and the bound
  address is returned. Each connection is run with the configuration and a handler of its own.
\<close>

definition server_start :: "('key, 'l, 'd) russh_config \<Rightarrow> string option \<Rightarrow> string + string \<Rightarrow> 'key sshd_config
    \<Rightarrow> accept_step list \<Rightarrow> (string + string) \<times> (('key, 'l, 'd) russh_config \<times> ClientHandler) list" where
  "server_start dflt bind_err addr cfg xs =
     (case bind_err of
        Some e \<Rightarrow> (Inl e, [])
      | None \<Rightarrow>
          (case addr of
             Inl e \<Rightarrow> (Inl e, [])
           | Inr a \<Rightarrow> (Inr a, map (Pair (russh_cfg dflt cfg)) (fst (accept_loop cfg xs)))))"

text \<open>The peers accepted before the first cancellation.\<close>

fun accepted_peers :: "accept_step list \<Rightarrow> string list" where
  "accepted_peers [] = []"
| "accepted_peers (AcceptCancelled # xs) = []"
| "accepted_peers (AcceptGot (Inl e) # xs) = accepted_peers xs"
| "accepted_peers (AcceptGot (Inr p) # xs) = p # accepted_peers xs"

text \<open>
  Every accepted connection gets a handler of its own that has not been let in and carries the
  configured limit; a failed \<open>accept\<close> is skipped, and only a cancellation ends the loop.
\<close>

lemma accept_loop_handlers:
  "accept_loop cfg xs =
     (map (handler_new (sshd_max_clients cfg)) (accepted_peers xs), AcceptCancelled \<in> set xs)"
  by (induction cfg xs rule: accept_loop.induct) (simp_all add: new_client_def)

lemma accept_loop_outside: "list_all outside (fst (accept_loop cfg xs))"
  by (simp add: accept_loop_handlers list_all_iff outside_def handler_new_def)

end
