(* ===== verification/Host_Key.thy ===== *)
theory Host_Key
  imports Persist
begin

text \<open>
  The host keys, \<open>crates/termhub-app/src/hostkey.rs\<close>: two key files beside the configured path, read
  where they exist and otherwise generated and written. A directory is a map from paths to
  contents, as for the configuration; \<open>russh-keys\<close> (PEM encoding and decoding, generation), SHA-256
  and Base64 are parameters, and the outcomes of the system calls are inputs.
\<close>

subsection \<open>Paths\<close>

text \<open>
  \<open>Path::with_extension\<close>: the last component, without what follows its last dot (a leading dot is
  no extension), gets the new extension. A path without a last component is left as it is.
  (The configured path is taken to end in a component: no trailing separator.)
\<close>

definition last_component :: "string \<Rightarrow> string" where
  "last_component p = rev (takeWhile (\<lambda>c. c \<noteq> CHR ''/'') (rev p))"

definition parent_part :: "string \<Rightarrow> string" where
  "parent_part p = rev (dropWhile (\<lambda>c. c \<noteq> CHR ''/'') (rev p))"

definition file_stem :: "string \<Rightarrow> string" where
  "file_stem f =
     (let r = dropWhile (\<lambda>c. c \<noteq> CHR ''.'') (rev f) in
      if r = [] \<or> tl r = [] then f else rev (tl r))"

definition with_extension :: "string \<Rightarrow> string \<Rightarrow> string" where
  "with_extension p ext =
     (let f = last_component p in
      if f = [] \<or> f = ''.'' \<or> f = ''..'' then p else parent_part p @ file_stem f @ ''.'' @ ext)"

lemma parent_last [simp]: "parent_part p @ last_component p = p"
proof -
  have "rev (parent_part p @ last_component p) = rev p"
    by (simp add: parent_part_def last_component_def)
  then show ?thesis by (simp only: rev_is_rev_conv)
qed

lemma with_extension_inj:
  "with_extension p a = with_extension p b \<Longrightarrow> a \<noteq> b \<Longrightarrow>
   last_component p \<in> {[], ''.'', ''..''}"
  by (auto simp: with_extension_def Let_def split: if_splits)

subsection \<open>Loading or creating\<close>

text \<open>
  The key library: decoding a PEM text, encoding a key, and the two generators, which may fail.
\<close>

record 'key key_lib =
  kl_decode :: "string \<Rightarrow> string + 'key"
  kl_encode :: "'key \<Rightarrow> string + bytes"
  kl_gen_ed25519 :: "'key option"
  kl_gen_rsa :: "'key option"

text \<open>The outcomes of the system calls for one file.\<close>

record key_calls =
  kc_read_err :: "string option"
  kc_mkdir_err :: "string option"
  kc_write :: write_outcome

definition write_file :: "write_outcome \<Rightarrow> string \<Rightarrow> bytes \<Rightarrow> directory \<Rightarrow> (string + unit) \<times> directory" where
  "write_file o' path b dir =
     (case o' of
        OpenFailed e \<Rightarrow> (Inl e, dir)
      | WriteFailed e n \<Rightarrow> (Inl e, hm_insert path (take n b) dir)
      | WriteOk \<Rightarrow> (Inr (), hm_insert path b dir))"

text \<open>
  The branch of one key: \<open>gen\<close> is the generator's result, \<open>msg\<close> its error. (The parent directory is
  created before the file is written; directories are not part of the map.)
\<close>

definition load_key :: "'key key_lib \<Rightarrow> key_calls \<Rightarrow> 'key option \<Rightarrow> string \<Rightarrow> string \<Rightarrow> directory
    \<Rightarrow> (string + 'key) \<times> directory" where
  "load_key kl os gen msg path dir =
     (case hm_get dir path of
        Some content \<Rightarrow>
          (case kc_read_err os of
             Some e \<Rightarrow> (Inl e, dir)
           | None \<Rightarrow> (rbind (from_utf8 content) (kl_decode kl), dir))
      | None \<Rightarrow>
          (case gen of
             None \<Rightarrow> (Inl msg, dir)
           | Some kp \<Rightarrow>
               (case kl_encode kl kp of
                  Inl e \<Rightarrow> (Inl e, dir)
                | Inr buf \<Rightarrow>
                    (case kc_mkdir_err os of
                       Some e \<Rightarrow> (Inl e, dir)
                     | None \<Rightarrow>
                         (case write_file (kc_write os) path buf dir of
                            (Inl e, dir) \<Rightarrow> (Inl e, dir)
                          | (Inr _, dir) \<Rightarrow> (Inr kp, dir))))))"

definition load_or_create :: "'key key_lib \<Rightarrow> key_calls \<Rightarrow> key_calls \<Rightarrow> string \<Rightarrow> directory
    \<Rightarrow> (string + 'key list) \<times> directory" where
  "load_or_create kl os1 os2 path dir =
     (case load_key kl os1 (kl_gen_ed25519 kl) ''gen ed25519 failed'' (with_extension path ''ed25519'') dir of
        (Inl e, dir) \<Rightarrow> (Inl e, dir)
      | (Inr ed, dir) \<Rightarrow>
          (case load_key kl os2 (kl_gen_rsa kl) ''gen rsa failed'' (with_extension path ''rsa'') dir of
             (Inl e, dir) \<Rightarrow> (Inl e, dir)
           | (Inr rsa, dir) \<Rightarrow> (Inr [ed, rsa], dir)))"

text \<open>The fingerprint shown to the user: \<open>digest\<close> is SHA-256, \<open>b64\<close> the encoder without padding.\<close>

definition fingerprint :: "'key key_lib \<Rightarrow> (bytes \<Rightarrow> bytes) \<Rightarrow> (bytes \<Rightarrow> string) \<Rightarrow> 'key \<Rightarrow> string + string" where
  "fingerprint kl digest b64 kp =
     rbind (kl_encode kl kp) (\<lambda>buf. Inr (''SHA256:'' @ b64 (digest buf)))"

subsection \<open>Stability\<close>

text \<open>What the two runs share of the key library: reading and writing keys, not the generators.\<close>

definition same_format :: "'key key_lib \<Rightarrow> 'key key_lib \<Rightarrow> bool" where
  "same_format kl kl' \<longleftrightarrow> kl_decode kl' = kl_decode kl \<and> kl_encode kl' = kl_encode kl"

text \<open>A key that has been encoded is decoded to the same key.\<close>

definition key_roundtrip :: "'key key_lib \<Rightarrow> bool" where
  "key_roundtrip kl \<longleftrightarrow> (\<forall>kp buf. kl_encode kl kp = Inr buf \<longrightarrow>
     utf8_valid buf \<and> kl_decode kl (bytes_string buf) = Inr kp)"

lemma from_utf8_valid: "utf8_valid buf \<Longrightarrow> from_utf8 buf = Inr (bytes_string buf)"
  by (simp add: from_utf8_def)

lemma load_key_keeps:
  "load_key kl os gen msg path dir = (r, dir') \<Longrightarrow> hm_get dir q = Some b \<Longrightarrow> hm_get dir' q = Some b"
  by (cases "kc_write os")
    (auto simp: load_key_def write_file_def hmap_simps split: option.splits sum.splits if_splits)

lemma load_key_again:
  assumes "load_key kl os gen msg path dir = (Inr kp, dir')" and "key_roundtrip kl"
    and "hm_get dir'' path = hm_get dir' path" and "same_format kl kl'" and "kc_read_err os' = None"
  shows "load_key kl' os' gen' msg path dir'' = (Inr kp, dir'')"
proof (cases "hm_get dir path")
  case (Some content)
  then have "dir' = dir" "rbind (from_utf8 content) (kl_decode kl) = Inr kp"
    using assms(1) by (auto simp: load_key_def split: option.splits)
  then show ?thesis using Some assms(3-5) by (simp add: load_key_def same_format_def)
next
  case None
  then obtain buf where b: "kl_encode kl kp = Inr buf" "dir' = hm_insert path buf dir"
    using assms(1)
    by (cases "kc_write os")
      (auto simp: load_key_def write_file_def split: option.splits sum.splits)
  then have "hm_get dir'' path = Some buf" using assms(3) by (simp add: hmap_simps)
  moreover have "utf8_valid buf" "kl_decode kl (bytes_string buf) = Inr kp"
    using assms(2) b(1) by (auto simp: key_roundtrip_def)
  ultimately show ?thesis
    using assms(4,5) by (simp add: load_key_def same_format_def from_utf8_valid)
qed

lemma load_or_create_keeps:
  assumes "load_or_create kl os1 os2 path dir = (r, dir')" and "hm_get dir q = Some b"
  shows "hm_get dir' q = Some b"
proof -
  obtain r1 d1 where 1: "load_key kl os1 (kl_gen_ed25519 kl) ''gen ed25519 failed''
      (with_extension path ''ed25519'') dir = (r1, d1)" by force
  obtain r2 d2 where 2: "load_key kl os2 (kl_gen_rsa kl) ''gen rsa failed''
      (with_extension path ''rsa'') d1 = (r2, d2)" by force
  note k1 = load_key_keeps [OF 1 assms(2)]
  show ?thesis
    using assms(1) k1 load_key_keeps [OF 2 k1] unfolding load_or_create_def 1
    by (cases r1; cases r2) (auto simp: 2)
qed

text \<open>After a success both files are there, and a later success has read both.\<close>

lemma load_key_file: "load_key kl os gen msg path dir = (Inr kp, dir') \<Longrightarrow> hm_get dir' path \<noteq> None"
  by (cases "kc_write os")
    (auto simp: load_key_def write_file_def hmap_simps split: option.splits sum.splits)

lemma load_or_create_files:
  assumes "load_or_create kl os1 os2 path dir = (Inr ks, dir')"
  shows "hm_get dir' (with_extension path ''ed25519'') \<noteq> None" "hm_get dir' (with_extension path ''rsa'') \<noteq> None"
proof -
  obtain r1 d1 where 1: "load_key kl os1 (kl_gen_ed25519 kl) ''gen ed25519 failed''
      (with_extension path ''ed25519'') dir = (r1, d1)" by force
  then obtain ed where ed: "r1 = Inr ed" using assms by (cases r1) (auto simp: load_or_create_def)
  obtain rsa where 2: "load_key kl os2 (kl_gen_rsa kl) ''gen rsa failed''
      (with_extension path ''rsa'') d1 = (Inr rsa, dir')"
    using assms by (auto simp: load_or_create_def 1 ed split: prod.splits sum.splits)
  show "hm_get dir' (with_extension path ''rsa'') \<noteq> None" by (rule load_key_file [OF 2])
  show "hm_get dir' (with_extension path ''ed25519'') \<noteq> None"
    using load_key_file [OF 1 [unfolded ed]] load_key_keeps [OF 2] by fastforce
qed

lemma load_or_create_reads:
  assumes "load_or_create kl os1 os2 path dir = (Inr ks, dir')"
    and "hm_get dir (with_extension path ''ed25519'') \<noteq> None" "hm_get dir (with_extension path ''rsa'') \<noteq> None"
  shows "kc_read_err os1 = None" "kc_read_err os2 = None"
  using assms
  by (auto simp: load_or_create_def load_key_def split: option.splits prod.splits sum.splits)

text \<open>
  Once the host keys have been loaded or created, a later start that finds the two files as they
  were left has the same two keys, whatever its generators would give, and changes no file.
\<close>

lemma load_or_create_again:
  assumes rt: "key_roundtrip kl" and fmt: "same_format kl kl'"
    and run: "load_or_create kl os1 os2 path dir = (Inr ks, dir')"
    and reads: "kc_read_err os1' = None" "kc_read_err os2' = None"
    and kept: "hm_get dir'' (with_extension path ''ed25519'') = hm_get dir' (with_extension path ''ed25519'')"
      "hm_get dir'' (with_extension path ''rsa'') = hm_get dir' (with_extension path ''rsa'')"
  shows "load_or_create kl' os1' os2' path dir'' = (Inr ks, dir'')"
proof -
  obtain r1 d1 where 1: "load_key kl os1 (kl_gen_ed25519 kl) ''gen ed25519 failed''
      (with_extension path ''ed25519'') dir = (r1, d1)" by force
  then obtain ed where ed: "r1 = Inr ed" using run by (cases r1) (auto simp: load_or_create_def)
  obtain r2 where 2: "load_key kl os2 (kl_gen_rsa kl) ''gen rsa failed''
      (with_extension path ''rsa'') d1 = (r2, dir')"
    using run by (auto simp: load_or_create_def 1 ed split: prod.splits sum.splits)
  then obtain rsa where rsa: "r2 = Inr rsa" "ks = [ed, rsa]"
    using run by (cases r2) (auto simp: load_or_create_def 1 ed)
  have "hm_get d1 (with_extension path ''ed25519'') \<noteq> None"
    using 1 ed by (cases "kc_write os1")
      (auto simp: load_key_def write_file_def hmap_simps split: option.splits sum.splits)
  then have "hm_get dir' (with_extension path ''ed25519'') = hm_get d1 (with_extension path ''ed25519'')"
    using load_key_keeps [OF 2] by auto
  with kept(1) have "hm_get dir'' (with_extension path ''ed25519'') =
      hm_get d1 (with_extension path ''ed25519'')" by simp
  from load_key_again [OF 1 [unfolded ed] rt this fmt reads(1)]
    load_key_again [OF 2 [unfolded rsa(1)] rt kept(2) fmt reads(2)]
  show ?thesis by (simp add: load_or_create_def rsa)
qed

text \<open>The key files are never those of the configuration.\<close>

lemma with_extension_config:
  "with_extension p ''ed25519'' \<notin> {config_toml, config_toml_tmp}"
  "with_extension p ''rsa'' \<notin> {config_toml, config_toml_tmp}"
proof -
  have "last_component config_toml = ''config.toml''" "last_component config_toml_tmp = ''config.toml.tmp''"
    by code_simp+
  then have p: "p \<notin> {config_toml, config_toml_tmp}" if "last_component p \<in> {[], ''.'', ''..''}"
    using that by auto
  have last: "last (with_extension p ext) = last ext"
    if "last_component p \<notin> {[], ''.'', ''..''}" "ext \<noteq> []" for ext
    using that by (auto simp: with_extension_def Let_def)
  have c: "last config_toml = CHR ''l''" "last config_toml_tmp = CHR ''p''"
    by (simp_all add: config_toml_def config_toml_tmp_def)
  show "with_extension p ''ed25519'' \<notin> {config_toml, config_toml_tmp}"
  proof (cases "last_component p \<in> {[], ''.'', ''..''}")
    case False
    from last [OF this, of "''ed25519''"] c show ?thesis by auto
  qed (use p in \<open>auto simp: with_extension_def\<close>)
  show "with_extension p ''rsa'' \<notin> {config_toml, config_toml_tmp}"
  proof (cases "last_component p \<in> {[], ''.'', ''..''}")
    case False
    from last [OF this, of "''rsa''"] c show ?thesis by auto
  qed (use p in \<open>auto simp: with_extension_def\<close>)
qed

text \<open>
  An instance: keys are letters, their PEM text is the letter.
\<close>

definition letter_keys :: "char \<Rightarrow> char \<Rightarrow> char key_lib" where
  "letter_keys a b =
     \<lparr>kl_decode = (\<lambda>s. case s of [c] \<Rightarrow> Inr c | _ \<Rightarrow> Inl ''bad key''),
      kl_encode = (\<lambda>c. if char_code c < 128 then Inr (as_bytes [c]) else Inl ''bad key''),
      kl_gen_ed25519 = Some a, kl_gen_rsa = Some b\<rparr>"

definition all_well :: key_calls where
  "all_well = \<lparr>kc_read_err = None, kc_mkdir_err = None, kc_write = WriteOk\<rparr>"

lemma letter_roundtrip: "key_roundtrip (letter_keys a b)"
proof -
  have "utf8_valid (as_bytes [c])" if "char_code c < 128" for c
    using that by (intro utf8_valid_ascii) (simp add: as_bytes_def char_code_def)
  then show ?thesis
    by (auto simp: key_roundtrip_def letter_keys_def split: if_splits)
qed

text \<open>
  A key file is not written atomically: a write that fails after \<open>n\<close> bytes leaves them, and every
  later start that finds them fails to decode the key, instead of generating a new one.
\<close>

lemma partial_key_blocks:
  assumes "hm_get dir path = None" and "kl_encode kl kp = Inr buf" and "kc_mkdir_err os = None"
    and "kc_write os = WriteFailed e n"
    and "rbind (from_utf8 (take n buf)) (kl_decode kl) = Inl m" and "kc_read_err os' = None"
  shows "\<exists>dir'. load_key kl os (Some kp) msg path dir = (Inl e, dir') \<and>
    load_key kl os' gen' msg path dir' = (Inl m, dir')"
  using assms by (simp add: load_key_def write_file_def hmap_simps)

lemma load_key_other:
  "load_key kl os gen msg path dir = (r, dir') \<Longrightarrow> q \<noteq> path \<Longrightarrow> hm_get dir' q = hm_get dir q"
  by (cases "kc_write os")
    (auto simp: load_key_def write_file_def hmap_simps split: option.splits sum.splits)

lemma load_or_create_config:
  assumes "load_or_create kl os1 os2 path dir = (r, dir')"
  shows "hm_get dir' config_toml = hm_get dir config_toml"
proof -
  obtain r1 d1 where 1: "load_key kl os1 (kl_gen_ed25519 kl) ''gen ed25519 failed''
      (with_extension path ''ed25519'') dir = (r1, d1)" by force
  obtain r2 d2 where 2: "load_key kl os2 (kl_gen_rsa kl) ''gen rsa failed''
      (with_extension path ''rsa'') d1 = (r2, d2)" by force
  have "hm_get d1 config_toml = hm_get dir config_toml" "hm_get d2 config_toml = hm_get d1 config_toml"
    using load_key_other [OF 1, of config_toml] load_key_other [OF 2, of config_toml] with_extension_config [of path]
    by auto
  then show ?thesis
    using assms unfolding load_or_create_def 1 by (cases r1; cases r2) (auto simp: 2)
qed

end
