(* ===== verification/Boot.thy ===== *)
theory Boot
  imports App_Main Host_Key
begin

text \<open>
  The whole start of the program, \<open>main\<close> in \<open>crates/termhub-app/src/main.rs\<close> up to the window: the
  configuration directory, the stored configuration, the host keys with their fingerprint, and the
  sessions; and what of it lasts from one start to the next. Paths of key files are relative to
  the configuration directory.
\<close>

text \<open>What the outside contributes to one start.\<close>

record boot_env =
  bt_config_dir :: "string option"
  bt_mkdir_err :: "string option"
  bt_logs_err :: "string option"
  bt_read_err :: "string option"
  bt_ed25519 :: key_calls
  bt_rsa :: key_calls
  bt_bind :: "string \<Rightarrow> string option"
  bt_dev :: "(string \<times> u32 option) option"

definition boot :: "'key key_lib \<Rightarrow> (bytes \<Rightarrow> bytes) \<Rightarrow> (bytes \<Rightarrow> string) \<Rightarrow> (string \<Rightarrow> string + string)
    \<Rightarrow> (string \<Rightarrow> string + val) \<Rightarrow> (serde_error \<Rightarrow> string) \<Rightarrow> boot_env \<Rightarrow> directory \<Rightarrow> string + 'key app" where
  "boot kl digest b64 decrypt parse show_err be dir =
     rbind (default_config_dir (bt_config_dir be)) (\<lambda>_.
     (case bt_mkdir_err be of Some e \<Rightarrow> Inl e | None \<Rightarrow>
     (case bt_logs_err be of Some e \<Rightarrow> Inl e | None \<Rightarrow>
     rbind (load_or_default decrypt parse show_err (bt_read_err be) dir) (\<lambda>stored.
     (case load_or_create kl (bt_ed25519 be) (bt_rsa be) (sv_host_key_path (cf_server stored)) dir of
        (Inl e, _) \<Rightarrow> Inl e
      | (Inr keys, dir) \<Rightarrow>
          rbind (fingerprint kl digest b64 (hd keys)) (\<lambda>fpr.
          (case startup (bt_bind be) keys fpr (bt_dev be) dir stored of
             (Inl e, _) \<Rightarrow> Inl e
           | (Inr _, w) \<Rightarrow> Inr w)))))))"

subsection \<open>What a start leaves alone\<close>

lemma create_regular_frame:
  "config_dir (snd (create_regular b cfg w)) = config_dir w"
  "host_key_fpr (snd (create_regular b cfg w)) = host_key_fpr w"
  "host_keys (snd (create_regular b cfg w)) = host_keys w"
  by (cases "normalize_name (sc_ssh_user cfg)"; cases b;
    simp add: create_regular_def allocation hm_get_insert register_new)+

lemma start_one_frame:
  "config_dir (snd (start_one bind s w)) = config_dir w"
  "host_key_fpr (snd (start_one bind s w)) = host_key_fpr w"
  "host_keys (snd (start_one bind s w)) = host_keys w"
  using create_regular_frame [of "bind (sc_listen s)" s w]
  by (auto simp: start_one_def start_proxy_def allocation split: UpstreamSpec.splits prod.splits sum.splits)

lemma start_all_frame:
  "config_dir (snd (start_all bind ss w)) = config_dir w \<and>
   host_key_fpr (snd (start_all bind ss w)) = host_key_fpr w \<and>
   host_keys (snd (start_all bind ss w)) = host_keys w"
proof (induction ss arbitrary: w)
  case (Cons s ss)
  obtain r w1 where s: "start_one bind s w = (r, w1)" by force
  then show ?case
    using start_one_frame [of bind s w] Cons.IH [of w1] by (cases r) simp_all
qed simp

lemma startup_frame:
  assumes "startup bind keys fpr dev dir stored = (r, w)"
  shows "config_dir w = dir" "host_key_fpr w = fpr" "host_keys w = keys"
proof -
  let ?w = "app_new keys fpr dir (sv_max_clients_per_session (cf_server stored)) (sv_api_listen (cf_server stored))"
  let ?frame = "\<lambda>w. config_dir w = dir \<and> host_key_fpr w = fpr \<and> host_keys w = keys"
  obtain r1 w1 where 1: "start_all bind (cf_sessions stored) ?w = (r1, w1)" by force
  have f: "?frame w1"
    using start_all_frame [of bind "cf_sessions stored" ?w, unfolded 1] by (simp add: app_new_def)
  have "start_one bind s w1 = (r, w) \<Longrightarrow> ?frame w" for s
    using start_one_frame [of bind s w1] f by simp
  then have "?frame w"
    using assms f by (auto simp: startup_def Let_def 1 split: sum.splits option.splits)
  then show "config_dir w = dir" "host_key_fpr w = fpr" "host_keys w = keys" by simp_all
qed

text \<open>The parts of a successful start.\<close>

lemma boot_Inr:
  assumes "boot kl digest b64 decrypt parse show_err be dir = Inr w"
  obtains stored ks where
    "load_or_default decrypt parse show_err (bt_read_err be) dir = Inr stored"
    "load_or_create kl (bt_ed25519 be) (bt_rsa be) (sv_host_key_path (cf_server stored)) dir =
       (Inr ks, config_dir w)"
    "fingerprint kl digest b64 (hd ks) = Inr (host_key_fpr w)" "host_keys w = ks"
proof -
  from assms obtain stored where 1: "load_or_default decrypt parse show_err (bt_read_err be) dir = Inr stored"
    and r: "(case load_or_create kl (bt_ed25519 be) (bt_rsa be) (sv_host_key_path (cf_server stored)) dir of
        (Inl e, _) \<Rightarrow> Inl e
      | (Inr keys, dir) \<Rightarrow>
          rbind (fingerprint kl digest b64 (hd keys)) (\<lambda>fpr.
          (case startup (bt_bind be) keys fpr (bt_dev be) dir stored of
             (Inl e, _) \<Rightarrow> Inl e
           | (Inr _, w) \<Rightarrow> Inr w))) = Inr w"
    unfolding boot_def by (auto simp: result_simps split: option.splits)
  from r obtain ks d where 2: "load_or_create kl (bt_ed25519 be) (bt_rsa be)
      (sv_host_key_path (cf_server stored)) dir = (Inr ks, d)"
    and s: "rbind (fingerprint kl digest b64 (hd ks)) (\<lambda>fpr.
       (case startup (bt_bind be) ks fpr (bt_dev be) d stored of
          (Inl e, _) \<Rightarrow> Inl e | (Inr _, w) \<Rightarrow> Inr w)) = Inr w"
    by (auto split: prod.splits sum.splits)
  from s obtain fpr where 3: "fingerprint kl digest b64 (hd ks) = Inr fpr"
    and t: "startup (bt_bind be) ks fpr (bt_dev be) d stored = (Inr (), w)"
  proof -
    from s obtain fpr where f: "fingerprint kl digest b64 (hd ks) = Inr fpr"
      and "(case startup (bt_bind be) ks fpr (bt_dev be) d stored of
          (Inl e, _) \<Rightarrow> Inl e | (Inr _, w) \<Rightarrow> Inr w) = Inr w"
      unfolding rbind_Inr_iff by blast
    then have "startup (bt_bind be) ks fpr (bt_dev be) d stored = (Inr (), w)"
      by (cases "startup (bt_bind be) ks fpr (bt_dev be) d stored"; cases "fst (startup (bt_bind be) ks fpr (bt_dev be) d stored)")
        simp_all
    with f that show ?thesis by blast
  qed
  from startup_frame [OF t] show ?thesis using that 1 2 3 by simp
qed

subsection \<open>What the operations leave alone\<close>

text \<open>
  A save writes the default path of the host keys, whatever the loaded configuration says. So an
  operation leaves every file alone but \<open>config.toml\<close> and its temporary file, and leaves in the
  first what was there or the text of a configuration with that path.
\<close>

definition default_path_text :: "(val \<Rightarrow> string + string) \<Rightarrow> bytes \<Rightarrow> bool" where
  "default_path_text print_pretty b \<longleftrightarrow> (\<exists>c s. sv_host_key_path (cf_server c) = ''host_key'' \<and>
     print_pretty (config_val c) = Inr s \<and> b = as_bytes s)"

definition keeps_files :: "(val \<Rightarrow> string + string) \<Rightarrow> 'key app \<Rightarrow> 'key app \<Rightarrow> bool" where
  "keeps_files print_pretty w w' \<longleftrightarrow>
     (\<forall>f. f \<noteq> config_toml \<longrightarrow> f \<noteq> config_toml_tmp \<longrightarrow> hm_get (config_dir w') f = hm_get (config_dir w) f) \<and>
     (hm_get (config_dir w') config_toml = hm_get (config_dir w) config_toml \<or>
      (\<exists>b. hm_get (config_dir w') config_toml = Some b \<and> default_path_text print_pretty b))"

lemma keeps_refl: "config_dir w' = config_dir w \<Longrightarrow> keeps_files pr w w'"
  by (simp add: keeps_files_def)

lemma keeps_trans [trans]: "keeps_files pr a b \<Longrightarrow> keeps_files pr b c \<Longrightarrow> keeps_files pr a c"
  by (auto simp: keeps_files_def)

text \<open>The program that runs saves with its own encryption and printer, whatever the calls return.\<close>

definition saves_with :: "(string \<Rightarrow> string + string) \<Rightarrow> (val \<Rightarrow> string + string) \<Rightarrow> env \<Rightarrow> bool" where
  "saves_with encrypt print_pretty e \<longleftrightarrow> (\<exists>os. env_save e = save encrypt print_pretty os)"

lemma save_other_files:
  "save encrypt print_pretty os cfg dir = (r, dir') \<Longrightarrow> f \<noteq> config_toml \<Longrightarrow> f \<noteq> config_toml_tmp \<Longrightarrow>
   hm_get dir' f = hm_get dir f"
  unfolding save_def Let_def
  by (auto simp: hmap_simps split: option.splits sum.splits write_outcome.splits)

lemma save_config_file:
  assumes "save encrypt print_pretty os cfg dir = (r, dir')"
    and "sv_host_key_path (cf_server cfg) = ''host_key''"
  shows "hm_get dir' config_toml = hm_get dir config_toml \<and> (\<exists>e. r = Inl e) \<or>
    (\<exists>b. hm_get dir' config_toml = Some b \<and> default_path_text print_pretty b)"
proof (cases r)
  case (Inl e)
  then show ?thesis using assms(1) unfolding save_def Let_def
    by (auto simp: hmap_simps config_toml_def config_toml_tmp_def
        split: option.splits sum.splits write_outcome.splits)
next
  case (Inr u)
  then obtain c s where c: "redact_for_save encrypt cfg = Inr c" "print_pretty (config_val c) = Inr s"
      "hm_get dir' config_toml = Some (as_bytes s)"
    using assms(1) unfolding save_def Let_def
    by (auto simp: hmap_simps split: option.splits sum.splits write_outcome.splits)
  have "sv_host_key_path (cf_server c) = ''host_key''"
    using c(1) assms(2) by (auto simp: redact_for_save_def result_simps)
  with c show ?thesis by (auto simp: default_path_text_def)
qed

lemma keeps_persist:
  assumes "saves_with encrypt pr e"
  shows "keeps_files pr w (snd (persist_then e x w))"
proof -
  obtain r d where s: "env_save e (persisted w) (config_dir w) = (r, d)" by force
  obtain os where os: "save encrypt pr os (persisted w) (config_dir w) = (r, d)"
    using assms s by (auto simp: saves_with_def)
  have "hm_get d f = hm_get (config_dir w) f" if "f \<noteq> config_toml" "f \<noteq> config_toml_tmp" for f
    by (rule save_other_files [OF os that])
  moreover have "hm_get d config_toml = hm_get (config_dir w) config_toml \<or>
      (\<exists>b. hm_get d config_toml = Some b \<and> default_path_text pr b)"
    using save_config_file [OF os] by (auto simp: persisted_def)
  ultimately show ?thesis
    by (cases r) (simp_all add: persist_then_def persist_now_def s keeps_files_def)
qed

lemma keeps_create:
  assumes "saves_with encrypt pr e"
  shows "keeps_files pr w (snd (create_session e cfg w))"
proof (cases "is_proxy (sc_upstream cfg)")
  case True
  then obtain l t p where u: "sc_upstream cfg = HttpProxy l t p" by (rule is_proxyE)
  have "keeps_files pr w (snd (create_proxy (launched cfg) l t p w))"
    using create_proxy_ok [of "launched cfg" l t p w] by (intro keeps_refl) (simp add: Let_def)
  then show ?thesis
    unfolding create_session_proxy [OF u] by (rule keeps_trans [OF _ keeps_persist [OF assms]])
next
  case False
  obtain r w1 where c: "create_regular (env_bind_err e) (launched cfg) w = (r, w1)" by force
  then have "keeps_files pr w w1"
    using create_regular_frame(1) [of "env_bind_err e" "launched cfg" w] by (intro keeps_refl) simp
  then show ?thesis
    using keeps_trans [OF _ keeps_persist [OF assms]] by (cases r) (simp_all add: create_session_regular [OF False] c)
qed

lemma keeps_stop:
  assumes "saves_with encrypt pr e"
  shows "keeps_files pr w (snd (stop_session e name w))"
proof -
  have "keeps_files pr w (stop_core (env_final e) (to_ascii_lowercase name) w)"
    by (cases "hm_get (runners w) (to_ascii_lowercase name)")
      (auto intro!: keeps_refl simp: stop_core_none stop_core_some(5))
  then show ?thesis unfolding stop_session_core by (rule keeps_trans [OF _ keeps_persist [OF assms]])
qed

lemma keeps_run_op:
  fixes w :: "'key app"
  assumes "saves_with encrypt pr e"
  shows "keeps_files pr w (snd (run_op e op w))"
proof -
  have stop: "stop_session e n w = (x, w1) \<Longrightarrow> keeps_files pr w w1" for n x and w1 :: "'key app"
    using keeps_stop [OF assms, of w n] by simp
  have create: "create_session e c w1 = (x, w2) \<Longrightarrow> keeps_files pr w1 w2" for c x and w1 w2 :: "'key app"
    using keeps_create [OF assms, of w1 c] by simp
  have persist: "persist_then e x w1 = (y, w2) \<Longrightarrow> keeps_files pr w1 w2" for x :: unit and y and w1 w2 :: "'key app"
    using keeps_persist [OF assms, of w1 x] by simp
  have removed: "keeps_files pr w1 (w1\<lparr>runners := rs\<rparr>)" for rs and w1 :: "'key app" by (rule keeps_refl) simp
  show ?thesis
  proof (cases op)
    case (DeleteOp n)
    then show ?thesis
      by (auto simp: delete_session_def split: prod.splits sum.splits
          intro: stop keeps_trans [OF stop keeps_trans [OF removed persist]])
  next
    case (RestartOp n)
    then show ?thesis
      by (auto simp: restart_session_def keeps_refl split: option.splits prod.splits sum.splits
          intro: stop keeps_trans [OF stop create])
  next
    case (UpdateOp n c)
    then show ?thesis
      by (auto simp: update_session_core split: prod.splits sum.splits
          intro: stop keeps_trans [OF stop create])
  qed (auto split: prod.splits intro: stop create)
qed

text \<open>Any operations in a row, whether they succeed or not.\<close>

definition run_ops :: "(env \<times> app_op) list \<Rightarrow> 'key app \<Rightarrow> 'key app" where
  "run_ops ops w = fold (\<lambda>(e, op) w. snd (run_op e op w)) ops w"

lemma keeps_run_ops:
  "list_all (saves_with encrypt pr \<circ> fst) ops \<Longrightarrow> keeps_files pr w (run_ops ops w)"
proof (induction ops arbitrary: w)
  case Nil
  then show ?case by (simp add: run_ops_def keeps_refl)
next
  case (Cons x ops)
  obtain e op where x: "x = (e, op)" by force
  have "keeps_files pr w (snd (run_op e op w))" using Cons.prems by (intro keeps_run_op [where encrypt = encrypt]) (simp add: x)
  moreover have "keeps_files pr (snd (run_op e op w)) (run_ops ops (snd (run_op e op w)))"
    using Cons by simp
  ultimately show ?case by (auto simp: run_ops_def x intro: keeps_trans)
qed

subsection \<open>The identity of the program\<close>

text \<open>The path of the host keys a start finds in its configuration.\<close>

definition key_path :: "(string \<Rightarrow> string + string) \<Rightarrow> (string \<Rightarrow> string + val) \<Rightarrow> (serde_error \<Rightarrow> string)
    \<Rightarrow> boot_env \<Rightarrow> directory \<Rightarrow> string option" where
  "key_path decrypt parse show_err be dir =
     (case load_or_default decrypt parse show_err (bt_read_err be) dir of
        Inl _ \<Rightarrow> None | Inr stored \<Rightarrow> Some (sv_host_key_path (cf_server stored)))"

lemma default_path_loaded:
  assumes print: "\<And>v s. print_pretty v = Inr s \<Longrightarrow> utf8_valid (as_bytes s)"
      "\<And>v s. print_pretty v = Inr s \<Longrightarrow> \<exists>v'. parse s = Inr v' \<and> veq v v'"
    and toml: "hm_get dir config_toml = Some b" "default_path_text print_pretty b"
    and load: "load_or_default decrypt parse show_err read_err dir = Inr stored"
  shows "sv_host_key_path (cf_server stored) = ''host_key''"
proof -
  obtain c s where c: "sv_host_key_path (cf_server c) = ''host_key''" "print_pretty (config_val c) = Inr s"
      "b = as_bytes s"
    using toml(2) by (auto simp: default_path_text_def)
  obtain v where v: "parse s = Inr v" "veq (config_val c) v" using print(2) [OF c(2)] by blast
  have "read_config v = Inr c" using respD [OF resp_read_config v(2)] read_config_val by simp
  then have "unredact_after_load decrypt c = Inr stored"
    using load toml(1) v(1) print(1) [OF c(2)] c(3)
    by (simp add: load_or_default_def from_utf8_as_bytes split: option.splits)
  then show ?thesis using c(1) by (auto simp: unredact_after_load_def result_simps)
qed

lemma kept_path:
  assumes print: "\<And>v s. print_pretty v = Inr s \<Longrightarrow> utf8_valid (as_bytes s)"
      "\<And>v s. print_pretty v = Inr s \<Longrightarrow> \<exists>v'. parse s = Inr v' \<and> veq v v'"
    and keeps: "keeps_files print_pretty w w'"
    and load: "load_or_default decrypt parse show_err re (config_dir w) = Inr stored"
      "load_or_default decrypt parse show_err re' (config_dir w') = Inr stored'"
    and path: "sv_host_key_path (cf_server stored) = ''host_key''"
  shows "sv_host_key_path (cf_server stored') = ''host_key''"
proof (cases "hm_get (config_dir w') config_toml = hm_get (config_dir w) config_toml")
  case True
  with load have "stored' = stored" by (auto simp: load_or_default_def split: option.splits)
  with path show ?thesis by simp
next
  case False
  then obtain b where "hm_get (config_dir w') config_toml = Some b" "default_path_text print_pretty b"
    using keeps by (auto simp: keeps_files_def)
  from default_path_loaded [where print_pretty = print_pretty and parse = parse, OF print this load(2)]
  show ?thesis by simp
qed

text \<open>
  A path of the host keys other than the default is forgotten: after any successful operation the
  next start looks for the keys under the default path.
\<close>

lemma key_path_forgotten:
  assumes "\<And>v s. print_pretty v = Inr s \<Longrightarrow> utf8_valid (as_bytes s)"
    and "\<And>v s. print_pretty v = Inr s \<Longrightarrow> \<exists>v'. parse s = Inr v' \<and> veq v v'"
    and "saves_with encrypt print_pretty e" and "run_op e op w = (True, w')"
  shows "key_path decrypt parse show_err be (config_dir w') \<in> {None, Some ''host_key''}"
proof -
  obtain os d where "save encrypt print_pretty os (persisted w') d = (Inr (), config_dir w')"
    using run_op_saved [OF assms(4)] assms(3) by (auto simp: saved_def saves_with_def)
  from save_config_file [OF this] obtain b where
    "hm_get (config_dir w') config_toml = Some b" "default_path_text print_pretty b"
    by (auto simp: persisted_def)
  from default_path_loaded [where print_pretty = print_pretty and parse = parse, OF assms(1,2) this]
  show ?thesis by (auto simp: key_path_def split: sum.splits)
qed

text \<open>
  C10. The program keeps its identity. When a start has the default path of the host keys in its
  configuration (or no configuration yet), then after any operations of the user, successful or
  not, saved or not, any later start that gets up has the same host keys and shows the same
  fingerprint, whatever keys it would generate. (The key library decodes a key it has encoded to
  that key; parsing the printed TOML gives the document up to the order of keys. With another path
  in the first configuration the keys change, since saving forgets that path.)
\<close>
theorem identity_survives:
  assumes "key_roundtrip kl" and "same_format kl kl'"
    and "\<And>v s. print_pretty v = Inr s \<Longrightarrow> utf8_valid (as_bytes s)"
    and "\<And>v s. print_pretty v = Inr s \<Longrightarrow> \<exists>v'. parse s = Inr v' \<and> veq v v'"
    and "boot kl digest b64 decrypt parse show_err be dir = Inr w"
    and "key_path decrypt parse show_err be dir = Some ''host_key''"
    and "list_all (saves_with encrypt print_pretty \<circ> fst) ops"
    and "boot kl' digest b64 decrypt parse show_err be' (config_dir (run_ops ops w)) = Inr w'"
  shows "host_keys w' = host_keys w \<and> host_key_fpr w' = host_key_fpr w"
proof -
  let ?dir = "config_dir (run_ops ops w)"
  obtain stored ks where 1: "load_or_default decrypt parse show_err (bt_read_err be) dir = Inr stored"
      "load_or_create kl (bt_ed25519 be) (bt_rsa be) (sv_host_key_path (cf_server stored)) dir =
        (Inr ks, config_dir w)"
      "fingerprint kl digest b64 (hd ks) = Inr (host_key_fpr w)" "host_keys w = ks"
    by (rule boot_Inr [OF assms(5)])
  obtain stored' ks' where 2: "load_or_default decrypt parse show_err (bt_read_err be') ?dir = Inr stored'"
      "load_or_create kl' (bt_ed25519 be') (bt_rsa be') (sv_host_key_path (cf_server stored')) ?dir =
        (Inr ks', config_dir w')"
      "fingerprint kl' digest b64 (hd ks') = Inr (host_key_fpr w')" "host_keys w' = ks'"
    by (rule boot_Inr [OF assms(8)])
  note keeps = keeps_run_ops [OF assms(7), of w]
  have path: "sv_host_key_path (cf_server stored) = ''host_key''"
    using assms(6) 1(1) by (simp add: key_path_def)
  have load: "load_or_default decrypt parse show_err (bt_read_err be) (config_dir w) = Inr stored"
    using 1(1) load_or_create_config [OF 1(2)] by (simp add: load_or_default_def)
  have path': "sv_host_key_path (cf_server stored') = ''host_key''"
    by (rule kept_path [where print_pretty = print_pretty and parse = parse, OF assms(3,4) keeps load 2(1) path])
  have kept: "hm_get ?dir (with_extension p ''ed25519'') = hm_get (config_dir w) (with_extension p ''ed25519'')"
    "hm_get ?dir (with_extension p ''rsa'') = hm_get (config_dir w) (with_extension p ''rsa'')" for p
    using keeps with_extension_config [of p] by (simp_all add: keeps_files_def)
  note files = load_or_create_files [OF 1(2)]
  have reads: "kc_read_err (bt_ed25519 be') = None" "kc_read_err (bt_rsa be') = None"
    using load_or_create_reads [OF 2(2)] files kept by (simp_all add: path path')
  have "ks' = ks"
    using load_or_create_again [OF assms(1,2) 1(2) reads kept] 2(2) by (simp add: path path')
  moreover have "fingerprint kl' = fingerprint kl"
    using assms(2) by (simp add: fun_eq_iff fingerprint_def same_format_def)
  ultimately show ?thesis using 1(3,4) 2(3,4) by simp
qed

definition well_env :: boot_env where
  "well_env = \<lparr>bt_config_dir = Some ''/home/u/.config'', bt_mkdir_err = None, bt_logs_err = None,
     bt_read_err = None, bt_ed25519 = all_well, bt_rsa = all_well, bt_bind = (\<lambda>_. None), bt_dev = None\<rparr>"

text \<open>A printer and a parser that know the document of the configuration without sessions.\<close>

definition first_print :: "val \<Rightarrow> string + string" where
  "first_print v = (if v = config_val first_config then Inr ''[server]'' else Inl ''unsupported'')"

definition first_parse :: "string \<Rightarrow> string + val" where
  "first_parse s = (if s = ''[server]'' then Inr (config_val first_config) else Inl ''expected a table'')"

definition letter_boot :: "char \<Rightarrow> char \<Rightarrow> directory \<Rightarrow> string + char app" where
  "letter_boot a b dir = boot (letter_keys a b) id bytes_string (\<lambda>p. Inr p) first_parse
     (\<lambda>_. ''invalid'') well_env dir"

definition letter_env :: env where
  "letter_env = demo_env\<lparr>env_save := save (\<lambda>p. Inr p) first_print
     \<lparr>create_dir_err = None, write_res = WriteOk, rename_err = None\<rparr>\<rparr>"

definition letter_dir :: directory where
  "letter_dir = [(''host_key.ed25519'', as_bytes ''e''), (''host_key.rsa'', as_bytes ''r'')]"

text \<open>A first start, an operation that is saved, and a second start that would have generated other keys.\<close>

lemma letter_keys_created:
  "load_or_create (letter_keys CHR ''e'' CHR ''r'') all_well all_well ''host_key'' [] = (Inr ''er'', letter_dir)"
  "load_or_create (letter_keys CHR ''x'' CHR ''y'') all_well all_well ''host_key''
     (letter_dir @ [(config_toml, as_bytes ''[server]'')]) =
     (Inr ''er'', letter_dir @ [(config_toml, as_bytes ''[server]'')])"
  by code_simp+

lemma letter_fingerprint: "fingerprint (letter_keys a b) id bytes_string CHR ''e'' = Inr ''SHA256:e''"
  by (simp add: fingerprint_def letter_keys_def char_code_def)

lemma letter_load:
  "load_or_default (\<lambda>p. Inr p) first_parse (\<lambda>_. ''invalid'') None [] = Inr first_config"
  "load_or_default (\<lambda>p. Inr p) first_parse (\<lambda>_. ''invalid'') None
     (letter_dir @ [(config_toml, as_bytes ''[server]'')]) = Inr first_config"
proof -
  have "utf8_valid (as_bytes ''[server]'')" by code_simp
  moreover have "hm_get (letter_dir @ [(config_toml, as_bytes ''[server]'')]) config_toml = Some (as_bytes ''[server]'')"
    by code_simp
  moreover have "unredact_after_load (\<lambda>p. Inr p) first_config = Inr first_config" by (simp add: unredact_after_load_def first_config_def)
  ultimately show "load_or_default (\<lambda>p. Inr p) first_parse (\<lambda>_. ''invalid'') None
     (letter_dir @ [(config_toml, as_bytes ''[server]'')]) = Inr first_config"
    by (simp add: load_or_default_def from_utf8_as_bytes first_parse_def read_config_val)
qed (simp add: load_or_default_def)

lemma letter_boots:
  assumes "dir = [] \<and> a = CHR ''e'' \<and> b = CHR ''r'' \<and> dir' = letter_dir \<or>
    dir = letter_dir @ [(config_toml, as_bytes ''[server]'')] \<and> a = CHR ''x'' \<and> b = CHR ''y'' \<and> dir' = dir"
  shows "letter_boot a b dir = Inr (app_new ''er'' ''SHA256:e'' dir' 16 ''127.0.0.1:2223'')"
proof -
  have load: "load_or_default (\<lambda>p. Inr p) first_parse (\<lambda>_. ''invalid'') None dir = Inr first_config"
    using assms letter_load by auto
  have keys: "load_or_create (letter_keys a b) all_well all_well ''host_key'' dir = (Inr ''er'', dir')"
    using assms letter_keys_created by auto
  show ?thesis
    by (simp add: letter_boot_def boot_def well_env_def default_config_dir_def load first_config_def keys
        letter_fingerprint startup_def)
qed

lemma letter_saved:
  "config_dir (run_ops [(letter_env, StopOp ''a'')] (app_new ''er'' ''SHA256:e'' letter_dir 16 ''127.0.0.1:2223'')) =
     letter_dir @ [(config_toml, as_bytes ''[server]'')]"
proof -
  let ?w = "app_new ''er'' ''SHA256:e'' letter_dir 16 ''127.0.0.1:2223''"
  have none: "hm_get (runners ?w) k = None" for k by (simp add: app_new_def)
  have p: "persisted ?w = first_config" by (simp add: persisted_def app_new_def hm_values_def first_config_def)
  have red: "redact_for_save (\<lambda>p. Inr p) first_config = Inr first_config"
    by (simp add: redact_for_save_def first_config_def)
  have "hm_insert config_toml b (hm_remove config_toml_tmp (hm_insert config_toml_tmp b letter_dir)) =
      letter_dir @ [(config_toml, b)]" for b
    by (simp add: letter_dir_def hm_insert_def hm_remove_def config_toml_def config_toml_tmp_def)
  then have "env_save letter_env first_config letter_dir = (Inr (), letter_dir @ [(config_toml, as_bytes ''[server]'')])"
    by (simp add: letter_env_def save_def red first_print_def Let_def)
  moreover have "config_dir ?w = letter_dir" by (simp add: app_new_def)
  ultimately show ?thesis
    by (simp add: run_ops_def stop_session_core stop_core_none none persist_then_def persist_now_def p)
qed

theorem identity_survives_witness:
  "\<exists>w w'. letter_boot CHR ''e'' CHR ''r'' [] = Inr w \<and>
     letter_boot CHR ''x'' CHR ''y'' (config_dir (run_ops [(letter_env, StopOp ''a'')] w)) = Inr w' \<and>
     host_keys w' = ''er'' \<and> host_key_fpr w' = ''SHA256:e''"
proof -
  let ?w = "app_new ''er'' ''SHA256:e'' letter_dir 16 ''127.0.0.1:2223''"
  have w: "letter_boot CHR ''e'' CHR ''r'' [] = Inr ?w" by (rule letter_boots) simp
  obtain w' where w': "letter_boot CHR ''x'' CHR ''y'' (config_dir (run_ops [(letter_env, StopOp ''a'')] ?w)) = Inr w'"
    unfolding letter_saved using letter_boots by blast
  have fmt: "same_format (letter_keys CHR ''e'' CHR ''r'') (letter_keys CHR ''x'' CHR ''y'')"
    by (simp add: same_format_def letter_keys_def)
  have text_ok: "utf8_valid (as_bytes s)" "\<exists>v'. first_parse s = Inr v' \<and> veq v v'" if "first_print v = Inr s" for v s
  proof -
    have v: "v = config_val first_config" "s = ''[server]''"
      using that by (auto simp: first_print_def split: if_splits)
    have "utf8_valid (as_bytes ''[server]'')" by code_simp
    then show "utf8_valid (as_bytes s)" by (simp add: v)
    show "\<exists>v'. first_parse s = Inr v' \<and> veq v v'" using veq_refl by (simp add: v first_parse_def)
  qed
  have path: "key_path (\<lambda>p. Inr p) first_parse (\<lambda>_. ''invalid'') well_env [] = Some ''host_key''"
    by (simp add: key_path_def well_env_def letter_load(1)) (simp add: first_config_def)
  have ops: "list_all (saves_with (\<lambda>p. Inr p) first_print \<circ> fst) [(letter_env, StopOp ''a'')]"
    by (auto simp: saves_with_def letter_env_def)
  have "host_keys w' = host_keys ?w \<and> host_key_fpr w' = host_key_fpr ?w"
    by (rule identity_survives [where print_pretty = first_print and parse = first_parse,
          OF letter_roundtrip fmt text_ok(1) text_ok(2) w [unfolded letter_boot_def] path ops
          w' [unfolded letter_boot_def]])
  with w w' show ?thesis by (auto simp: app_new_def)
qed

end
