(* ===== verification/Api_Views.thy ===== *)
theory Api_Views
  imports App_Operations
begin

text \<open>
  What the HTTP API and its client exchange, as JSON documents: the views of
  \<open>crates/termhub-app/src/app_logic.rs\<close> with their derived \<open>Serialize\<close>, the envelope of
  \<open>crates/termhub-app/src/api_server.rs\<close>, and the client's types of
  \<open>crates/termhub-cli/src/main.rs\<close> with their derived \<open>Deserialize\<close>. JSON text is not modelled: a body
  is a document, or text that is none.
\<close>

subsection \<open>The server's side\<close>

record ServerInfo =
  si_host_key_fpr :: string

definition get_server_info :: "'key app \<Rightarrow> ServerInfo" where
  "get_server_info w = \<lparr>si_host_key_fpr = host_key_fpr w\<rparr>"

text \<open>The enum is tagged by \<open>state\<close>, its variants are in snake case.\<close>

fun status_val :: "SessionStatus \<Rightarrow> val" where
  "status_val Idle = VTab [(''state'', VStr ''idle'')]"
| "status_val Starting = VTab [(''state'', VStr ''starting'')]"
| "status_val (Running u) = VTab [(''state'', VStr ''running''), (''uptime_secs'', uint_val u)]"
| "status_val (Reconnecting n) = VTab [(''state'', VStr ''reconnecting''), (''attempt'', uint_val n)]"
| "status_val (Failed r) = VTab [(''state'', VStr ''failed''), (''reason'', VStr r)]"
| "status_val Stopped = VTab [(''state'', VStr ''stopped'')]"

definition session_view_val :: "SessionView \<Rightarrow> val" where
  "session_view_val v = VTab
     [(''name'', VStr (v_name v)), (''ssh_user'', VStr (v_ssh_user v)), (''listen'', VStr (v_listen v)),
      (''status'', status_val (v_status v)), (''upstream_kind'', VStr (v_upstream_kind v)),
      (''upstream_summary'', VStr (v_upstream_summary v)),
      (''upstream'', VTab (upstream_tab (v_upstream v))),
      (''auto_reconnect'', VBool (v_auto_reconnect v)),
      (''client_count'', VInt (int (v_client_count v)))]"

definition client_view_val :: "ClientView \<Rightarrow> val" where
  "client_view_val c = VTab
     [(''id'', uint_val (cv_id c)), (''remote'', VStr (cv_remote c)),
      (''connected_at_secs'', uint_val (cv_connected_at_secs c)),
      (''bytes_in'', uint_val (cv_bytes_in c)), (''bytes_out'', uint_val (cv_bytes_out c))]"

definition server_info_val :: "ServerInfo \<Rightarrow> val" where
  "server_info_val i = VTab [(''host_key_fpr'', VStr (si_host_key_fpr i))]"

text \<open>A \<open>SessionConfig\<close> in JSON: an absent terminal size is written as null.\<close>

definition session_json :: "SessionConfig \<Rightarrow> val" where
  "session_json s = VTab
     [(''name'', VStr (sc_name s)), (''password'', VStr (sc_password s)),
      (''ssh_user'', VStr (sc_ssh_user s)), (''listen'', VStr (sc_listen s)),
      (''auto_reconnect'', VBool (sc_auto_reconnect s)),
      (''launch_on_startup'', VBool (sc_launch_on_startup s)),
      (''pty_override'', case sc_pty_override s of None \<Rightarrow> VNull | Some p \<Rightarrow> pty_val p),
      (''upstream'', VTab (upstream_tab (sc_upstream s)))]"

lemma read_session_json [simp]: "read_session (session_json s) = Inr s"
  by (cases "sc_pty_override s") (simp_all add: read_session_def session_json_def opt_def)

text \<open>
  The envelope: \<open>data\<close> and \<open>error\<close> are left out where they are \<open>None\<close>; the unit value is null.
\<close>

definition envelope_val :: "bool \<Rightarrow> val option \<Rightarrow> string option \<Rightarrow> val" where
  "envelope_val ok d e = VTab
     ([(''ok'', VBool ok)] @ (case d of None \<Rightarrow> [] | Some v \<Rightarrow> [(''data'', v)])
      @ (case e of None \<Rightarrow> [] | Some m \<Rightarrow> [(''error'', VStr m)]))"

subsection \<open>The client's side\<close>

record 'a ApiResponse =
  ar_ok :: bool
  ar_data :: "'a option"
  ar_error :: "string option"

definition read_envelope :: "'a reader \<Rightarrow> 'a ApiResponse reader" where
  "read_envelope rd = as_tab (\<lambda>t.
     rbind (req ''ok'' as_bool t) (\<lambda>ok.
     rbind (opt ''data'' rd t) (\<lambda>d.
     rbind (opt ''error'' as_str t) (\<lambda>e.
     Inr \<lparr>ar_ok = ok, ar_data = d, ar_error = e\<rparr>))))"

record CliSession =
  cl_name :: string
  cl_ssh_user :: string
  cl_listen :: string
  cl_status :: val
  cl_upstream_kind :: string
  cl_upstream_summary :: string
  cl_upstream :: val
  cl_auto_reconnect :: bool
  cl_client_count :: u64

definition read_cli_session :: "CliSession reader" where
  "read_cli_session = as_tab (\<lambda>t.
     rbind (req ''name'' as_str t) (\<lambda>n.
     rbind (req ''ssh_user'' as_str t) (\<lambda>u.
     rbind (req ''listen'' as_str t) (\<lambda>l.
     rbind (req ''status'' Inr t) (\<lambda>s.
     rbind (req ''upstream_kind'' as_str t) (\<lambda>k.
     rbind (req ''upstream_summary'' as_str t) (\<lambda>us.
     rbind (req ''upstream'' Inr t) (\<lambda>up.
     rbind (req ''auto_reconnect'' as_bool t) (\<lambda>ar.
     rbind (req ''client_count'' as_uint t) (\<lambda>cc.
     Inr \<lparr>cl_name = n, cl_ssh_user = u, cl_listen = l, cl_status = s, cl_upstream_kind = k,
          cl_upstream_summary = us, cl_upstream = up, cl_auto_reconnect = ar,
          cl_client_count = cc\<rparr>))))))))))"

definition read_client_view :: "ClientView reader" where
  "read_client_view = as_tab (\<lambda>t.
     rbind (req ''id'' as_uint t) (\<lambda>i.
     rbind (req ''remote'' as_str t) (\<lambda>r.
     rbind (req ''connected_at_secs'' as_uint t) (\<lambda>c.
     rbind (req ''bytes_in'' as_uint t) (\<lambda>bi.
     rbind (req ''bytes_out'' as_uint t) (\<lambda>bo.
     Inr \<lparr>cv_id = i, cv_remote = r, cv_connected_at_secs = c, cv_bytes_in = bi, cv_bytes_out = bo\<rparr>))))))"

definition read_server_info :: "ServerInfo reader" where
  "read_server_info = as_tab (\<lambda>t.
     rbind (req ''host_key_fpr'' as_str t) (\<lambda>f. Inr \<lparr>si_host_key_fpr = f\<rparr>))"

subsection \<open>Round trips\<close>

definition cli_session_of :: "SessionView \<Rightarrow> CliSession" where
  "cli_session_of v =
     \<lparr>cl_name = v_name v, cl_ssh_user = v_ssh_user v, cl_listen = v_listen v,
      cl_status = status_val (v_status v), cl_upstream_kind = v_upstream_kind v,
      cl_upstream_summary = v_upstream_summary v, cl_upstream = VTab (upstream_tab (v_upstream v)),
      cl_auto_reconnect = v_auto_reconnect v, cl_client_count = of_nat (v_client_count v)\<rparr>"

lemma read_session_view:
  "v_client_count v < 2 ^ 64 \<Longrightarrow> read_cli_session (session_view_val v) = Inr (cli_session_of v)"
  by (simp add: read_cli_session_def session_view_val_def cli_session_of_def)

lemma read_client_view_val [simp]: "read_client_view (client_view_val c) = Inr c"
  by (simp add: read_client_view_def client_view_val_def)

lemma read_server_info_val [simp]: "read_server_info (server_info_val i) = Inr i"
  by (simp add: read_server_info_def server_info_val_def)

lemma read_envelope_ok:
  "rd v = Inr x \<Longrightarrow> v \<noteq> VNull \<Longrightarrow>
   read_envelope rd (envelope_val True (Some v) None) = Inr \<lparr>ar_ok = True, ar_data = Some x, ar_error = None\<rparr>"
  by (simp add: read_envelope_def envelope_val_def opt_def)

lemma read_envelope_error:
  "read_envelope rd (envelope_val False None (Some m)) =
     Inr \<lparr>ar_ok = False, ar_data = None, ar_error = Some m\<rparr>"
  by (simp add: read_envelope_def envelope_val_def opt_def)

end
