(* ===== verification/Api_Server.thy ===== *)
theory Api_Server
  imports Api_Views
begin

text \<open>
  The HTTP API, \<open>crates/termhub-app/src/api_server.rs\<close>: the routes, the handlers and their answers, on
  the state of the program. A request is a method, the segments of the path as the router has
  decoded them, and a body. What \<open>axum\<close> answers to a request that no handler accepts (no such
  path, no such method, a parameter or a body that cannot be read) is fixed by its documented
  status codes; the texts of these answers are a parameter.
\<close>

datatype http_method = Get | Post | Put | Delete | OtherMethod

datatype content = NoBody | JsonBody val | TextBody string

record request =
  rq_method :: http_method
  rq_path :: "string list"
  rq_body :: content

record response =
  rs_status :: nat
  rs_body :: content

text \<open>The texts of rejected requests: a bad parameter, a body that is no JSON, a wrong document.\<close>

record rejections =
  rj_path :: "string \<Rightarrow> string"
  rj_no_json :: "content \<Rightarrow> nat \<times> string"
  rj_data :: "serde_error \<Rightarrow> string"

subsection \<open>Answers\<close>

definition ok_response :: "val \<Rightarrow> response" where
  "ok_response d = \<lparr>rs_status = 200, rs_body = JsonBody (envelope_val True (Some d) None)\<rparr>"

definition err_response :: "nat \<Rightarrow> string \<Rightarrow> response" where
  "err_response st m = \<lparr>rs_status = st, rs_body = JsonBody (envelope_val False None (Some m))\<rparr>"

fun map_err :: "AppError \<Rightarrow> response" where
  "map_err (NotFound m) = err_response 404 m"
| "map_err (Internal e) = err_response 500 e"

text \<open>\<open>.map(ok).map_err(map_err)\<close>; the answers of most operations are the unit value.\<close>

definition answer :: "('a \<Rightarrow> val) \<Rightarrow> AppError + 'a \<Rightarrow> response" where
  "answer f r = (case r of Inl e \<Rightarrow> map_err e | Inr x \<Rightarrow> ok_response (f x))"

definition unit_answer :: "AppError + 'a \<Rightarrow> response" where
  "unit_answer r = answer (\<lambda>_. VNull) r"

subsection \<open>Routes\<close>

datatype handler =
    ListSessions
  | CreateSession
  | UpdateSession string
  | DeleteSession string
  | StopSession string
  | RestartSession string
  | ListClients string
  | KickClient string string
  | GetServerInfo
  | ListSerialPorts
  | MethodNotAllowed
  | NoRoute

text \<open>A parameter of a route matches one segment that is not empty.\<close>

definition api_route :: "http_method \<Rightarrow> string list \<Rightarrow> handler" where
  "api_route m segs =
     (case segs of
        [a, s] \<Rightarrow>
          if a \<noteq> ''api'' then NoRoute
          else if s = ''sessions'' then
            (case m of Get \<Rightarrow> ListSessions | Post \<Rightarrow> CreateSession | _ \<Rightarrow> MethodNotAllowed)
          else if s = ''server'' then (case m of Get \<Rightarrow> GetServerInfo | _ \<Rightarrow> MethodNotAllowed)
          else if s = ''serial-ports'' then (case m of Get \<Rightarrow> ListSerialPorts | _ \<Rightarrow> MethodNotAllowed)
          else NoRoute
      | [a, s, n] \<Rightarrow>
          if a \<noteq> ''api'' \<or> s \<noteq> ''sessions'' \<or> n = [] then NoRoute
          else (case m of Put \<Rightarrow> UpdateSession n | Delete \<Rightarrow> DeleteSession n | _ \<Rightarrow> MethodNotAllowed)
      | [a, s, n, x] \<Rightarrow>
          if a \<noteq> ''api'' \<or> s \<noteq> ''sessions'' \<or> n = [] then NoRoute
          else if x = ''stop'' then (case m of Post \<Rightarrow> StopSession n | _ \<Rightarrow> MethodNotAllowed)
          else if x = ''restart'' then (case m of Post \<Rightarrow> RestartSession n | _ \<Rightarrow> MethodNotAllowed)
          else if x = ''clients'' then (case m of Get \<Rightarrow> ListClients n | _ \<Rightarrow> MethodNotAllowed)
          else NoRoute
      | [a, s, n, c, i, k] \<Rightarrow>
          if a \<noteq> ''api'' \<or> s \<noteq> ''sessions'' \<or> n = [] \<or> c \<noteq> ''clients'' \<or> i = [] \<or> k \<noteq> ''kick'' then NoRoute
          else (case m of Post \<Rightarrow> KickClient n i | _ \<Rightarrow> MethodNotAllowed)
      | _ \<Rightarrow> NoRoute)"

text \<open>\<open>str::parse::<u64>\<close>, which reads the identifier in a path: digits, perhaps after a plus sign.\<close>

definition digit_value :: "char \<Rightarrow> nat option" where
  "digit_value c =
     (let n = char_code c in if 48 \<le> n \<and> n \<le> 57 then Some (n - 48) else None)"

fun parse_digits :: "string \<Rightarrow> nat \<Rightarrow> nat option" where
  "parse_digits [] acc = Some acc"
| "parse_digits (c # cs) acc =
     (case digit_value c of
        None \<Rightarrow> None
      | Some d \<Rightarrow> if acc * 10 + d < 2 ^ 64 then parse_digits cs (acc * 10 + d) else None)"

definition parse_u64 :: "string \<Rightarrow> u64 option" where
  "parse_u64 s =
     (let ds = (case s of [] \<Rightarrow> [] | c # cs \<Rightarrow> if c = CHR ''+'' then cs else s) in
      if ds = [] then None else map_option of_nat (parse_digits ds 0))"

text \<open>It reads what printing an identifier gives.\<close>

lemma digit_value_char: "d < 10 \<Longrightarrow> digit_value (digit_char d) = Some d"
  by (simp add: digit_value_def digit_char_def char_code_def)

lemma parse_digits_append:
  "parse_digits (s @ t) k = Option.bind (parse_digits s k) (parse_digits t)"
  by (induction s arbitrary: k) (simp_all split: option.split)

lemma parse_digits_show: "n < 2 ^ 64 \<Longrightarrow> parse_digits (show_nat n) 0 = Some n"
proof (induction n rule: show_nat.induct)
  case (1 n)
  show ?case
  proof (cases "n < 10")
    case True
    then show ?thesis using "1.prems" by (simp add: show_nat.simps [of n] digit_value_char)
  next
    case False
    moreover have "n div 10 < 2 ^ 64" using "1.prems" by simp
    ultimately have "parse_digits (show_nat (n div 10)) 0 = Some (n div 10)" using "1.IH" by simp
    moreover have "n div 10 * 10 + n mod 10 = n" by simp
    ultimately show ?thesis using False "1.prems"
      by (simp add: show_nat.simps [of n] parse_digits_append digit_value_char)
  qed
qed

lemma show_nat_digits: "c \<in> set (show_nat n) \<Longrightarrow> \<exists>d < 10. c = digit_char d"
proof (induction n rule: show_nat.induct)
  case (1 n)
  have "c = digit_char (n mod 10) \<Longrightarrow> ?case" by (intro exI [of _ "n mod 10"]) simp
  with 1 show ?case by (cases "n < 10") (auto simp: show_nat.simps [of n])
qed

lemma digit_chars: "d < 10 \<Longrightarrow> name_char (digit_char d) \<and> digit_char d \<noteq> CHR ''+'' \<and> digit_char d \<noteq> CHR ''.''"
proof -
  have "\<forall>d \<in> set [0 ..< 10]. name_char (digit_char d) \<and> digit_char d \<noteq> CHR ''+'' \<and> digit_char d \<noteq> CHR ''.''"
    by code_simp
  then show "d < 10 \<Longrightarrow> ?thesis" by simp
qed

lemma show_nat_Cons: obtains c cs where "show_nat n = c # cs"
  by (metis append_is_Nil_conv list.exhaust list.distinct(1) show_nat.simps)

lemma parse_show_word: "parse_u64 (show_word (i :: u64)) = Some i"
proof -
  obtain c cs where s: "show_nat (unat i) = c # cs" by (rule show_nat_Cons)
  then have "c \<noteq> CHR ''+''" using show_nat_digits [of c "unat i"] digit_chars by auto
  moreover have "unat i < 2 ^ 64" using unsigned_less [of i] by simp
  ultimately show ?thesis
    using parse_digits_show [of "unat i"] by (simp add: parse_u64_def show_word_def s)
qed

subsection \<open>Handlers\<close>

text \<open>The extractor \<open>Json<SessionConfig>\<close>.\<close>

definition json_config :: "rejections \<Rightarrow> content \<Rightarrow> response + SessionConfig" where
  "json_config rj body =
     (case body of
        JsonBody v \<Rightarrow>
          (case read_session v of
             Inl e \<Rightarrow> Inl \<lparr>rs_status = 422, rs_body = TextBody (rj_data rj e)\<rparr>
           | Inr cfg \<Rightarrow> Inr cfg)
      | _ \<Rightarrow> Inl \<lparr>rs_status = fst (rj_no_json rj body), rs_body = TextBody (snd (rj_no_json rj body))\<rparr>)"

definition list_serial_ports :: "string + string list \<Rightarrow> AppError + string list" where
  "list_serial_ports ports = map_err_res Internal ports"

fun handle_request :: "env \<Rightarrow> rejections \<Rightarrow> string + string list \<Rightarrow> handler \<Rightarrow> content \<Rightarrow> 'key app
    \<Rightarrow> response \<times> 'key app" where
  "handle_request e rj ports ListSessions body w =
     (ok_response (VArr (map session_view_val (list_sessions w))), w)"
| "handle_request e rj ports CreateSession body w =
     (case json_config rj body of
        Inl r \<Rightarrow> (r, w)
      | Inr cfg \<Rightarrow> (let (r, w) = create_session e cfg w in (unit_answer r, w)))"
| "handle_request e rj ports (UpdateSession n) body w =
     (case json_config rj body of
        Inl r \<Rightarrow> (r, w)
      | Inr cfg \<Rightarrow> (let (r, w) = update_session e n cfg w in (unit_answer r, w)))"
| "handle_request e rj ports (DeleteSession n) body w =
     (let (r, w) = delete_session e n w in (unit_answer r, w))"
| "handle_request e rj ports (StopSession n) body w =
     (let (r, w) = stop_session e n w in (unit_answer r, w))"
| "handle_request e rj ports (RestartSession n) body w =
     (let (r, w) = restart_session e n w in (unit_answer r, w))"
| "handle_request e rj ports (ListClients n) body w =
     (ok_response (VArr (map client_view_val (list_clients n w))), w)"
| "handle_request e rj ports (KickClient n i) body w =
     (case parse_u64 i of
        None \<Rightarrow> (\<lparr>rs_status = 400, rs_body = TextBody (rj_path rj i)\<rparr>, w)
      | Some c \<Rightarrow> (let (b, w) = kick_client n c w in (ok_response (VBool b), w)))"
| "handle_request e rj ports GetServerInfo body w = (ok_response (server_info_val (get_server_info w)), w)"
| "handle_request e rj ports ListSerialPorts body w =
     (answer (\<lambda>ps. VArr (map VStr ps)) (list_serial_ports ports), w)"
| "handle_request e rj ports MethodNotAllowed body w = (\<lparr>rs_status = 405, rs_body = NoBody\<rparr>, w)"
| "handle_request e rj ports NoRoute body w = (\<lparr>rs_status = 404, rs_body = NoBody\<rparr>, w)"

definition api_router :: "env \<Rightarrow> rejections \<Rightarrow> string + string list \<Rightarrow> request \<Rightarrow> 'key app \<Rightarrow> response \<times> 'key app" where
  "api_router e rj ports rq w =
     handle_request e rj ports (api_route (rq_method rq) (rq_path rq)) (rq_body rq) w"

subsection \<open>Requests as operations\<close>

text \<open>What a request asks for.\<close>

datatype api_action = Operation app_op | Kick string u64 | Query

definition with_config :: "content \<Rightarrow> (SessionConfig \<Rightarrow> api_action) \<Rightarrow> api_action" where
  "with_config body f =
     (case body of
        JsonBody v \<Rightarrow> (case read_session v of Inr cfg \<Rightarrow> f cfg | Inl _ \<Rightarrow> Query)
      | _ \<Rightarrow> Query)"

definition api_action :: "request \<Rightarrow> api_action" where
  "api_action rq =
     (case api_route (rq_method rq) (rq_path rq) of
        CreateSession \<Rightarrow> with_config (rq_body rq) (\<lambda>c. Operation (CreateOp c))
      | UpdateSession n \<Rightarrow> with_config (rq_body rq) (\<lambda>c. Operation (UpdateOp n c))
      | DeleteSession n \<Rightarrow> Operation (DeleteOp n)
      | StopSession n \<Rightarrow> Operation (StopOp n)
      | RestartSession n \<Rightarrow> Operation (RestartOp n)
      | KickClient n i \<Rightarrow> (case parse_u64 i of None \<Rightarrow> Query | Some c \<Rightarrow> Kick n c)
      | _ \<Rightarrow> Query)"

lemma persist_error: "persist_then e x w = (Inl er, w') \<Longrightarrow> \<exists>m. er = Internal m"
  using persist_then_error [of e x w] by auto

lemma create_error: "create_session e cfg w = (Inl er, w') \<Longrightarrow> \<exists>m. er = Internal m"
  by (cases "is_proxy (sc_upstream cfg)")
    (auto simp: create_session_regular create_session_proxy elim!: is_proxyE
      split: prod.splits sum.splits dest: persist_error)

lemma stop_error: "stop_session e n w = (Inl er, w') \<Longrightarrow> \<exists>m. er = Internal m"
  by (auto simp: stop_session_core dest: persist_error)

lemma delete_error: "delete_session e n w = (Inl er, w') \<Longrightarrow> \<exists>m. er = Internal m"
  by (auto simp: delete_session_def split: prod.splits sum.splits dest: stop_error persist_error)

lemma update_error: "update_session e n cfg w = (Inl er, w') \<Longrightarrow> \<exists>m. er = Internal m"
  by (auto simp: update_session_core split: prod.splits sum.splits dest: stop_error create_error)

lemma restart_error:
  assumes "restart_session e n w = (r, w')"
  shows "(\<exists>m. r = Inl (NotFound m)) \<longleftrightarrow> configs w (to_ascii_lowercase n) = None"
  using assms
  by (cases "hm_get (runners w) (to_ascii_lowercase n)")
    (auto simp: restart_session_def configs_def split: prod.splits sum.splits dest!: stop_error create_error)

lemma unit_answer_status:
  "rs_status (unit_answer (Inr x)) = 200" "rs_status (unit_answer (Inl (Internal m))) = 500"
  "rs_status (unit_answer (Inl (NotFound m))) = 404"
  by (simp_all add: unit_answer_def answer_def ok_response_def err_response_def)

text \<open>The status of the answer to an operation that reports \<open>r\<close>.\<close>

definition op_status :: "app_op \<Rightarrow> bool \<Rightarrow> 'key app \<Rightarrow> nat" where
  "op_status op ok w =
     (if ok then 200
      else case op of
          RestartOp n \<Rightarrow> if configs w (to_ascii_lowercase n) = None then 404 else 500
        | _ \<Rightarrow> 500)"

lemma status_of_result:
  assumes "case r of Inl er \<Rightarrow> (\<exists>m. er = Internal m) | Inr _ \<Rightarrow> True"
  shows "rs_status (unit_answer r) = (if is_ok r then 200 else 500)"
  using assms by (cases r) (auto simp: unit_answer_status)

lemma restart_status:
  assumes "restart_session e n w = (r, w')"
  shows "rs_status (unit_answer r) = op_status (RestartOp n) (is_ok r) w"
proof (cases r)
  case (Inl er)
  then show ?thesis
    using restart_error [OF assms] by (cases er) (auto simp: unit_answer_status op_status_def)
qed (simp add: unit_answer_status op_status_def)

lemma op_answer:
  "create_session e c w = (r1, w1) \<Longrightarrow> rs_status (unit_answer r1) = op_status (CreateOp c) (is_ok r1) w"
  "stop_session e n w = (r2, w2) \<Longrightarrow> rs_status (unit_answer r2) = op_status (StopOp n) (is_ok r2) w"
  "delete_session e n w = (r3, w3) \<Longrightarrow> rs_status (unit_answer r3) = op_status (DeleteOp n) (is_ok r3) w"
  "update_session e n c w = (r4, w4) \<Longrightarrow> rs_status (unit_answer r4) = op_status (UpdateOp n c) (is_ok r4) w"
  by (subst status_of_result;
      auto simp: op_status_def split: sum.splits dest: create_error stop_error delete_error update_error)+

lemma api_as_operation:
  "case api_action rq of
     Operation op \<Rightarrow>
       snd (api_router e rj ports rq w) = snd (run_op e op w) \<and>
       rs_status (fst (api_router e rj ports rq w)) = op_status op (fst (run_op e op w)) w
   | Kick n c \<Rightarrow>
       api_router e rj ports rq w = (ok_response (VBool (fst (kick_client n c w))), snd (kick_client n c w))
   | Query \<Rightarrow> snd (api_router e rj ports rq w) = w"
proof (cases "api_route (rq_method rq) (rq_path rq)")
  case CreateSession
  then show ?thesis
    by (cases "rq_body rq")
      (auto simp: api_action_def api_router_def with_config_def json_config_def op_answer
        split: sum.splits prod.splits)
next
  case (UpdateSession n)
  then show ?thesis
    by (cases "rq_body rq")
      (auto simp: api_action_def api_router_def with_config_def json_config_def op_answer
        split: sum.splits prod.splits)
qed (auto simp: api_action_def api_router_def op_answer restart_status split: option.splits prod.splits)

text \<open>
  The requests of the API as a table of its own: the method, the path and the body of each
  operation and of a kick, literally.
\<close>

fun goes_to :: "api_action \<Rightarrow> request \<Rightarrow> bool" where
  "goes_to (Operation (CreateOp c)) rq \<longleftrightarrow>
     rq_method rq = Post \<and> rq_path rq = [''api'', ''sessions'']"
| "goes_to (Operation (StopOp n)) rq \<longleftrightarrow>
     rq_method rq = Post \<and> n \<noteq> [] \<and> rq_path rq = [''api'', ''sessions'', n, ''stop'']"
| "goes_to (Operation (DeleteOp n)) rq \<longleftrightarrow>
     rq_method rq = Delete \<and> n \<noteq> [] \<and> rq_path rq = [''api'', ''sessions'', n]"
| "goes_to (Operation (RestartOp n)) rq \<longleftrightarrow>
     rq_method rq = Post \<and> n \<noteq> [] \<and> rq_path rq = [''api'', ''sessions'', n, ''restart'']"
| "goes_to (Operation (UpdateOp n c)) rq \<longleftrightarrow>
     rq_method rq = Put \<and> n \<noteq> [] \<and> rq_path rq = [''api'', ''sessions'', n]"
| "goes_to (Kick n i) rq \<longleftrightarrow>
     rq_method rq = Post \<and> n \<noteq> [] \<and> (\<exists>k. rq_path rq = [''api'', ''sessions'', n, ''clients'', k, ''kick''])"
| "goes_to Query rq \<longleftrightarrow> False"

definition holds_config :: "content \<Rightarrow> SessionConfig \<Rightarrow> bool" where
  "holds_config body c \<longleftrightarrow> (\<exists>v. body = JsonBody v \<and> veq (session_json c) v)"

definition asks_for :: "request \<Rightarrow> api_action \<Rightarrow> bool" where
  "asks_for rq a \<longleftrightarrow> goes_to a rq \<and>
     (case a of
        Operation (CreateOp c) \<Rightarrow> holds_config (rq_body rq) c
      | Operation (UpdateOp n c) \<Rightarrow> holds_config (rq_body rq) c
      | Kick n i \<Rightarrow> rq_path rq = [''api'', ''sessions'', n, ''clients'', show_word i, ''kick'']
      | _ \<Rightarrow> True)"

text \<open>What an action does to the state.\<close>

fun act :: "env \<Rightarrow> api_action \<Rightarrow> 'key app \<Rightarrow> 'key app" where
  "act e (Operation op) w = snd (run_op e op w)"
| "act e (Kick n i) w = snd (kick_client n i w)"
| "act e Query w = w"

lemma asks_for_action: "asks_for rq a \<Longrightarrow> api_action rq = a"
proof (cases a)
  case (Operation op)
  assume q: "asks_for rq a"
  have "veq (session_json c) v \<Longrightarrow> read_session v = Inr c" for c v
    using respD [OF resp_read_session, of "session_json c" v] by simp
  then have body: "holds_config (rq_body rq) c \<Longrightarrow> with_config (rq_body rq) f = f c" for c f
    by (auto simp: holds_config_def with_config_def)
  from q Operation body show ?thesis
    by (cases op) (auto simp: asks_for_def api_action_def api_route_def)
next
  case (Kick n i)
  assume q: "asks_for rq a"
  have "show_word i \<noteq> []" by (simp add: show_word_def) (metis list.distinct(1) show_nat_Cons)
  with q Kick show ?thesis by (auto simp: asks_for_def api_action_def api_route_def parse_show_word)
qed (simp add: asks_for_def)

lemma with_config_cases: "with_config body f = Query \<or> (\<exists>c. with_config body f = f c)"
  by (auto simp: with_config_def split: content.split sum.split)

lemma api_route_paths:
  "api_route m p = CreateSession \<Longrightarrow> m = Post \<and> p = [''api'', ''sessions'']"
  "api_route m p = UpdateSession n \<Longrightarrow> m = Put \<and> n \<noteq> [] \<and> p = [''api'', ''sessions'', n]"
  "api_route m p = DeleteSession n \<Longrightarrow> m = Delete \<and> n \<noteq> [] \<and> p = [''api'', ''sessions'', n]"
  "api_route m p = StopSession n \<Longrightarrow> m = Post \<and> n \<noteq> [] \<and> p = [''api'', ''sessions'', n, ''stop'']"
  "api_route m p = RestartSession n \<Longrightarrow> m = Post \<and> n \<noteq> [] \<and> p = [''api'', ''sessions'', n, ''restart'']"
  "api_route m p = KickClient n i \<Longrightarrow>
     m = Post \<and> n \<noteq> [] \<and> p = [''api'', ''sessions'', n, ''clients'', i, ''kick'']"
  by (auto simp: api_route_def split: list.splits if_splits http_method.splits)

lemma api_action_goes: "api_action rq = Query \<or> goes_to (api_action rq) rq"
proof (cases "api_route (rq_method rq) (rq_path rq)")
  case CreateSession
  with api_route_paths(1) [OF CreateSession] with_config_cases [of "rq_body rq" "\<lambda>c. Operation (CreateOp c)"]
  show ?thesis by (auto simp: api_action_def)
next
  case (UpdateSession n)
  with api_route_paths(2) [OF UpdateSession] with_config_cases [of "rq_body rq" "\<lambda>c. Operation (UpdateOp n c)"]
  show ?thesis by (auto simp: api_action_def)
qed (auto simp: api_action_def dest: api_route_paths split: option.splits)

text \<open>
  C7. The API is the operations and nothing else. A request that asks for an operation, by its
  method, its path and a body with the configuration (its keys in any order), changes the state
  exactly as that operation; it is answered with 200 exactly when the operation succeeds, with 404
  exactly when it restarts a session that does not exist, and with 500 otherwise; a kick is answered
  with whether the client was there. And whatever request comes, it either leaves the state alone or
  has the method and the path of an operation or a kick and leaves the state of that.
\<close>
theorem api_refines_operations:
  "(asks_for rq a \<longrightarrow>
      snd (api_router e rj ports rq w) = act e a w \<and>
      (case a of
         Operation op \<Rightarrow>
           rs_status (fst (api_router e rj ports rq w)) = op_status op (fst (run_op e op w)) w
       | Kick n i \<Rightarrow> fst (api_router e rj ports rq w) = ok_response (VBool (fst (kick_client n i w)))
       | Query \<Rightarrow> True)) \<and>
   (\<exists>b. (b = Query \<or> goes_to b rq) \<and> snd (api_router e rj ports rq w) = act e b w)"
proof -
  have s: "snd (api_router e rj ports rq w) = act e (api_action rq) w"
    using api_as_operation [where rq = rq and e = e and rj = rj and ports = ports and w = w] by (cases "api_action rq") auto
  show ?thesis
  proof (intro conjI impI)
    assume "asks_for rq a"
    then have a: "api_action rq = a" by (rule asks_for_action)
    show "snd (api_router e rj ports rq w) = act e a w" using s by (simp add: a)
    show "case a of
         Operation op \<Rightarrow>
           rs_status (fst (api_router e rj ports rq w)) = op_status op (fst (run_op e op w)) w
       | Kick n i \<Rightarrow> fst (api_router e rj ports rq w) = ok_response (VBool (fst (kick_client n i w)))
       | Query \<Rightarrow> True"
      using api_as_operation [where rq = rq and e = e and rj = rj and ports = ports and w = w]
      by (cases a) (simp_all add: a)
  next
    show "\<exists>b. (b = Query \<or> goes_to b rq) \<and> snd (api_router e rj ports rq w) = act e b w"
      using api_action_goes [of rq] s by blast
  qed
qed

text \<open>A request that deletes a session of the empty program.\<close>
theorem api_refines_operations_witness:
  "\<forall>rj ports. let rq = \<lparr>rq_method = Delete, rq_path = [''api'', ''sessions'', ''web''], rq_body = NoBody\<rparr> in
   asks_for rq (Operation (DeleteOp ''web'')) \<and>
   snd (api_router demo_env rj ports rq empty_app) = snd (run_op demo_env (DeleteOp ''web'') empty_app)"
proof -
  let ?rq = "\<lparr>rq_method = Delete, rq_path = [''api'', ''sessions'', ''web''], rq_body = NoBody\<rparr>"
  have "asks_for ?rq (Operation (DeleteOp ''web''))" by (simp add: asks_for_def)
  then show ?thesis
    using api_refines_operations [where rq = ?rq and a = "Operation (DeleteOp ''web'')" and e = demo_env and
        w = empty_app] by simp
qed

subsection \<open>What the list of sessions tells\<close>

text \<open>The state with other session passwords.\<close>

definition with_passwords :: "(string \<Rightarrow> string) \<Rightarrow> 'key app \<Rightarrow> 'key app" where
  "with_passwords f w = w\<lparr>runners :=
     map (\<lambda>(k, r). (k, r\<lparr>re_config := (re_config r)\<lparr>sc_password := f k\<rparr>\<rparr>)) (runners w)\<rparr>"

lemma with_passwords_frame:
  "the_mgr (with_passwords f w) = the_mgr w" "the_status (with_passwords f w) = the_status w"
  "the_registry (with_passwords f w) = the_registry w"
  by (simp_all add: with_passwords_def fun_eq_iff the_mgr_def the_status_def the_registry_def)

lemma session_view_password:
  "session_view (with_passwords f w) (r\<lparr>re_config := (re_config r)\<lparr>sc_password := p\<rparr>\<rparr>) = session_view w r"
proof -
  have "mgr_entry (with_passwords f w) (r\<lparr>re_config := (re_config r)\<lparr>sc_password := p\<rparr>\<rparr>) = mgr_entry w r"
    by (cases "re_session_mgr r") (simp_all add: mgr_entry_def with_passwords_frame)
  then show ?thesis
    by (simp only: session_view_def with_passwords_frame Let_def) (cases "re_proxy_cancel r"; simp)
qed

lemma list_with_passwords: "list_sessions (with_passwords f w) = list_sessions w"
proof -
  have "runners (with_passwords f w) =
      map (\<lambda>(k, r). (k, r\<lparr>re_config := (re_config r)\<lparr>sc_password := f k\<rparr>\<rparr>)) (runners w)"
    by (simp add: with_passwords_def)
  then show ?thesis
    by (auto simp: list_sessions_def hm_values_def session_view_password)
qed

text \<open>
  C35. The list of sessions, which the API gives to anyone who can reach it, tells nothing about the
  sessions' own passwords: it is the same whatever they are. But the password of an SSH upstream is
  in it, in clear.
\<close>
theorem list_hides_session_passwords:
  "fst (api_router e rj ports \<lparr>rq_method = Get, rq_path = [''api'', ''sessions''], rq_body = NoBody\<rparr>
      (with_passwords f w)) =
   fst (api_router e rj ports \<lparr>rq_method = Get, rq_path = [''api'', ''sessions''], rq_body = NoBody\<rparr> w) \<and>
   (\<exists>vs. fst (api_router e rj ports \<lparr>rq_method = Get, rq_path = [''api'', ''sessions''], rq_body = NoBody\<rparr>
        (w\<lparr>runners := [(k, r\<lparr>re_config := (re_config r)\<lparr>sc_upstream := Ssh h p u secret\<rparr>\<rparr>)]\<rparr>)) =
      ok_response (VArr [VTab vs]) \<and>
     map_of vs ''upstream'' = Some (VTab
       [(''type'', VStr ''ssh''), (''host'', VStr h), (''port'', uint_val p), (''user'', VStr u),
        (''password'', VStr secret)]))"
proof
  show "fst (api_router e rj ports \<lparr>rq_method = Get, rq_path = [''api'', ''sessions''], rq_body = NoBody\<rparr>
      (with_passwords f w)) =
   fst (api_router e rj ports \<lparr>rq_method = Get, rq_path = [''api'', ''sessions''], rq_body = NoBody\<rparr> w)"
    by (simp add: api_router_def api_route_def list_with_passwords)
next
  let ?r = "r\<lparr>re_config := (re_config r)\<lparr>sc_upstream := Ssh h p u secret\<rparr>\<rparr>"
  let ?w = "w\<lparr>runners := [(k, ?r)]\<rparr>"
  have "list_sessions ?w = [session_view ?w ?r]" by (simp add: list_sessions_def hm_values_def)
  moreover obtain vs where "session_view_val (session_view ?w ?r) = VTab vs"
    "map_of vs ''upstream'' = Some (VTab (upstream_tab (v_upstream (session_view ?w ?r))))"
    by (simp add: session_view_val_def)
  moreover have "v_upstream (session_view ?w ?r) = Ssh h p u secret"
    by (simp add: session_view_def Let_def)
  ultimately show "\<exists>vs. fst (api_router e rj ports
        \<lparr>rq_method = Get, rq_path = [''api'', ''sessions''], rq_body = NoBody\<rparr> ?w) =
      ok_response (VArr [VTab vs]) \<and>
     map_of vs ''upstream'' = Some (VTab
       [(''type'', VStr ''ssh''), (''host'', VStr h), (''port'', uint_val p), (''user'', VStr u),
        (''password'', VStr secret)])"
    by (intro exI [of _ vs]) (simp add: api_router_def api_route_def)
qed

end
