(* ===== verification/Commands.thy ===== *)
theory Commands
  imports Api_Server
begin

text \<open>
  The commands of the window, \<open>crates/termhub-app/src/commands.rs\<close> and \<open>commands_settings.rs\<close>, the
  listener that reports a session's status to it, and the reactions of
  \<open>crates/termhub-app/src/main.rs\<close> to the window and the tray. An error is reported as its text; a
  listener is the name it reports under and the status channel it reads.
\<close>

type_synonym listener = "string \<times> handle"

text \<open>\<open>f(&state).await.map_err(|e| e.to_string())\<close>.\<close>

definition cmd_result :: "AppError + 'a \<Rightarrow> string + 'a" where
  "cmd_result r = map_err_res app_error_text r"

definition cmd_list_sessions :: "'key app \<Rightarrow> string + SessionView list" where
  "cmd_list_sessions w = cmd_result (Inr (list_sessions w))"

definition cmd_create_session :: "env \<Rightarrow> SessionConfig \<Rightarrow> 'key app \<Rightarrow> (string + unit) \<times> listener list \<times> 'key app" where
  "cmd_create_session e cfg w =
     (let (r, w) = create_session e cfg w in
      case cmd_result r of
        Inl m \<Rightarrow> (Inl m, [], w)
      | Inr (_, status_rx) \<Rightarrow> (Inr (), [(sc_name cfg, status_rx)], w))"

definition cmd_stop_session :: "env \<Rightarrow> string \<Rightarrow> 'key app \<Rightarrow> (string + unit) \<times> listener list \<times> 'key app" where
  "cmd_stop_session e name w = (let (r, w) = stop_session e name w in (cmd_result r, [], w))"

definition cmd_delete_session :: "env \<Rightarrow> string \<Rightarrow> 'key app \<Rightarrow> (string + unit) \<times> listener list \<times> 'key app" where
  "cmd_delete_session e name w = (let (r, w) = delete_session e name w in (cmd_result r, [], w))"

definition cmd_restart_session :: "env \<Rightarrow> string \<Rightarrow> 'key app \<Rightarrow> (string + unit) \<times> listener list \<times> 'key app" where
  "cmd_restart_session e name w =
     (let (r, w) = restart_session e name w in
      case cmd_result r of
        Inl m \<Rightarrow> (Inl m, [], w)
      | Inr status_rx \<Rightarrow> (Inr (), [(name, status_rx)], w))"

definition cmd_update_session :: "env \<Rightarrow> string \<Rightarrow> SessionConfig \<Rightarrow> 'key app
    \<Rightarrow> (string + unit) \<times> listener list \<times> 'key app" where
  "cmd_update_session e name cfg w =
     (let (r, w) = update_session e name cfg w in
      case cmd_result r of
        Inl m \<Rightarrow> (Inl m, [], w)
      | Inr status_rx \<Rightarrow> (Inr (), [(sc_name cfg, status_rx)], w))"

definition cmd_list_clients :: "string \<Rightarrow> 'key app \<Rightarrow> string + ClientView list" where
  "cmd_list_clients name w = cmd_result (Inr (list_clients name w))"

definition cmd_kick_client :: "string \<Rightarrow> u64 \<Rightarrow> 'key app \<Rightarrow> (string + bool) \<times> 'key app" where
  "cmd_kick_client session i w = (let (b, w) = kick_client session i w in (cmd_result (Inr b), w))"

definition cmd_get_server_info :: "'key app \<Rightarrow> string + ServerInfo" where
  "cmd_get_server_info w = cmd_result (Inr (get_server_info w))"

definition cmd_list_serial_ports :: "string + string list \<Rightarrow> string + string list" where
  "cmd_list_serial_ports ports = cmd_result (list_serial_ports ports)"

text \<open>Starting with the system: the calls of the plug-in by their results.\<close>

definition get_autostart :: "string + bool \<Rightarrow> string + bool" where
  "get_autostart is_enabled = Inr (case is_enabled of Inl _ \<Rightarrow> False | Inr b \<Rightarrow> b)"

datatype autolaunch_call = EnableCall | DisableCall

definition set_autostart :: "bool \<Rightarrow> string option \<Rightarrow> autolaunch_call \<times> (string + unit)" where
  "set_autostart enable call_err =
     (if enable then EnableCall else DisableCall, case call_err of None \<Rightarrow> Inr () | Some e \<Rightarrow> Inl e)"

subsection \<open>The window\<close>

datatype ui_effect = ShowWindow | FocusWindow | HideWindow | PreventClose | ExitApp int

definition exit_app :: "ui_effect list" where "exit_app = [ExitApp 0]"

text \<open>A second instance of the program, and the entries of the tray menu.\<close>

definition single_instance :: "bool \<Rightarrow> ui_effect list" where
  "single_instance window_exists = (if window_exists then [ShowWindow, FocusWindow] else [])"

definition tray_menu :: "bool \<Rightarrow> string \<Rightarrow> ui_effect list" where
  "tray_menu window_exists item =
     (if item = ''show'' then (if window_exists then [ShowWindow, FocusWindow] else [])
      else if item = ''quit'' then [ExitApp 0] else [])"

text \<open>Closing the window: it stays, and the user is asked whether to end the program.\<close>

definition close_requested :: "bool \<Rightarrow> ui_effect list" where
  "close_requested confirmed = PreventClose # (if confirmed then [ExitApp 0] else [HideWindow])"

subsection \<open>The status listener\<close>

text \<open>
  A watch channel holds its last value with a version that each send increases. \<open>borrow\<close> reads the
  value; \<open>changed\<close> returns at once, and marks the version as seen, when it is not the one last seen,
  fails when it is and the sender is gone, and waits otherwise. The listener alternates between the
  two; the sender may act in between.
\<close>

datatype listen_pc = AtBorrow | AtChanged | ListenerEnded

record watch =
  wt_value :: SessionStatus
  wt_version :: nat
  wt_closed :: bool
  wt_seen :: nat
  wt_pc :: listen_pc
  wt_events :: "(string \<times> SessionStatus) list"

definition watch_start :: "SessionStatus \<Rightarrow> nat \<Rightarrow> nat \<Rightarrow> watch" where
  "watch_start s version seen = \<lparr>wt_value = s, wt_version = version, wt_closed = False,
     wt_seen = seen, wt_pc = AtBorrow, wt_events = []\<rparr>"

datatype watch_op = SendStatus SessionStatus | DropSender | ListenerTurn

fun watch_step :: "string \<Rightarrow> watch_op \<Rightarrow> watch \<Rightarrow> watch" where
  "watch_step name (SendStatus s) c =
     (if wt_closed c then c else c\<lparr>wt_value := s, wt_version := wt_version c + 1\<rparr>)"
| "watch_step name DropSender c = c\<lparr>wt_closed := True\<rparr>"
| "watch_step name ListenerTurn c =
     (case wt_pc c of
        AtBorrow \<Rightarrow> c\<lparr>wt_events := wt_events c @ [(name, wt_value c)], wt_pc := AtChanged\<rparr>
      | AtChanged \<Rightarrow>
          if wt_version c \<noteq> wt_seen c then c\<lparr>wt_seen := wt_version c, wt_pc := AtBorrow\<rparr>
          else if wt_closed c then c\<lparr>wt_pc := ListenerEnded\<rparr>
          else c
      | ListenerEnded \<Rightarrow> c)"

definition spawn_session_status_listener :: "string \<Rightarrow> watch_op list \<Rightarrow> watch \<Rightarrow> watch" where
  "spawn_session_status_listener name xs c = fold (watch_step name) xs c"

text \<open>The listeners of the sessions that are running when the window opens.\<close>

definition setup_listeners :: "'key app \<Rightarrow> listener list" where
  "setup_listeners w =
     concat (map (\<lambda>r. case re_started r of
         None \<Rightarrow> [] | Some s \<Rightarrow> [(sc_name (re_config r), ss_status_rx s)]) (hm_values (runners w)))"

text \<open>
  The listener has reported the channel's value whenever it has seen its version; so when it ends,
  which needs a closed channel, the last status it has reported is the last one published.
\<close>

definition watch_inv :: "string \<Rightarrow> watch \<Rightarrow> bool" where
  "watch_inv name c \<longleftrightarrow> wt_seen c \<le> wt_version c \<and>
     (wt_pc c = AtChanged \<and> wt_version c = wt_seen c \<longrightarrow>
        wt_events c \<noteq> [] \<and> last (wt_events c) = (name, wt_value c)) \<and>
     (wt_pc c = ListenerEnded \<longrightarrow> wt_closed c \<and> wt_events c \<noteq> [] \<and> last (wt_events c) = (name, wt_value c))"

lemma watch_inv_step: "watch_inv name c \<Longrightarrow> watch_inv name (watch_step name x c)"
  by (cases x; cases "wt_pc c") (auto simp: watch_inv_def)

lemma watch_inv_run: "watch_inv name c \<Longrightarrow> watch_inv name (spawn_session_status_listener name xs c)"
  unfolding spawn_session_status_listener_def
  by (induction xs arbitrary: c) (simp_all add: watch_inv_step)

text \<open>After the sender is gone the listener needs at most four turns to end.\<close>

lemma listener_ends:
  assumes "wt_closed c"
  shows "wt_pc (spawn_session_status_listener name (replicate 4 ListenerTurn) c) = ListenerEnded"
  using assms by (cases "wt_pc c"; cases "wt_version c = wt_seen c")
    (simp_all add: spawn_session_status_listener_def numeral_eq_Suc)

lemma listener_stays_ended:
  "wt_pc c = ListenerEnded \<Longrightarrow> spawn_session_status_listener name (replicate k ListenerTurn) c = c"
  by (induction k) (simp_all add: spawn_session_status_listener_def)

lemma listener_append:
  "spawn_session_status_listener name (xs @ ys) c =
     spawn_session_status_listener name ys (spawn_session_status_listener name xs c)"
  by (simp add: spawn_session_status_listener_def)

lemma listener_turns_value:
  "wt_value (spawn_session_status_listener name (replicate k ListenerTurn) c) = wt_value c"
proof (induction k arbitrary: c)
  case (Suc k)
  have "wt_value (watch_step name ListenerTurn c) = wt_value c" by (cases "wt_pc c") simp_all
  with Suc show ?case by (simp add: spawn_session_status_listener_def)
qed (simp add: spawn_session_status_listener_def)

text \<open>The statuses a script publishes.\<close>

fun published :: "watch_op list \<Rightarrow> SessionStatus list" where
  "published [] = []"
| "published (SendStatus s # xs) = s # published xs"
| "published (_ # xs) = published xs"

lemma value_published:
  "DropSender \<notin> set xs \<Longrightarrow> \<not> wt_closed c \<Longrightarrow>
   wt_value (spawn_session_status_listener name xs c) = last (wt_value c # published xs)"
proof (induction xs arbitrary: c)
  case (Cons x xs)
  show ?case
  proof (cases x)
    case (SendStatus s)
    with Cons.IH [of "c\<lparr>wt_value := s, wt_version := wt_version c + 1\<rparr>"] Cons.prems show ?thesis
      by (simp add: spawn_session_status_listener_def)
  next
    case DropSender
    with Cons.prems show ?thesis by simp
  next
    case ListenerTurn
    have "wt_value (watch_step name ListenerTurn c) = wt_value c"
      "wt_closed (watch_step name ListenerTurn c) = wt_closed c" by (cases "wt_pc c"; simp)+
    with Cons.IH [of "watch_step name ListenerTurn c"] Cons.prems ListenerTurn show ?thesis
      by (simp add: spawn_session_status_listener_def)
  qed
qed (simp add: spawn_session_status_listener_def)

text \<open>
  C21. The window learns how a session ends. However the session's statuses and the listener's turns
  interleave, once the session's task is gone the listener ends within four turns, and the last
  status it has reported, under the session's name, is the last one published.
\<close>
theorem status_listener_ends:
  assumes "seen \<le> version" and "DropSender \<notin> set xs" and "4 \<le> k"
  shows "let c = spawn_session_status_listener name (xs @ DropSender # replicate k ListenerTurn)
      (watch_start s version seen) in
    wt_pc c = ListenerEnded \<and> wt_events c \<noteq> [] \<and> last (wt_events c) = (name, last (s # published xs))"
proof -
  let ?start = "watch_start s version seen"
  let ?run = "spawn_session_status_listener name xs ?start"
  let ?dropped = "watch_step name DropSender ?run"
  let ?c = "spawn_session_status_listener name (replicate k ListenerTurn) ?dropped"
  have run: "spawn_session_status_listener name (xs @ DropSender # replicate k ListenerTurn) ?start = ?c"
    by (simp add: spawn_session_status_listener_def)
  have "watch_inv name ?start" using assms(1) by (simp add: watch_inv_def watch_start_def)
  then have inv: "watch_inv name ?c" by (simp only: watch_inv_run watch_inv_step)
  obtain j where k: "k = 4 + j" using assms(3) le_Suc_ex by blast
  let ?four = "spawn_session_status_listener name (replicate 4 ListenerTurn) ?dropped"
  have e4: "wt_pc ?four = ListenerEnded" by (rule listener_ends) simp
  have "?c = ?four"
    unfolding k replicate_add listener_append by (rule listener_stays_ended [OF e4])
  with e4 have ended: "wt_pc ?c = ListenerEnded" by simp
  have "wt_value ?c = wt_value ?run" by (simp add: listener_turns_value)
  also have "\<dots> = last (s # published xs)"
    using value_published [OF assms(2), of ?start] by (simp add: watch_start_def)
  finally have "wt_value ?c = last (s # published xs)" .
  with inv ended show ?thesis by (simp add: run watch_inv_def)
qed

text \<open>A session that starts, runs and is stopped between two turns of its listener.\<close>
theorem status_listener_ends_witness:
  "let c = spawn_session_status_listener ''web'' ([SendStatus Starting, ListenerTurn, SendStatus (Running 0),
      SendStatus Stopped] @ DropSender # replicate 4 ListenerTurn) (watch_start Idle 0 0) in
   wt_pc c = ListenerEnded \<and> wt_events c \<noteq> [] \<and> last (wt_events c) = (''web'', Stopped)"
  using status_listener_ends [of 0 0 "[SendStatus Starting, ListenerTurn, SendStatus (Running 0),
      SendStatus Stopped]" 4 "''web''" Idle] by simp

subsection \<open>The window and the API\<close>

fun cmd_run :: "env \<Rightarrow> app_op \<Rightarrow> 'key app \<Rightarrow> (string + unit) \<times> listener list \<times> 'key app" where
  "cmd_run e (CreateOp cfg) w = cmd_create_session e cfg w"
| "cmd_run e (StopOp n) w = cmd_stop_session e n w"
| "cmd_run e (DeleteOp n) w = cmd_delete_session e n w"
| "cmd_run e (RestartOp n) w = cmd_restart_session e n w"
| "cmd_run e (UpdateOp n cfg) w = cmd_update_session e n cfg w"

text \<open>The request for an operation, and the name in its path.\<close>

fun op_request :: "app_op \<Rightarrow> request" where
  "op_request (CreateOp c) = \<lparr>rq_method = Post, rq_path = [''api'', ''sessions''],
     rq_body = JsonBody (session_json c)\<rparr>"
| "op_request (StopOp n) = \<lparr>rq_method = Post, rq_path = [''api'', ''sessions'', n, ''stop''],
     rq_body = JsonBody VNull\<rparr>"
| "op_request (DeleteOp n) = \<lparr>rq_method = Delete, rq_path = [''api'', ''sessions'', n], rq_body = NoBody\<rparr>"
| "op_request (RestartOp n) = \<lparr>rq_method = Post, rq_path = [''api'', ''sessions'', n, ''restart''],
     rq_body = JsonBody VNull\<rparr>"
| "op_request (UpdateOp n c) = \<lparr>rq_method = Put, rq_path = [''api'', ''sessions'', n],
     rq_body = JsonBody (session_json c)\<rparr>"

fun op_names :: "app_op \<Rightarrow> string list" where
  "op_names (CreateOp c) = []"
| "op_names (StopOp n) = [n]"
| "op_names (DeleteOp n) = [n]"
| "op_names (RestartOp n) = [n]"
| "op_names (UpdateOp n c) = [n]"

lemma op_request_action: "[] \<notin> set (op_names op) \<Longrightarrow> api_action (op_request op) = Operation op"
  by (cases op) (simp_all add: api_action_def api_route_def with_config_def)

lemma unit_answer_cmd:
  "(\<And>er. r = Inl er \<Longrightarrow> \<exists>m. er = Internal m) \<Longrightarrow>
   unit_answer r = (case cmd_result r of Inr _ \<Rightarrow> ok_response VNull | Inl m \<Rightarrow> err_response 500 m)"
  by (cases r) (force simp: unit_answer_def answer_def cmd_result_def)+

lemma request_as_command:
  assumes "[] \<notin> set (op_names op)"
  shows "snd (api_router e rj ports (op_request op) w) = snd (snd (cmd_run e op w))"
    and "fst (api_router e rj ports (op_request op) w) =
      (case fst (cmd_run e op w) of
         Inr _ \<Rightarrow> ok_response VNull
       | Inl m \<Rightarrow> err_response (op_status op False w) m)"
proof -
  have "snd (api_router e rj ports (op_request op) w) = snd (snd (cmd_run e op w)) \<and>
    fst (api_router e rj ports (op_request op) w) =
      (case fst (cmd_run e op w) of
         Inr _ \<Rightarrow> ok_response VNull
       | Inl m \<Rightarrow> err_response (op_status op False w) m)"
  proof (cases op)
    case (CreateOp c)
    obtain r w1 where c: "create_session e c w = (r, w1)" by force
    have "unit_answer r = (case cmd_result r of Inr _ \<Rightarrow> ok_response VNull | Inl m \<Rightarrow> err_response 500 m)"
      by (rule unit_answer_cmd) (use create_error c in blast)
    then show ?thesis
      by (cases r) (auto simp: CreateOp c api_router_def api_route_def json_config_def cmd_create_session_def
          op_status_def cmd_result_def)
  next
    case (StopOp n)
    obtain r w1 where c: "stop_session e n w = (r, w1)" by force
    have "unit_answer r = (case cmd_result r of Inr _ \<Rightarrow> ok_response VNull | Inl m \<Rightarrow> err_response 500 m)"
      by (rule unit_answer_cmd) (use stop_error c in blast)
    then show ?thesis
      using assms by (auto simp: op_status_def StopOp c api_router_def api_route_def cmd_stop_session_def
          split: sum.splits)
  next
    case (DeleteOp n)
    obtain r w1 where c: "delete_session e n w = (r, w1)" by force
    have "unit_answer r = (case cmd_result r of Inr _ \<Rightarrow> ok_response VNull | Inl m \<Rightarrow> err_response 500 m)"
      by (rule unit_answer_cmd) (use delete_error c in blast)
    then show ?thesis
      using assms by (auto simp: op_status_def DeleteOp c api_router_def api_route_def cmd_delete_session_def
          split: sum.splits)
  next
    case (UpdateOp n c)
    obtain r w1 where c: "update_session e n c w = (r, w1)" by force
    have "unit_answer r = (case cmd_result r of Inr _ \<Rightarrow> ok_response VNull | Inl m \<Rightarrow> err_response 500 m)"
      by (rule unit_answer_cmd) (use update_error c in blast)
    then show ?thesis
      using assms by (cases r) (auto simp: UpdateOp c api_router_def api_route_def json_config_def
          cmd_update_session_def op_status_def cmd_result_def)
  next
    case (RestartOp n)
    obtain r w1 where c: "restart_session e n w = (r, w1)" by force
    show ?thesis
    proof (cases r)
      case (Inl er)
      then show ?thesis
        using assms restart_error [OF c]
        by (cases er) (auto simp: RestartOp c api_router_def api_route_def cmd_restart_session_def
            cmd_result_def unit_answer_def answer_def op_status_def)
    qed (use assms in \<open>auto simp: RestartOp c api_router_def api_route_def cmd_restart_session_def
        cmd_result_def unit_answer_def answer_def\<close>)
  qed
  then show "snd (api_router e rj ports (op_request op) w) = snd (snd (cmd_run e op w))"
    "fst (api_router e rj ports (op_request op) w) =
      (case fst (cmd_run e op w) of
         Inr _ \<Rightarrow> ok_response VNull
       | Inl m \<Rightarrow> err_response (op_status op False w) m)" by simp_all
qed

lemma cmd_run_state: "snd (snd (cmd_run e op w)) = snd (run_op e op w)"
  by (cases op)
    (auto simp: cmd_create_session_def cmd_stop_session_def cmd_delete_session_def cmd_restart_session_def
      cmd_update_session_def split: prod.splits sum.splits)

text \<open>
  C20. The window and the HTTP API do the same. For every operation with a name that is not empty, the
  request for it and the command for it leave the same state; the request is answered with success
  exactly when the command succeeds, and its error carries the command's text.
\<close>
theorem window_and_api_agree:
  assumes "[] \<notin> set (op_names op)"
  shows "snd (api_router e rj ports (op_request op) w) = snd (snd (cmd_run e op w)) \<and>
    fst (api_router e rj ports (op_request op) w) =
      (case fst (cmd_run e op w) of
         Inr _ \<Rightarrow> ok_response VNull
       | Inl m \<Rightarrow> err_response (op_status op False w) m)"
  using request_as_command [OF assms] by blast

definition no_texts :: rejections where
  "no_texts = \<lparr>rj_path = (\<lambda>_. ''bad id''), rj_no_json = (\<lambda>_. (415, ''no JSON'')), rj_data = (\<lambda>_. ''bad data'')\<rparr>"

text \<open>Restarting a session that does not exist.\<close>
theorem window_and_api_agree_witness:
  "fst (api_router demo_env no_texts (Inr []) (op_request (RestartOp ''web'')) empty_app) =
     err_response 404 ''no such session''"
proof -
  have "hm_get (runners empty_app) k = None" for k by (simp add: empty_app_def app_new_def)
  then have "fst (cmd_run demo_env (RestartOp ''web'') empty_app) = Inl ''no such session''"
    "op_status (RestartOp ''web'') False empty_app = 404"
    by (simp_all add: cmd_restart_session_def restart_session_def cmd_result_def op_status_def configs_def)
  then show ?thesis
    using window_and_api_agree [of "RestartOp ''web''" demo_env no_texts "Inr []" empty_app] by simp
qed

end
