(* ===== verification/Program.thy ===== *)
theory Program
  imports Boot Commands
begin

text \<open>
  The program as a whole, \<open>main\<close> in \<open>crates/termhub-app/src/main.rs\<close>: after the start of \<open>Boot\<close> it serves
  the HTTP API, if the address can be bound, and opens the window, whose commands are those of
  \<open>Commands\<close>. What happens to it then is any sequence of requests and commands.
\<close>

text \<open>\<open>None\<close>: the API could not be bound, which is only logged; no request gets an answer.\<close>

definition serve_api :: "string option \<Rightarrow> env \<Rightarrow> rejections \<Rightarrow> string + string list \<Rightarrow> request \<Rightarrow> 'key app
    \<Rightarrow> response option \<times> 'key app" where
  "serve_api bind_err e rj ports rq w =
     (case bind_err of
        Some m \<Rightarrow> (None, w)
      | None \<Rightarrow> (let (r, w) = api_router e rj ports rq w in (Some r, w)))"

text \<open>One event of the running program, with what the outside contributes to it.\<close>

datatype program_event =
    HttpRequest env rejections "string + string list" request
  | WindowCommand env app_op
  | WindowKick string u64
  | WindowQuery

fun program_step :: "string option \<Rightarrow> program_event \<Rightarrow> 'key app \<Rightarrow> 'key app" where
  "program_step api_err (HttpRequest e rj ports rq) w = snd (serve_api api_err e rj ports rq w)"
| "program_step api_err (WindowCommand e op) w = snd (snd (cmd_run e op w))"
| "program_step api_err (WindowKick n i) w = snd (cmd_kick_client n i w)"
| "program_step api_err WindowQuery w = w"

definition program_run :: "string option \<Rightarrow> program_event list \<Rightarrow> 'key app \<Rightarrow> 'key app" where
  "program_run api_err es w = fold (program_step api_err) es w"

text \<open>Every event is one operation, a kick, or nothing.\<close>

fun event_saves :: "(string \<Rightarrow> string + string) \<Rightarrow> (val \<Rightarrow> string + string) \<Rightarrow> program_event \<Rightarrow> bool" where
  "event_saves encrypt pr (HttpRequest e rj ports rq) = saves_with encrypt pr e"
| "event_saves encrypt pr (WindowCommand e op) = saves_with encrypt pr e"
| "event_saves encrypt pr _ = True"


lemma kick_client_frame:
  "config_dir (snd (kick_client n i w)) = config_dir w"
  "runners (snd (kick_client n i w)) = runners w"
  "host_key_fpr (snd (kick_client n i w)) = host_key_fpr w"
  "host_keys (snd (kick_client n i w)) = host_keys w"
  by (simp_all add: kick_client_def split: option.splits prod.splits)

lemma serve_api_state:
  "snd (serve_api api_err e rj ports rq w) =
     (if api_err \<noteq> None then w
      else case api_action rq of
          Operation op \<Rightarrow> snd (run_op e op w)
        | Kick n i \<Rightarrow> snd (kick_client n i w)
        | Query \<Rightarrow> w)"
  using api_as_operation [where rq = rq and e = e and rj = rj and ports = ports and w = w]
  by (cases "api_router e rj ports rq w")
    (auto simp: serve_api_def split: option.splits api_action.splits)

text \<open>Induction over a run: what every operation and every kick keeps, the program keeps.\<close>

lemma program_run_induct:
  assumes "\<And>e op w. saves_with encrypt pr e \<Longrightarrow> P w (snd (run_op e op w))" and "\<And>n i w. P w (snd (kick_client n i w))"
    and "\<And>w. P w w" and "\<And>a b c. P a b \<Longrightarrow> P b c \<Longrightarrow> P a c"
    and "list_all (event_saves encrypt pr) es"
  shows "P w (program_run api_err es w)"
  using assms(5)
proof (induction es arbitrary: w)
  case (Cons x es)
  have "P w (program_step api_err x w)"
  proof (cases x)
    case (HttpRequest e rj ports rq)
    then show ?thesis
      using Cons.prems assms(1-3) by (auto simp: serve_api_state split: api_action.split)
  next
    case (WindowCommand e op)
    then show ?thesis using Cons.prems assms(1) by (simp add: cmd_run_state)
  next
    case (WindowKick n i)
    then show ?thesis using assms(2) [of w n i]
      by (cases "kick_client n i w") (simp add: cmd_kick_client_def)
  qed (simp add: assms(3))
  moreover have "P (program_step api_err x w) (program_run api_err es (program_step api_err x w))"
    using Cons by simp
  ultimately show ?case using assms(4) by (simp add: program_run_def)
qed (simp add: program_run_def assms(3))

text \<open>
  However the API and the window are used, the files beside the configuration stay as they are, among
  them the host keys, and the table keeps one entry for each key.
\<close>
lemma program_keeps:
  assumes "list_all (event_saves encrypt pr) es"
  shows "keeps_files pr w (program_run api_err es w)"
    and "hm_ok (runners w) \<Longrightarrow> hm_ok (runners (program_run api_err es w))"
proof -
  show "keeps_files pr w (program_run api_err es w)"
    by (rule program_run_induct [where P = "keeps_files pr", OF _ _ _ _ assms])
      (auto intro: keeps_run_op keeps_trans keeps_refl simp: kick_client_frame)
  have "hm_ok (runners w) \<longrightarrow> hm_ok (runners (program_run api_err es w))"
    by (rule program_run_induct [where P = "\<lambda>w w'. hm_ok (runners w) \<longrightarrow> hm_ok (runners w')", OF _ _ _ _ assms])
      (auto simp: hm_ok_run_op kick_client_frame)
  then show "hm_ok (runners w) \<Longrightarrow> hm_ok (runners (program_run api_err es w))" by blast
qed

end
