(* ===== verification/Cli.thy ===== *)
theory Cli
  imports Commands
begin

text \<open>
  The command line client, \<open>crates/termhub-cli/src/main.rs\<close>: its commands, the conversion of their
  arguments, the HTTP calls, and what it prints. Parsing the arguments (\<open>clap\<close>), sending a request
  (\<open>reqwest\<close>) and laying out a table (\<open>tabled\<close>) are outside: a command is given, a call is answered by
  the parameter \<open>send\<close>, a table is its rows. An error is its text.
\<close>

subsection \<open>Commands\<close>

datatype UpstreamCmd =
    CmdLoopback
  | CmdSerial string u32 byte string byte string string string
  | CmdSsh string u16 string string
  | CmdTelnet string u16
  | CmdRawTcp string u16
  | CmdLocalShell string "string list"
  | CmdHttpProxy string string string

record CreateArgs =
  ca_name :: string
  ca_password :: string
  ca_ssh_user :: string
  ca_listen :: string
  ca_auto_reconnect :: bool
  ca_cols :: "u16 option"
  ca_rows :: "u16 option"
  ca_upstream :: UpstreamCmd

record UpdateArgs =
  ua_name :: string
  ua_password :: "string option"
  ua_ssh_user :: "string option"
  ua_listen :: "string option"
  ua_auto_reconnect :: "bool option"
  ua_upstream :: "UpstreamCmd option"

datatype SessionAction =
    SaList
  | SaCreate CreateArgs
  | SaStop string
  | SaRestart string
  | SaDelete string
  | SaUpdate UpdateArgs

datatype ServerAction = SrvInfo | SrvListen string

datatype ClientAction = CliList string | CliKick string u64

datatype Command =
    CmdSession SessionAction
  | CmdServer ServerAction
  | CmdClient ClientAction
  | CmdSerialPorts

fun upstream_to_spec :: "UpstreamCmd \<Rightarrow> UpstreamSpec" where
  "upstream_to_spec CmdLoopback = Loopback"
| "upstream_to_spec (CmdSerial port baud data_bits parity stop_bits flow input_eol output_eol) =
     Serial port baud data_bits parity stop_bits flow input_eol output_eol"
| "upstream_to_spec (CmdSsh host port user password) = Ssh host port user password"
| "upstream_to_spec (CmdTelnet host port) = UpstreamSpec.Telnet host port"
| "upstream_to_spec (CmdRawTcp host port) = RawTcp host port"
| "upstream_to_spec (CmdLocalShell command args) = LocalShell command args"
| "upstream_to_spec (CmdHttpProxy listen target protocol) = HttpProxy listen target protocol"

subsection \<open>Text\<close>

text \<open>\<open>Value::get\<close>, \<open>as_str\<close>, \<open>as_u64\<close> and \<open>as_bool\<close>: absent on any other kind of value.\<close>

fun vget :: "string \<Rightarrow> val \<Rightarrow> val option" where
  "vget k (VTab t) = map_of t k"
| "vget k _ = None"

fun vstr :: "val \<Rightarrow> string option" where
  "vstr (VStr s) = Some s"
| "vstr _ = None"

fun vu64 :: "val \<Rightarrow> u64 option" where
  "vu64 (VInt i) = (if 0 \<le> i \<and> i < 2 ^ 64 then Some (word_of_int i) else None)"
| "vu64 _ = None"

fun vbool :: "val \<Rightarrow> bool option" where
  "vbool (VBool b) = Some b"
| "vbool _ = None"

text \<open>
  \<open>{other:?}\<close> of an optional string: \<open>None\<close>, or the string in quotes with the usual escapes (the
  characters that have one; others are printed as they are).
\<close>

definition debug_char :: "char \<Rightarrow> string" where
  "debug_char c =
     (let n = char_code c in
      if n = 34 then [char_of (92 :: nat), c] else if n = 92 then [c, c]
      else if n = 10 then [char_of (92 :: nat), CHR ''n''] else if n = 13 then [char_of (92 :: nat), CHR ''r'']
      else if n = 9 then [char_of (92 :: nat), CHR ''t''] else if n = 0 then [char_of (92 :: nat), CHR ''0'']
      else [c])"

definition debug_str_opt :: "string option \<Rightarrow> string" where
  "debug_str_opt s =
     (case s of
        None \<Rightarrow> ''None''
      | Some s \<Rightarrow> ''Some('' @ [char_of (34 :: nat)] @ concat (map debug_char s) @ [char_of (34 :: nat)] @ '')'')"

definition format_status :: "val \<Rightarrow> string" where
  "format_status v =
     (let st = Option.bind (vget ''state'' v) vstr in
      if st = Some ''idle'' then ''idle''
      else if st = Some ''starting'' then ''starting''
      else if st = Some ''running'' then
        (let secs = (case Option.bind (vget ''uptime_secs'' v) vu64 of Some n \<Rightarrow> n | None \<Rightarrow> 0) in
         ''running ('' @ show_word secs @ ''s)'')
      else if st = Some ''reconnecting'' then
        (let n = (case Option.bind (vget ''attempt'' v) vu64 of Some n \<Rightarrow> n | None \<Rightarrow> 0) in
         ''reconnecting #'' @ show_word n)
      else if st = Some ''failed'' then
        (let reason = (case Option.bind (vget ''reason'' v) vstr of Some r \<Rightarrow> r | None \<Rightarrow> ''unknown'') in
         ''failed: '' @ reason)
      else if st = Some ''stopped'' then ''stopped''
      else debug_str_opt st)"

text \<open>\<open>trim_end_matches('/')\<close>.\<close>

definition trim_end_slash :: "string \<Rightarrow> string" where
  "trim_end_slash s = rev (dropWhile (\<lambda>c. c = CHR ''/'') (rev s))"

subsection \<open>Calls\<close>

record http_call =
  hc_method :: http_method
  hc_url :: string
  hc_body :: content

type_synonym 's transport = "http_call \<Rightarrow> 's \<Rightarrow> (string + response) \<times> 's"

text \<open>The texts of the libraries' errors: a body that cannot be decoded, and the display of a status.\<close>

record cli_texts =
  ct_no_json :: "content \<Rightarrow> string"
  ct_decode :: "serde_error \<Rightarrow> string"
  ct_status :: "nat \<Rightarrow> string"

definition decode_json :: "cli_texts \<Rightarrow> 'a reader \<Rightarrow> content \<Rightarrow> string + 'a" where
  "decode_json ct rd b =
     (case b of JsonBody v \<Rightarrow> map_err_res (ct_decode ct) (rd v) | _ \<Rightarrow> Inl (ct_no_json ct b))"

definition unwrap_data :: "'a ApiResponse \<Rightarrow> string + 'a" where
  "unwrap_data b =
     (if ar_ok b then
        (case ar_data b of Some d \<Rightarrow> Inr d | None \<Rightarrow> Inl ''API returned ok=true but no data'')
      else Inl (case ar_error b of Some m \<Rightarrow> m | None \<Rightarrow> ''unknown error''))"

definition api_call :: "cli_texts \<Rightarrow> 's transport \<Rightarrow> http_call \<Rightarrow> 'a reader \<Rightarrow> 's \<Rightarrow> (string + 'a) \<times> 's" where
  "api_call ct send c rd s =
     (let (r, s) = send c s in
      (rbind r (\<lambda>resp. rbind (decode_json ct (read_envelope rd) (rs_body resp)) unwrap_data), s))"

definition api_get :: "cli_texts \<Rightarrow> 's transport \<Rightarrow> string \<Rightarrow> string \<Rightarrow> 'a reader \<Rightarrow> 's
    \<Rightarrow> (string + 'a) \<times> 's" where
  "api_get ct send base path rd s =
     api_call ct send \<lparr>hc_method = Get, hc_url = base @ path, hc_body = NoBody\<rparr> rd s"

definition api_post :: "cli_texts \<Rightarrow> 's transport \<Rightarrow> string \<Rightarrow> string \<Rightarrow> val \<Rightarrow> 'a reader \<Rightarrow> 's
    \<Rightarrow> (string + 'a) \<times> 's" where
  "api_post ct send base path body rd s =
     api_call ct send \<lparr>hc_method = Post, hc_url = base @ path, hc_body = JsonBody body\<rparr> rd s"

definition check_unit_response :: "cli_texts \<Rightarrow> response \<Rightarrow> string + unit" where
  "check_unit_response ct r =
     (let message = (\<lambda>v. case Option.bind (vget ''error'' v) vstr of Some m \<Rightarrow> m | None \<Rightarrow> ''unknown error'') in
      if \<not> (200 \<le> rs_status r \<and> rs_status r < 300) then
        Inl (''HTTP '' @ ct_status ct (rs_status r) @ '': '' @
          (case rs_body r of JsonBody v \<Rightarrow> message v | TextBody t \<Rightarrow> t | NoBody \<Rightarrow> ''''))
      else
        (case rs_body r of
           NoBody \<Rightarrow> Inr ()
         | TextBody t \<Rightarrow> Inl (ct_no_json ct (rs_body r))
         | JsonBody v \<Rightarrow>
             if Option.bind (vget ''ok'' v) vbool = Some True then Inr () else Inl (message v)))"

definition unit_call :: "cli_texts \<Rightarrow> 's transport \<Rightarrow> http_call \<Rightarrow> 's \<Rightarrow> (string + unit) \<times> 's" where
  "unit_call ct send c s = (let (r, s) = send c s in (rbind r (check_unit_response ct), s))"

definition api_post_unit :: "cli_texts \<Rightarrow> 's transport \<Rightarrow> string \<Rightarrow> string \<Rightarrow> val \<Rightarrow> 's
    \<Rightarrow> (string + unit) \<times> 's" where
  "api_post_unit ct send base path body s =
     unit_call ct send \<lparr>hc_method = Post, hc_url = base @ path, hc_body = JsonBody body\<rparr> s"

definition api_put_unit :: "cli_texts \<Rightarrow> 's transport \<Rightarrow> string \<Rightarrow> string \<Rightarrow> val \<Rightarrow> 's
    \<Rightarrow> (string + unit) \<times> 's" where
  "api_put_unit ct send base path body s =
     unit_call ct send \<lparr>hc_method = Put, hc_url = base @ path, hc_body = JsonBody body\<rparr> s"

definition api_delete_unit :: "cli_texts \<Rightarrow> 's transport \<Rightarrow> string \<Rightarrow> string \<Rightarrow> 's \<Rightarrow> (string + unit) \<times> 's" where
  "api_delete_unit ct send base path s =
     unit_call ct send \<lparr>hc_method = Delete, hc_url = base @ path, hc_body = NoBody\<rparr> s"

subsection \<open>The commands\<close>

datatype out =
    Line string
  | JsonOut val
  | TableOut "string list" "string list list"

definition session_row :: "CliSession \<Rightarrow> string list" where
  "session_row s =
     [cl_name s, cl_ssh_user s, cl_listen s, format_status (cl_status s),
      cl_upstream_kind s @ '' ('' @ cl_upstream_summary s @ '')'',
      if cl_auto_reconnect s then ''yes'' else ''no'', show_word (cl_client_count s)]"

definition session_table :: "CliSession list \<Rightarrow> out" where
  "session_table ss = TableOut [''NAME'', ''SSH_USER'', ''LISTEN'', ''STATUS'', ''UPSTREAM'', ''AUTO-RC'', ''CLIENTS'']
     (map session_row ss)"

definition client_row :: "ClientView \<Rightarrow> string list" where
  "client_row c = [show_word (cv_id c), cv_remote c, show_word (cv_connected_at_secs c),
     show_word (cv_bytes_in c), show_word (cv_bytes_out c)]"

definition client_table :: "ClientView list \<Rightarrow> out" where
  "client_table cs = TableOut [''ID'', ''REMOTE'', ''CONNECTED(s)'', ''BYTES_IN'', ''BYTES_OUT''] (map client_row cs)"

text \<open>The views written back as JSON (\<open>to_string_pretty\<close>).\<close>

definition cli_session_val :: "CliSession \<Rightarrow> val" where
  "cli_session_val s = VTab
     [(''name'', VStr (cl_name s)), (''ssh_user'', VStr (cl_ssh_user s)), (''listen'', VStr (cl_listen s)),
      (''status'', cl_status s), (''upstream_kind'', VStr (cl_upstream_kind s)),
      (''upstream_summary'', VStr (cl_upstream_summary s)), (''upstream'', cl_upstream s),
      (''auto_reconnect'', VBool (cl_auto_reconnect s)), (''client_count'', uint_val (cl_client_count s))]"

definition ok_json :: val where
  "ok_json = VTab [(''ok'', VBool True)]"

text \<open>\<open>let x = call.await?; print\<close>.\<close>

definition then_print :: "(string + 'a) \<times> 's \<Rightarrow> ('a \<Rightarrow> out list) \<Rightarrow> (string + out list) \<times> 's" where
  "then_print rs f = (map_res f (fst rs), snd rs)"

definition done_line :: "bool \<Rightarrow> string \<Rightarrow> unit \<Rightarrow> out list" where
  "done_line as_json text u = (if as_json then [JsonOut ok_json] else [Line text])"

text \<open>Rust's quotation mark in the messages.\<close>

definition quoted :: "string \<Rightarrow> string" where
  "quoted s = [char_of (39 :: nat)] @ s @ [char_of (39 :: nat)]"

definition create_config :: "CreateArgs \<Rightarrow> SessionConfig" where
  "create_config a =
     \<lparr>sc_name = ca_name a, sc_password = ca_password a, sc_ssh_user = ca_ssh_user a,
      sc_listen = ca_listen a, sc_auto_reconnect = ca_auto_reconnect a, sc_launch_on_startup = True,
      sc_pty_override = (case (ca_cols a, ca_rows a) of
         (Some c, Some r) \<Rightarrow> Some \<lparr>pty_cols = c, pty_rows = r\<rparr>
       | _ \<Rightarrow> None),
      sc_upstream = upstream_to_spec (ca_upstream a)\<rparr>"

text \<open>The configuration an update sends, from its arguments and the session as the API lists it.\<close>

definition unwrap_or :: "'a option \<Rightarrow> 'a \<Rightarrow> 'a" where
  "unwrap_or x d = (case x of Some v \<Rightarrow> v | None \<Rightarrow> d)"

definition update_config :: "UpdateArgs \<Rightarrow> CliSession \<Rightarrow> SessionConfig" where
  "update_config a current =
     \<lparr>sc_name = ua_name a, sc_password = unwrap_or (ua_password a) (cl_name current),
      sc_ssh_user = unwrap_or (ua_ssh_user a) (cl_ssh_user current),
      sc_listen = unwrap_or (ua_listen a) (cl_listen current),
      sc_auto_reconnect = unwrap_or (ua_auto_reconnect a) (cl_auto_reconnect current),
      sc_launch_on_startup = True, sc_pty_override = None,
      sc_upstream = unwrap_or (map_option upstream_to_spec (ua_upstream a)) Loopback\<rparr>"

fun session_action :: "cli_texts \<Rightarrow> 's transport \<Rightarrow> string \<Rightarrow> bool \<Rightarrow> SessionAction \<Rightarrow> 's
    \<Rightarrow> (string + out list) \<times> 's" where
  "session_action ct send base as_json SaList s =
     then_print (api_get ct send base ''/api/sessions'' (as_list read_cli_session) s)
       (\<lambda>ss. if as_json then [JsonOut (VArr (map cli_session_val ss))] else [session_table ss])"
| "session_action ct send base as_json (SaCreate a) s =
     then_print (api_post_unit ct send base ''/api/sessions'' (session_json (create_config a)) s)
       (done_line as_json (''Session '' @ quoted (ca_name a) @ '' created.''))"
| "session_action ct send base as_json (SaStop n) s =
     then_print (api_post_unit ct send base (''/api/sessions/'' @ n @ ''/stop'') VNull s)
       (done_line as_json (''Session '' @ quoted n @ '' stopped.''))"
| "session_action ct send base as_json (SaRestart n) s =
     then_print (api_post_unit ct send base (''/api/sessions/'' @ n @ ''/restart'') VNull s)
       (done_line as_json (''Session '' @ quoted n @ '' restarted.''))"
| "session_action ct send base as_json (SaDelete n) s =
     then_print (api_delete_unit ct send base (''/api/sessions/'' @ n) s)
       (done_line as_json (''Session '' @ quoted n @ '' deleted.''))"
| "session_action ct send base as_json (SaUpdate a) s =
     (case api_get ct send base ''/api/sessions'' (as_list read_cli_session) s of
        (Inl e, s) \<Rightarrow> (Inl e, s)
      | (Inr sessions, s) \<Rightarrow>
          (case find (\<lambda>c. eq_ignore_ascii_case (cl_name c) (ua_name a)) sessions of
             None \<Rightarrow> (Inl (''session '' @ quoted (ua_name a) @ '' not found''), s)
           | Some current \<Rightarrow>
               then_print (api_put_unit ct send base (''/api/sessions/'' @ ua_name a)
                   (session_json (update_config a current)) s)
                 (done_line as_json (''Session '' @ quoted (ua_name a) @ '' updated.''))))"

fun client_action :: "cli_texts \<Rightarrow> 's transport \<Rightarrow> string \<Rightarrow> bool \<Rightarrow> ClientAction \<Rightarrow> 's
    \<Rightarrow> (string + out list) \<times> 's" where
  "client_action ct send base as_json (CliList session) s =
     then_print (api_get ct send base (''/api/sessions/'' @ session @ ''/clients'') (as_list read_client_view) s)
       (\<lambda>cs. if as_json then [JsonOut (VArr (map client_view_val cs))]
             else if cs = [] then [Line (''No clients connected to session '' @ quoted session @ ''.'')]
             else [client_table cs])"
| "client_action ct send base as_json (CliKick session i) s =
     then_print (api_post ct send base (''/api/sessions/'' @ session @ ''/clients/'' @ show_word i @ ''/kick'')
         VNull as_bool s)
       (\<lambda>result. if as_json then [JsonOut (VTab [(''ok'', VBool True), (''kicked'', VBool result)])]
         else if result then [Line (''Client '' @ show_word i @ '' kicked from session '' @ quoted session @ ''.'')]
         else [Line (''Client '' @ show_word i @ '' not found in session '' @ quoted session @ ''.'')])"

fun server_action :: "cli_texts \<Rightarrow> 's transport \<Rightarrow> string \<Rightarrow> bool \<Rightarrow> ServerAction \<Rightarrow> 's
    \<Rightarrow> (string + out list) \<times> 's" where
  "server_action ct send base as_json SrvInfo s =
     then_print (api_get ct send base ''/api/server'' read_server_info s)
       (\<lambda>i. if as_json then [JsonOut (server_info_val i)]
            else [TableOut [''KEY'', ''VALUE''] [[''Host Key Fingerprint'', si_host_key_fpr i]]])"
| "server_action ct send base as_json (SrvListen addr) s =
     then_print (api_put_unit ct send base ''/api/server/listen'' (VTab [(''addr'', VStr addr)]) s)
       (done_line as_json (''Server listen address changed to '' @ addr @ ''.''))"

definition serial_ports_action :: "cli_texts \<Rightarrow> 's transport \<Rightarrow> string \<Rightarrow> bool \<Rightarrow> 's
    \<Rightarrow> (string + out list) \<times> 's" where
  "serial_ports_action ct send base as_json s =
     then_print (api_get ct send base ''/api/serial-ports'' (as_list as_str) s)
       (\<lambda>ps. if as_json then [JsonOut (VArr (map VStr ps))]
             else if ps = [] then [Line ''No serial ports found.''] else map Line ps)"

definition cli_main :: "cli_texts \<Rightarrow> 's transport \<Rightarrow> string \<Rightarrow> bool \<Rightarrow> Command \<Rightarrow> 's
    \<Rightarrow> (string + out list) \<times> 's" where
  "cli_main ct send api_url as_json cmd s =
     (let base = trim_end_slash api_url in
      case cmd of
        CmdSession a \<Rightarrow> session_action ct send base as_json a s
      | CmdClient a \<Rightarrow> client_action ct send base as_json a s
      | CmdServer a \<Rightarrow> server_action ct send base as_json a s
      | CmdSerialPorts \<Rightarrow> serial_ports_action ct send base as_json s)"

subsection \<open>Texts\<close>

text \<open>Every status of the server is shown as what it is.\<close>

fun status_text :: "SessionStatus \<Rightarrow> string" where
  "status_text Idle = ''idle''"
| "status_text Starting = ''starting''"
| "status_text (Running u) = ''running ('' @ show_word u @ ''s)''"
| "status_text (Reconnecting n) = ''reconnecting #'' @ show_word n"
| "status_text (Failed r) = ''failed: '' @ r"
| "status_text Stopped = ''stopped''"

lemma show_word_ucast: "show_word (ucast (n :: u32) :: u64) = show_word n"
proof -
  have "unat n < 2 ^ 64" using unsigned_less [of n] by (rule order.strict_trans) simp
  then have "unat (ucast n :: u64) = unat n"
    by (simp add: unsigned_ucast_eq take_bit_nat_eq_self)
  then show ?thesis by (simp add: show_word_def)
qed

lemma format_status_val: "format_status (status_val st) = status_text st"
proof (cases st)
  case (Reconnecting n)
  have "uint n < 2 ^ 64" using uint_lt2p [of n] by (rule order.strict_trans) simp
  then show ?thesis using Reconnecting
    by (simp add: format_status_def uint_val_def show_word_ucast)
next
  case (Running u)
  have "uint u < 2 ^ 64" using uint_lt2p [of u] by simp
  then show ?thesis using Running by (simp add: format_status_def uint_val_def)
qed (simp_all add: format_status_def)

text \<open>The address loses the slashes at its end and nothing else.\<close>

lemma trim_end_slash_simps [simp]:
  "trim_end_slash (s @ [CHR ''/'']) = trim_end_slash s"
  "c \<noteq> CHR ''/'' \<Longrightarrow> trim_end_slash (s @ [c]) = s @ [c]"
  by (simp_all add: trim_end_slash_def)

end
