(* ===== verification/Cli_Server.thy ===== *)
theory Cli_Server
  imports Cli
begin

text \<open>
  The client against the server: a command of \<open>termhub-cli\<close> sent over HTTP to the API of the
  program. How a URL becomes the segments of a path (percent encoding by \<open>reqwest\<close>, routing by \<open>axum\<close>)
  is the parameter \<open>segs\<close>, of which only one law is used: a path made of plain segments arrives as
  these segments. Names with other characters are outside of it, and indeed \<open>a/b\<close>, a name the program
  accepts, cannot be addressed.
\<close>

definition plain :: "string \<Rightarrow> bool" where
  "plain s = (s \<noteq> [] \<and> list_all name_char s \<and> s \<noteq> ''.'' \<and> s \<noteq> ''..'')"

definition path_of :: "string list \<Rightarrow> string" where
  "path_of ss = concat (map (\<lambda>s. CHR ''/'' # s) ss)"

text \<open>The connection: the request reaches the server when the URL begins with its address.\<close>

definition net :: "(string \<Rightarrow> string list) \<Rightarrow> string \<Rightarrow> env \<Rightarrow> rejections \<Rightarrow> string + string list
    \<Rightarrow> 'key app transport" where
  "net segs base e rj ports c w =
     (case strip_prefix base (hc_url c) of
        None \<Rightarrow> (Inl ''connection refused'', w)
      | Some p \<Rightarrow>
          (let (r, w) = api_router e rj ports
             \<lparr>rq_method = hc_method c, rq_path = segs p, rq_body = hc_body c\<rparr> w
           in (Inr r, w)))"

locale url_path =
  fixes segs :: "string \<Rightarrow> string list"
  assumes segs_plain: "ss \<noteq> [] \<Longrightarrow> list_all plain ss \<Longrightarrow> segs (path_of ss) = ss"
begin

lemma net_plain:
  assumes "ss \<noteq> []" and "list_all plain ss"
  shows "net segs base e rj ports \<lparr>hc_method = m, hc_url = base @ path_of ss, hc_body = b\<rparr> w =
    (Inr (fst (api_router e rj ports \<lparr>rq_method = m, rq_path = ss, rq_body = b\<rparr> w)),
     snd (api_router e rj ports \<lparr>rq_method = m, rq_path = ss, rq_body = b\<rparr> w))"
  using assms by (simp add: net_def segs_plain split: prod.splits)

lemma unit_call_plain:
  assumes "ss \<noteq> []" and "list_all plain ss"
  shows "unit_call ct (net segs base e rj ports) \<lparr>hc_method = m, hc_url = base @ path_of ss, hc_body = b\<rparr> w =
    (check_unit_response ct (fst (api_router e rj ports \<lparr>rq_method = m, rq_path = ss, rq_body = b\<rparr> w)),
     snd (api_router e rj ports \<lparr>rq_method = m, rq_path = ss, rq_body = b\<rparr> w))"
  by (simp add: unit_call_def net_plain [OF assms])

lemma api_call_plain:
  assumes "ss \<noteq> []" and "list_all plain ss"
  shows "api_call ct (net segs base e rj ports) \<lparr>hc_method = m, hc_url = base @ path_of ss, hc_body = b\<rparr> rd w =
    (rbind (decode_json ct (read_envelope rd)
        (rs_body (fst (api_router e rj ports \<lparr>rq_method = m, rq_path = ss, rq_body = b\<rparr> w)))) unwrap_data,
     snd (api_router e rj ports \<lparr>rq_method = m, rq_path = ss, rq_body = b\<rparr> w))"
  by (simp add: api_call_def net_plain [OF assms])

end

subsection \<open>Splitting at the slashes\<close>

text \<open>The law holds where a path is just split at its slashes.\<close>

fun split_path :: "string \<Rightarrow> string list" where
  "split_path [] = [[]]"
| "split_path (c # cs) =
     (if c = CHR ''/'' then [] # split_path cs
      else (case split_path cs of [] \<Rightarrow> [[c]] | s # ss \<Rightarrow> (c # s) # ss))"

definition path_segs :: "string \<Rightarrow> string list" where
  "path_segs p = tl (split_path p)"

lemma split_path_segment:
  "CHR ''/'' \<notin> set s \<Longrightarrow> split_path (s @ CHR ''/'' # r) = s # split_path r"
  "CHR ''/'' \<notin> set s \<Longrightarrow> split_path s = [s]"
  by (induction s) auto

lemma split_path_of: "list_all (\<lambda>s. CHR ''/'' \<notin> set s) ss \<Longrightarrow> split_path (path_of ss) = [] # ss"
proof (induction ss)
  case (Cons s ss)
  then have s: "CHR ''/'' \<notin> set s" by simp
  show ?case
  proof (cases ss)
    case Nil
    then show ?thesis using s by (simp add: path_of_def split_path_segment(2))
  next
    case (Cons t ts)
    have "path_of (s # ss) = CHR ''/'' # s @ CHR ''/'' # tl (path_of ss)"
      by (simp add: path_of_def Cons)
    moreover have "path_of ss = CHR ''/'' # tl (path_of ss)" by (simp add: path_of_def Cons)
    then have "split_path (path_of ss) = [] # split_path (tl (path_of ss))"
      by (metis split_path.simps(2))
    ultimately show ?thesis
      using Cons.IH Cons.prems s by (simp add: split_path_segment(1))
  qed
qed (simp add: path_of_def)

lemma plain_no_slash: "plain s \<Longrightarrow> CHR ''/'' \<notin> set s"
proof
  assume "plain s" and "CHR ''/'' \<in> set s"
  then have "name_char CHR ''/''" by (auto simp: plain_def list_all_iff)
  moreover have "\<not> name_char CHR ''/''" by code_simp
  ultimately show False by simp
qed

interpretation split: url_path path_segs
proof
  fix ss
  assume "list_all plain ss"
  then have "list_all (\<lambda>s. CHR ''/'' \<notin> set s) ss" by (auto simp: list_all_iff dest: plain_no_slash)
  then show "path_segs (path_of ss) = ss" by (simp add: path_segs_def split_path_of)
qed

subsection \<open>Answers as the client reads them\<close>

lemma check_ok [simp]: "check_unit_response ct (ok_response VNull) = Inr ()"
  by (simp add: check_unit_response_def ok_response_def envelope_val_def)

lemma check_err [simp]:
  "300 \<le> st \<Longrightarrow> check_unit_response ct (err_response st m) = Inl (''HTTP '' @ ct_status ct st @ '': '' @ m)"
  by (simp add: check_unit_response_def err_response_def envelope_val_def)

lemma op_status_failed: "300 \<le> op_status op False w"
  by (simp add: op_status_def split: app_op.splits)

text \<open>The answer to the request for an operation, read by the client.\<close>

definition cli_result :: "cli_texts \<Rightarrow> env \<Rightarrow> app_op \<Rightarrow> 'key app \<Rightarrow> string + unit" where
  "cli_result ct e op w =
     (case fst (cmd_run e op w) of
        Inl m \<Rightarrow> Inl (''HTTP '' @ ct_status ct (op_status op False w) @ '': '' @ m)
      | Inr _ \<Rightarrow> Inr ())"

lemma check_op_request:
  assumes "[] \<notin> set (op_names op)"
  shows "check_unit_response ct (fst (api_router e rj ports (op_request op) w)) = cli_result ct e op w"
  unfolding request_as_command(2) [OF assms] cli_result_def
  by (auto simp: op_status_failed split: sum.splits)

lemma cmd_run_ok: "is_ok (fst (cmd_run e op w)) = fst (run_op e op w)"
proof (cases op)
  case (CreateOp c)
  obtain r w' where "create_session e c w = (r, w')" by force
  then show ?thesis by (cases r) (auto simp: CreateOp cmd_create_session_def cmd_result_def)
next
  case (StopOp n)
  obtain r w' where "stop_session e n w = (r, w')" by force
  then show ?thesis by (cases r) (auto simp: StopOp cmd_stop_session_def cmd_result_def)
next
  case (DeleteOp n)
  obtain r w' where "delete_session e n w = (r, w')" by force
  then show ?thesis by (cases r) (auto simp: DeleteOp cmd_delete_session_def cmd_result_def)
next
  case (RestartOp n)
  obtain r w' where "restart_session e n w = (r, w')" by force
  then show ?thesis by (cases r) (auto simp: RestartOp cmd_restart_session_def cmd_result_def)
next
  case (UpdateOp n c)
  obtain r w' where "update_session e n c w = (r, w')" by force
  then show ?thesis by (cases r) (auto simp: UpdateOp cmd_update_session_def cmd_result_def)
qed

lemma cli_result_ok: "is_ok (cli_result ct e op w) = fst (run_op e op w)"
  unfolding cmd_run_ok [symmetric] by (cases "fst (cmd_run e op w)") (simp_all add: cli_result_def)

lemma fixed_plain [simp]:
  "plain ''api''" "plain ''sessions''" "plain ''stop''" "plain ''restart''" "plain ''clients''"
  "plain ''kick''" "plain ''server''" "plain ''listen''" "plain ''serial-ports''"
  by code_simp+

lemma api_paths:
  "path_of [''api'', ''sessions''] = ''/api/sessions''"
  "path_of [''api'', ''sessions'', n] = ''/api/sessions/'' @ n"
  "path_of [''api'', ''sessions'', n, ''stop''] = ''/api/sessions/'' @ n @ ''/stop''"
  "path_of [''api'', ''sessions'', n, ''restart''] = ''/api/sessions/'' @ n @ ''/restart''"
  "path_of [''api'', ''sessions'', n, ''clients''] = ''/api/sessions/'' @ n @ ''/clients''"
  "path_of [''api'', ''sessions'', n, ''clients'', i, ''kick''] =
     ''/api/sessions/'' @ n @ ''/clients/'' @ i @ ''/kick''"
  "path_of [''api'', ''server''] = ''/api/server''"
  "path_of [''api'', ''server'', ''listen''] = ''/api/server/listen''"
  "path_of [''api'', ''serial-ports''] = ''/api/serial-ports''"
  by (simp_all add: path_of_def)

context url_path
begin

lemma unit_call_op:
  assumes "list_all plain (op_names op)"
  shows "unit_call ct (net segs base e rj ports)
      \<lparr>hc_method = rq_method (op_request op), hc_url = base @ path_of (rq_path (op_request op)),
       hc_body = rq_body (op_request op)\<rparr> w = (cli_result ct e op w, snd (run_op e op w))"
proof -
  have ne: "[] \<notin> set (op_names op)" using assms by (auto simp: list_all_iff plain_def)
  have p: "rq_path (op_request op) \<noteq> []" "list_all plain (rq_path (op_request op))"
    using assms by (cases op; simp)+
  have rq: "\<lparr>rq_method = rq_method (op_request op), rq_path = rq_path (op_request op),
      rq_body = rq_body (op_request op)\<rparr> = op_request op" by simp
  show ?thesis
    unfolding unit_call_plain [OF p] rq check_op_request [OF ne]
    using request_as_command(1) [OF ne, of e rj ports w] by (simp add: cmd_run_state)
qed

end

subsection \<open>Commands that are one operation\<close>

fun cli_op :: "SessionAction \<Rightarrow> app_op option" where
  "cli_op (SaCreate a) = Some (CreateOp (create_config a))"
| "cli_op (SaStop n) = Some (StopOp n)"
| "cli_op (SaRestart n) = Some (RestartOp n)"
| "cli_op (SaDelete n) = Some (DeleteOp n)"
| "cli_op _ = None"

fun done_text :: "SessionAction \<Rightarrow> string" where
  "done_text (SaCreate a) = ''Session '' @ quoted (ca_name a) @ '' created.''"
| "done_text (SaStop n) = ''Session '' @ quoted n @ '' stopped.''"
| "done_text (SaRestart n) = ''Session '' @ quoted n @ '' restarted.''"
| "done_text (SaDelete n) = ''Session '' @ quoted n @ '' deleted.''"
| "done_text _ = ''''"

context url_path
begin

lemma session_action_op:
  assumes "cli_op a = Some op" and "list_all plain (op_names op)"
  shows "session_action ct (net segs base e rj ports) base as_json a w =
    (map_res (done_line as_json (done_text a)) (cli_result ct e op w), snd (run_op e op w))"
  using assms unit_call_op [OF assms(2), of ct base e rj ports w]
  by (cases a) (auto simp: then_print_def api_post_unit_def api_delete_unit_def api_paths)

end


definition plain_texts :: cli_texts where
  "plain_texts = \<lparr>ct_no_json = (\<lambda>_. ''not JSON''), ct_decode = (\<lambda>_. ''bad document''),
     ct_status = (\<lambda>n. if n = 404 then ''404 Not Found'' else show_nat n)\<rparr>"


subsection \<open>Updating\<close>

lemma find_map: "find P (map f xs) = map_option f (find (P \<circ> f) xs)"
  by (induction xs) auto

lemma find_entry:
  "list_all (\<lambda>(k, r). to_ascii_lowercase (sc_name (re_config r)) = k) m \<Longrightarrow> hm_get m k = Some r \<Longrightarrow>
   find (\<lambda>r. to_ascii_lowercase (sc_name (re_config r)) = k) (hm_values m) = Some r"
  by (induction m) (auto simp: hm_values_def split: if_splits)

lemma keys_ok_entries:
  assumes "keys_ok w" and "hm_ok (runners w)"
  shows "list_all (\<lambda>(k, r). to_ascii_lowercase (sc_name (re_config r)) = k) (runners w)"
  using assms by (auto simp: list_all_iff keys_ok_def hm_get_iff [symmetric])

lemma read_views:
  "\<forall>v \<in> set vs. v_client_count v < 2 ^ 64 \<Longrightarrow>
   as_list read_cli_session (VArr (map session_view_val vs)) = Inr (map cli_session_of vs)"
  by (induction vs) (auto simp: read_session_view)

context url_path
begin

lemma list_call:
  assumes "\<forall>v \<in> set (list_sessions w). v_client_count v < 2 ^ 64"
  shows "api_get ct (net segs base e rj ports) base ''/api/sessions'' (as_list read_cli_session) w =
    (Inr (map cli_session_of (list_sessions w)), w)"
proof -
  have p: "[''api'', ''sessions''] \<noteq> []" "list_all plain [''api'', ''sessions'']" by simp_all
  note rd = read_envelope_ok [of "as_list read_cli_session" "VArr (map session_view_val (list_sessions w))"
      "map cli_session_of (list_sessions w)", OF read_views [OF assms]]
  show ?thesis
    using api_call_plain [OF p, of ct base e rj ports Get NoBody "as_list read_cli_session" w]
    by (simp add: api_get_def api_paths api_router_def api_route_def ok_response_def decode_json_def
        rd unwrap_data_def)
qed

lemma update_action:
  assumes "\<forall>v \<in> set (list_sessions w). v_client_count v < 2 ^ 64" and "keys_ok w" and "hm_ok (runners w)"
    and "hm_get (runners w) (to_ascii_lowercase (ua_name a)) = Some r" and "plain (ua_name a)"
  shows "session_action ct (net segs base e rj ports) base as_json (SaUpdate a) w =
    (map_res (done_line as_json (''Session '' @ quoted (ua_name a) @ '' updated.''))
       (cli_result ct e (UpdateOp (ua_name a) (update_config a (cli_session_of (session_view w r)))) w),
     snd (run_op e (UpdateOp (ua_name a) (update_config a (cli_session_of (session_view w r)))) w))"
proof -
  have "find (\<lambda>c. eq_ignore_ascii_case (cl_name c) (ua_name a)) (map cli_session_of (list_sessions w)) =
      Some (cli_session_of (session_view w r))"
    using find_entry [OF keys_ok_entries [OF assms(2,3)] assms(4)]
    by (simp add: list_sessions_def find_map o_def eq_ignore_ascii_case_def cli_session_of_def
        session_view_def Let_def)
  moreover have "list_all plain (op_names
      (UpdateOp (ua_name a) (update_config a (cli_session_of (session_view w r)))))"
    using assms(5) by simp
  ultimately show ?thesis
    using unit_call_op [of "UpdateOp (ua_name a) (update_config a (cli_session_of (session_view w r)))"
        ct base e rj ports w]
    by (simp add: list_call [OF assms(1)] then_print_def api_put_unit_def api_paths)
qed

end


text \<open>
  C36. Updating a session from the command line loses what is not given again. An \<open>update\<close> that reports
  success without \<open>--password\<close> and without an upstream leaves the session with its own name as
  password and with the loopback upstream, whatever it had before: the client sends both as
  placeholders, and the program keeps a password only for an empty one. The size of its terminal is
  lost with them.
\<close>
theorem cli_update_overwrites:
  assumes "\<And>ss. ss \<noteq> [] \<Longrightarrow> list_all plain ss \<Longrightarrow> segs (path_of ss) = ss"
    and "\<forall>v \<in> set (list_sessions w). v_client_count v < 2 ^ 64" and "keys_ok w" and "hm_ok (runners w)"
    and "configs w (to_ascii_lowercase (ua_name a)) = Some c" and "plain (ua_name a)"
    and "ua_password a = None" and "ua_upstream a = None"
    and "cli_main ct (net segs (trim_end_slash url) e rj ports) url as_json (CmdSession (SaUpdate a)) w = (Inr out, w')"
  shows "configs w' (to_ascii_lowercase (ua_name a)) = Some
    \<lparr>sc_name = ua_name a, sc_password = sc_name c, sc_ssh_user = unwrap_or (ua_ssh_user a) (sc_ssh_user c),
     sc_listen = unwrap_or (ua_listen a) (sc_listen c),
     sc_auto_reconnect = unwrap_or (ua_auto_reconnect a) (sc_auto_reconnect c), sc_launch_on_startup = True,
     sc_pty_override = None, sc_upstream = Loopback\<rparr>"
proof -
  have u: "url_path segs" using assms(1) by (rule url_path.intro)
  obtain r where r: "hm_get (runners w) (to_ascii_lowercase (ua_name a)) = Some r" "re_config r = c"
    using assms(5) by (auto simp: configs_def)
  let ?cfg = "update_config a (cli_session_of (session_view w r))"
  let ?op = "UpdateOp (ua_name a) ?cfg"
  have cfg: "?cfg = \<lparr>sc_name = ua_name a, sc_password = sc_name c,
      sc_ssh_user = unwrap_or (ua_ssh_user a) (sc_ssh_user c), sc_listen = unwrap_or (ua_listen a) (sc_listen c),
      sc_auto_reconnect = unwrap_or (ua_auto_reconnect a) (sc_auto_reconnect c), sc_launch_on_startup = True,
      sc_pty_override = None, sc_upstream = Loopback\<rparr>"
    by (simp add: update_config_def cli_session_of_def session_view_def Let_def r(2) assms(7,8) unwrap_or_def)
  have "(map_res (done_line as_json (''Session '' @ quoted (ua_name a) @ '' updated.'')) (cli_result ct e ?op w),
      snd (run_op e ?op w)) = (Inr out, w')"
    using assms(9) url_path.update_action [OF u assms(2-4) r(1) assms(6)] by (simp add: cli_main_def)
  then have ok: "is_ok (cli_result ct e ?op w)" and w': "snd (run_op e ?op w) = w'"
    by (cases "cli_result ct e ?op w"; simp)+
  from ok have "run_op e ?op w = (True, w')"
    unfolding cli_result_ok w' [symmetric] by (metis prod.collapse)
  then have s: "configs w' = spec_op ?op (configs w)" using operations_refine [OF assms(3)] by blast
  have "to_ascii_lowercase (sc_name c) = to_ascii_lowercase (ua_name a)"
    using assms(3,5) by (simp add: keys_ok_configs)
  moreover have "ua_name a \<noteq> []" using assms(6) by (simp add: plain_def)
  ultimately have "sc_name c \<noteq> []" by (metis to_ascii_lowercase_Nil_iff)
  then show ?thesis by (simp add: s cfg Let_def assms(5))
qed


text \<open>A stopped session with a telnet upstream and a password of its own.\<close>

definition old_config :: SessionConfig where
  "old_config = demo_session\<lparr>sc_name := ''web'', sc_upstream := Telnet ''10.0.0.1'' 23\<rparr>"

definition web_app :: "string app" where
  "web_app = empty_app\<lparr>runners := [(''web'',
     \<lparr>re_started = None, re_config = old_config, re_proxy_cancel = None, re_sshd_cancel = None,
       re_sshd_handle = None, re_session_mgr = None\<rparr>)]\<rparr>"

definition listen_only :: UpdateArgs where
  "listen_only = \<lparr>ua_name = ''web'', ua_password = None, ua_ssh_user = None, ua_listen = Some ''0.0.0.0:22'',
     ua_auto_reconnect = None, ua_upstream = None\<rparr>"

theorem cli_update_overwrites_witness:
  "\<exists>out w'. cli_main plain_texts (net path_segs (trim_end_slash ''http://h/'') demo_env no_texts (Inr [])) ''http://h/''
      False (CmdSession (SaUpdate listen_only)) web_app = (Inr out, w') \<and>
    configs web_app ''web'' = Some old_config \<and>
    configs w' ''web'' = Some \<lparr>sc_name = ''web'', sc_password = ''web'', sc_ssh_user = ''admin'',
      sc_listen = ''0.0.0.0:22'', sc_auto_reconnect = True, sc_launch_on_startup = True,
      sc_pty_override = None, sc_upstream = Loopback\<rparr>"
proof -
  have lower: "to_ascii_lowercase ''web'' = ''web''" by code_simp
  have n: "ua_name listen_only = ''web''" by (simp add: listen_only_def)
  have small: "\<forall>v \<in> set (list_sessions web_app). v_client_count v < 2 ^ 64"
    by (simp add: list_sessions_def session_view_def web_app_def hm_values_def mgr_entry_def Let_def)
  have keys: "keys_ok web_app" "hm_ok (runners web_app)"
    using lower by (auto simp: keys_ok_def hm_ok_def web_app_def old_config_def)
  have old: "configs web_app ''web'' = Some old_config" by (simp add: configs_def web_app_def)
  obtain r where r: "hm_get (runners web_app) (to_ascii_lowercase (ua_name listen_only)) = Some r"
    by (simp add: web_app_def n lower)
  let ?cfg = "update_config listen_only (cli_session_of (session_view web_app r))"
  let ?op = "UpdateOp (ua_name listen_only) ?cfg"
  have plain: "plain (ua_name listen_only)" unfolding n by code_simp
  have "can_start (kept_password ''web'' ?cfg web_app)"
  proof -
    have "re_config r = old_config" using old r by (simp add: configs_def n lower)
    moreover have "normalize_name ''admin'' = Some ''admin''" by code_simp
    ultimately show ?thesis
      by (simp add: can_start_def kept_password_def update_config_def cli_session_of_def session_view_def
          Let_def old_config_def demo_session_def listen_only_def unwrap_or_def split: option.splits)
  qed
  then have "is_ok (cli_result plain_texts demo_env ?op web_app)"
    unfolding cli_result_ok by (simp only: n demo_update)
  moreover obtain w' where "snd (run_op demo_env ?op web_app) = w'" by blast
  ultimately obtain out where run: "cli_main plain_texts (net path_segs (trim_end_slash ''http://h/'') demo_env
      no_texts (Inr [])) ''http://h/'' False (CmdSession (SaUpdate listen_only)) web_app = (Inr out, w')"
    using split.update_action [OF small keys r plain, of plain_texts "trim_end_slash ''http://h/''" demo_env
        no_texts "Inr []" False]
    by (cases "cli_result plain_texts demo_env ?op web_app") (simp_all add: cli_main_def)
  have "configs web_app (to_ascii_lowercase (ua_name listen_only)) = Some old_config"
    by (simp add: n lower old)
  from cli_update_overwrites [OF split.segs_plain small keys this plain _ _ run]
  have "configs w' ''web'' = Some \<lparr>sc_name = ''web'', sc_password = ''web'', sc_ssh_user = ''admin'',
      sc_listen = ''0.0.0.0:22'', sc_auto_reconnect = True, sc_launch_on_startup = True,
      sc_pty_override = None, sc_upstream = Loopback\<rparr>"
    by (simp add: listen_only_def old_config_def demo_session_def unwrap_or_def lower)
  with run old show ?thesis by blast
qed

subsection \<open>The address of the server\<close>

text \<open>
  \<open>server listen\<close> calls a route that the API does not have: the command always ends with the status
  of an unknown path and changes nothing.
\<close>
lemma server_listen_fails:
  assumes "url_path segs"
  shows "cli_main ct (net segs (trim_end_slash url) e rj ports) url as_json (CmdServer (SrvListen addr)) w =
    (Inl (''HTTP '' @ ct_status ct 404 @ '': ''), w)"
proof -
  have p: "[''api'', ''server'', ''listen''] \<noteq> []" "list_all plain [''api'', ''server'', ''listen'']"
    by simp code_simp
  show ?thesis
    using url_path.unit_call_plain [OF assms p, of ct "trim_end_slash url" e rj ports Put _ w]
    by (simp add: cli_main_def then_print_def api_put_unit_def api_paths api_router_def api_route_def
        check_unit_response_def)
qed


subsection \<open>Kicking a client\<close>

lemma plain_show_word: "plain (show_word (i :: u64))"
proof -
  obtain c cs where s: "show_nat (unat i) = c # cs" by (rule show_nat_Cons)
  have "list_all name_char (show_nat (unat i))"
    using show_nat_digits digit_chars by (fastforce simp: list_all_iff)
  moreover have "c \<noteq> CHR ''.''" using show_nat_digits [of c "unat i"] digit_chars s by auto
  ultimately show ?thesis by (simp add: plain_def show_word_def s)
qed

text \<open>The number of a client survives its way through the URL; the command kicks that client.\<close>
lemma cli_kicks_client:
  assumes "url_path segs" and "plain n"
  shows "cli_main ct (net segs (trim_end_slash url) e rj ports) url True (CmdClient (CliKick n i)) w =
    (Inr [JsonOut (VTab [(''ok'', VBool True), (''kicked'', VBool (fst (kick_client n i w)))])],
     snd (kick_client n i w))"
proof -
  have p: "[''api'', ''sessions'', n, ''clients'', show_word i, ''kick''] \<noteq> []"
    "list_all plain [''api'', ''sessions'', n, ''clients'', show_word i, ''kick'']"
    by simp (simp add: assms(2) plain_show_word)
  have "n \<noteq> []" "show_word i \<noteq> []" using assms(2) plain_show_word by (auto simp: plain_def)
  obtain b w' where k: "kick_client n i w = (b, w')" by force
  have rd: "read_envelope as_bool (envelope_val True (Some (VBool b)) None) =
      Inr \<lparr>ar_ok = True, ar_data = Some b, ar_error = None\<rparr>"
    by (rule read_envelope_ok) simp_all
  show ?thesis
    using url_path.api_call_plain [OF assms(1) p, of ct "trim_end_slash url" e rj ports Post _ as_bool w]
    by (simp add: cli_main_def then_print_def api_post_def api_paths api_router_def api_route_def
        \<open>n \<noteq> []\<close> \<open>show_word i \<noteq> []\<close> parse_show_word k ok_response_def decode_json_def rd unwrap_data_def)
qed

end
