(* ===== verification/Build_Icon.thy ===== *)
theory Build_Icon
  imports TermHub_Prelude
begin

text \<open>
  The build script of the desktop program, \<open>crates/termhub-app/build.rs\<close>: the path of the icon is
  written into a Windows resource script as a quoted string. \<open>canonicalize\<close> of the standard library
  and the resource compiler are not part of the source; the path is an argument, as displayed.
\<close>

abbreviation quote_char :: char where
  "quote_char \<equiv> CHR 0x22"

abbreviation backslash :: char where
  "backslash \<equiv> CHR 0x5C"

definition escape_rc_char :: "char \<Rightarrow> string" where
  "escape_rc_char c =
     (if c = quote_char then [quote_char, quote_char]
      else if c = backslash then [backslash, backslash]
      else [c])"

definition escape_rc_string :: "string \<Rightarrow> string" where
  "escape_rc_string s = concat (map escape_rc_char s)"

definition strip_verbatim_windows_prefix :: "string \<Rightarrow> string" where
  "strip_verbatim_windows_prefix path =
     (case strip_prefix ([backslash, backslash, CHR ''?'', backslash] @ ''UNC'' @ [backslash]) path of
        Some rest \<Rightarrow> [backslash, backslash] @ rest
      | None \<Rightarrow>
          (case strip_prefix [backslash, backslash, CHR ''?'', backslash] path of
             Some rest \<Rightarrow> rest
           | None \<Rightarrow> path))"

text \<open>The line of the resource script for the icon at a path.\<close>

definition rc_content :: "string \<Rightarrow> string" where
  "rc_content icon_abs =
     ''1 ICON '' @ [quote_char] @ escape_rc_string (strip_verbatim_windows_prefix icon_abs) @
     [quote_char, CHR 0x0A]"

subsection \<open>The quoted string is read back\<close>

text \<open>
  A reader of such a string: a doubled quote is a quote, a doubled backslash a backslash, a single
  quote ends it; a single backslash would begin another escape and is refused. It returns the text
  and what follows the closing quote.
\<close>

fun read_rc_string :: "string \<Rightarrow> (string \<times> string) option" where
  "read_rc_string [] = None"
| "read_rc_string (c # cs) =
     (if c = quote_char then
        (case cs of
           d # ds \<Rightarrow>
             if d = quote_char then map_option (\<lambda>(s, r). (quote_char # s, r)) (read_rc_string ds)
             else Some ([], cs)
         | [] \<Rightarrow> Some ([], []))
      else if c = backslash then
        (case cs of
           d # ds \<Rightarrow>
             if d = backslash then map_option (\<lambda>(s, r). (backslash # s, r)) (read_rc_string ds) else None
         | [] \<Rightarrow> None)
      else map_option (\<lambda>(s, r). (c # s, r)) (read_rc_string cs))"

lemma escape_rc_simps [simp]:
  "escape_rc_string [] = []"
  "escape_rc_string (c # s) = escape_rc_char c @ escape_rc_string s"
  by (simp_all add: escape_rc_string_def)

lemma read_escaped:
  "read_rc_string (escape_rc_string s @ [quote_char, CHR 0x0A]) = Some (s, [CHR 0x0A])"
  by (induction s) (simp_all add: escape_rc_char_def)

text \<open>
  The script names the icon: the line is read back as the path, whatever characters it has, and the
  path is the given one up to the verbatim prefix of Windows.
\<close>
lemma rc_content_names_icon:
  "\<exists>q. rc_content path = ''1 ICON '' @ [quote_char] @ q \<and>
     read_rc_string q = Some (strip_verbatim_windows_prefix path, [CHR 0x0A])"
  unfolding rc_content_def by (intro exI conjI) (rule refl, simp add: read_escaped)

lemma strip_verbatim_cases:
  "strip_verbatim_windows_prefix ([backslash, backslash, CHR ''?'', backslash] @ ''UNC'' @ [backslash] @ s) =
     [backslash, backslash] @ s"
  "c \<noteq> CHR ''U'' \<Longrightarrow>
     strip_verbatim_windows_prefix ([backslash, backslash, CHR ''?'', backslash] @ c # s) = c # s"
  "c \<noteq> backslash \<Longrightarrow> strip_verbatim_windows_prefix (c # s) = c # s"
  by (simp_all add: strip_verbatim_windows_prefix_def)

end
