(* ===== verification/Spec2Isabelle.thy ===== *)
theory Spec2Isabelle
  imports Backoff Eol Telnet Stream_Drivers Local_Shell Factory Port_Forward Runner Runner_Machine
    Runner_Pipes Clients Session_Mgr Hub Secrets Config Persist App_State App_Logic App_Operations App_Main Sshd
    Sshd_Server Host_Key Boot Api_Server Commands Program Cli Cli_Server Build_Icon
begin

text \<open>
  TermHub shares one upstream connection (a serial line, a Telnet, TCP or SSH host, a local shell)
  among several SSH clients. This development models the Rust crates under \<open>src/crates\<close> and proves
  what makes each part, and the program that they form, correct.

  \<^bold>\<open>The parts and how they work together.\<close> A session is a \<^emph>\<open>hub\<close> between two queues and a
  \<^emph>\<open>runner\<close> that keeps a \<^emph>\<open>driver\<close> connected to the upstream: it starts the driver, passes on its
  events, publishes the status of the session on a watch channel and waits with a \<^emph>\<open>back-off\<close> between
  attempts. A session that only forwards a port has no hub, but a \<^emph>\<open>forwarding\<close> task. Each session
  with a hub has an \<^emph>\<open>SSH server\<close> of its own, whose connections are authenticated against a
  \<^emph>\<open>session table\<close> with one entry, subscribe to the hub and are listed in a \<^emph>\<open>client registry\<close>. The
  desktop program keeps the table of all sessions (\<^emph>\<open>program state\<close>), changes it by five
  \<^emph>\<open>operations\<close> (create, stop, delete, restart, update), each of which ends with saving the
  \<^emph>\<open>configuration\<close>, and offers the operations to its window (\<^emph>\<open>commands\<close>) and over HTTP (\<^emph>\<open>API\<close>),
  which the \<^emph>\<open>command line client\<close> calls. Its \<^emph>\<open>start\<close> loads the configuration and the \<^emph>\<open>host keys\<close>
  and starts the sessions that were not stopped.
\<close>

text \<open>
  \<^bold>\<open>Theories and sources\<close> (paths below \<open>src/crates\<close>).

  \<^item> \<open>TermHub_Prelude\<close>: machine integers as words, strings as lists of bytes, the library functions on
    them that the sources call, results as sums, \<open>HashMap\<close> as an association list (\<open>hm_get\<close>,
    \<open>hm_insert\<close>, \<open>hm_modify\<close>, \<open>hm_remove\<close>), whose order is unspecified and never used.
  \<^item> \<open>Backoff\<close> is \<open>termhub-core/src/backoff.rs\<close>; \<open>Session\<close> is \<open>session.rs\<close>; \<open>Clients\<close> is \<open>clients.rs\<close>;
    \<open>Session_Mgr\<close> is \<open>session_mgr.rs\<close>; \<open>Hub\<close> is \<open>hub.rs\<close>; \<open>Secrets\<close> is \<open>secrets.rs\<close>; \<open>Config\<close> is
    \<open>config.rs\<close>, its documents over \<open>Serde_Value\<close>; \<open>Persist\<close> is \<open>persist.rs\<close>; all of that crate.
  \<^item> \<open>Runner\<close>, \<open>Runner_Machine\<close> and \<open>Runner_Pipes\<close> are \<open>termhub-core/src/runner.rs\<close>: \<open>run_loop\<close> as a
    function of what happened in each turn of its loop; as a step relation on the program points of its
    two tasks that write the status and on the places of the driver they wait for; and the two tasks
    that move bytes between hub and driver.
  \<^item> \<open>Driver\<close> is \<open>termhub-core/src/driver.rs\<close> and what the drivers of \<open>termhub-drivers/src\<close> share:
    \<open>Stream_Drivers\<close> has \<open>loopback.rs\<close>, \<open>raw_tcp.rs\<close>, \<open>serial.rs\<close> and \<open>ssh_client.rs\<close>, \<open>Telnet\<close> has
    \<open>telnet.rs\<close>, \<open>Local_Shell\<close> has \<open>local_shell.rs\<close>, \<open>Eol\<close> has \<open>eol.rs\<close>, \<open>Factory\<close> has \<open>factory.rs\<close>,
    \<open>Port_Forward\<close> has \<open>http_proxy.rs\<close>.
  \<^item> \<open>Sshd\<close> is \<open>termhub-sshd/src/handler.rs\<close>, \<open>Sshd_Server\<close> is \<open>server.rs\<close>.
  \<^item> \<open>App_State\<close> is \<open>termhub-app/src/state.rs\<close> with \<open>termhub-core/src/session_factory.rs\<close>; \<open>App_Logic\<close>
    is \<open>app_logic.rs\<close>, \<open>App_Operations\<close> the specification of its operations; \<open>App_Main\<close>, \<open>Boot\<close> and
    \<open>Program\<close> are \<open>main.rs\<close>; \<open>Host_Key\<close> is \<open>hostkey.rs\<close>; \<open>Api_Views\<close> and \<open>Api_Server\<close> are \<open>api_server.rs\<close>;
    \<open>Commands\<close> is \<open>commands.rs\<close> and \<open>commands_settings.rs\<close>; \<open>Build_Icon\<close> is \<open>build.rs\<close>.
  \<^item> \<open>Cli\<close> is \<open>termhub-cli/src/main.rs\<close>; \<open>Cli_Server\<close> joins it to the API.
\<close>

text \<open>
  \<^bold>\<open>How state and operations correspond.\<close> A struct is a record with the fields of the source, an enum
  a datatype with its constructors. Shared objects (\<open>Arc\<close>) are numbered handles into maps of the state:
  \<open>app\<close> has the session entries (\<open>runners\<close>), the host keys, the cancellation tokens, status channels,
  registries, and the tasks that are running (a host key is a value of the type variable \<open>'key\<close>, the
  key library's type). An operation takes the state and returns its result with the new
  state, a failing one an error of a sum type, on every path of the source. \<open>async\<close> code is cut where
  it can be interleaved: the events of a \<open>select!\<close> loop are a list of the branches that fired with the
  results of their calls, of any length and in any order, and where two tasks share state they are
  steps of one relation (\<open>mstep\<close>, the steps of a hub, the requests of several connections, the
  listener and the runner on a watch channel). A call inside a branch can take for ever: the view of
  a driver in time (\<open>live_run\<close> in \<open>Driver\<close>) tells a driver that waits at its \<open>select!\<close>, where it sees its
  token, from one that is inside a call, where it does not; \<open>as_script\<close> ties it to the lists of
  completed branches, and \<open>live_step_is_drv_step\<close> to the driver of the runner's relation. A loop is a recursive function of such a list, so no
  fuel is used anywhere; a list that ends stands for a loop that still waits, and the results say
  so. Loops over data (the parser of Telnet commands, the line-end rewriting) are
  total functions with their own termination proofs.

  \<^bold>\<open>What comes from outside\<close> is an argument: the outcomes of system calls, the encoder and decoder of
  Base64, the cipher, the printer and parser of TOML, the key library, the digest, and how an HTTP
  library splits a URL. A theorem that relies on them says what it relies on (a decoder undoes the
  encoder, parsing undoes printing) and has a witness with concrete functions; Base64 itself is
  defined and proved in \<open>Secrets\<close>.
\<close>

text \<open>
  \<^bold>\<open>Interfaces.\<close> \<open>upstream_driver\<close> (what the runner relies on from a driver's completed branches) is
  interpreted on the six drivers; \<open>channels\<close> (the two kinds of channel of a hub) on a model of tokio's bounded channels;
  \<open>client_registry\<close>, \<open>session_store\<close>, \<open>secret_store\<close> and \<open>base64_codec\<close>, which gives a \<open>secret_store\<close>,
  on the code's own functions; \<open>url_path\<close> (a path of plain segments arrives as its segments) on the
  splitting of a path at its slashes.

  \<^bold>\<open>What is proved.\<close>
  \<^item> The table: every operation refines its specification on the configured sessions, no task gets
    lost, what is left is what the next start begins with, and the program keeps its host keys.
  \<^item> The runner: the order of the published statuses, retries and their limit, how a stopped session
    ends and what it can wait for, and that the uptime task cannot announce an end; the order of both streams over reconnects and
    what is lost with a driver; the delays of the back-off.
  \<^item> Data: Telnet streams cut anywhere are decoded as a whole, line ends are rewritten as a one-pass
    reference does, each client sees the upstream's output in order, a forwarded connection is
    transparent.
  \<^item> Access: authentication is exact, a connection without it has no effect, limits on clients.
  \<^item> Documents: configurations, passwords and files survive writing and reading, the file is replaced
    atomically.
  \<^item> Interfaces to the user: API, window and command line perform the operations and nothing else, and
    the window learns how a session ends.
  \<^item> Where the code does less than it means to, a theorem shows that too: a limit that concurrent
    requests exceed, a runner that is left behind, an update that overwrites, a half-closed
    connection that is cut, a driver that is not cancelled inside a call, a path of the host keys that
    is forgotten.
\<close>

text \<open>
  \<^bold>\<open>Bounds.\<close> Counters, attempts, uptimes, identifiers and byte counts are words of the source's width and
  wrap around as they do there in a release build, or saturate where the source saturates. The capacities of
  the channels (256 and 1024 messages), the buffers (8192 and 65535 bytes), the client limit and the
  delays are the source's numbers. Lengths of lists, \<open>usize\<close> in the source, are natural numbers; where
  they are sent to a client that reads 64 bits the theorems ask that they fit.

  \<^bold>\<open>What is not modelled.\<close> The protocols of the libraries: SSH (\<open>russh\<close>), HTTP (\<open>axum\<close>, \<open>reqwest\<close>; that
  a route for GET also answers HEAD is left out), the text of JSON and TOML, and two
  cases of reading a document: serde takes a sequence in place of a struct, and refuses a key that is
  given twice. The parsing of command lines (\<open>clap\<close>, with the defaults of its arguments), the layout of
  tables (\<open>tabled\<close>), the window system (\<open>tauri\<close>: menus, plug-ins and dialogs appear by what the program
  does when they call it), logging, panics as such (only the driver factory's panic, which the code
  can reach, is a step of the runner, and a panic of the driver a result of its task), the effects of a
  branch that never completes (its calls count when they have returned), two sessions that ask for the
  same address (whether an address can be bound is a function of the address), the memory and the
  scheduler. Operations are performed one after the other: in the program
  two of them can overlap where they wait. The user interface in TypeScript, tests
  and packaging are not part of the core.
\<close>

end
